(* ===== verification/Prelude.thy ===== *)
theory Prelude
  imports Complex_Main "HOL-Library.Word" "HOL-Library.Log_Nat"
begin

text \<open>
  What every component of the model shares: the machine types of the Go code, the result
  type of its fallible functions, slices walked with an early return, big-endian integers
  (\<open>encoding/binary\<close>), and the parts of \<open>time\<close> the code computes with.

  Conventions of the whole development. A Go pointer \<open>*T\<close> is a \<open>T option\<close> and
  \<open>nil\<close> is \<open>None\<close>; a dereference of \<open>nil\<close> is an error value of its own, so a
  panic is a branch of the model. A Go map inside a message is the association list of its
  entries in the order one run of \<open>range\<close> visits them. A Go string is a \<open>string\<close>, one
  \<open>char\<close> per byte. Slices are lists; \<open>nil\<close> and the empty slice are told apart only
  where the code tells them apart.
\<close>

named_theorems go_simps \<open>equations of the sequencing combinators\<close>
named_theorems codec_simps \<open>unfolding rules of the message codec\<close>

section \<open>Machine types\<close>

type_synonym u8 = "8 word"
type_synonym u16 = "16 word"
type_synonym u32 = "32 word"
type_synonym u64 = "64 word"
type_synonym i64 = "64 word"  \<comment> \<open>read with \<open>sint\<close>\<close>
type_synonym bytes = "u8 list"

section \<open>Results\<close>

text \<open>Sequencing of \<open>x, err := f(); if err != nil { return err }\<close>.\<close>

fun bindE :: "'e + 'a \<Rightarrow> ('a \<Rightarrow> 'e + 'b) \<Rightarrow> 'e + 'b" where
  "bindE (Inl e) k = Inl e"
| "bindE (Inr x) k = k x"

declare bindE.simps [go_simps]

lemma bindE_eq_Inr [go_simps]: "bindE r k = Inr z \<longleftrightarrow> (\<exists>x. r = Inr x \<and> k x = Inr z)"
  by (cases r) auto

lemma bindE_eq_Inl [go_simps]:
  "bindE r k = Inl e \<longleftrightarrow> r = Inl e \<or> (\<exists>x. r = Inr x \<and> k x = Inl e)"
  by (cases r) auto

lemma bindE_assoc: "bindE (bindE r f) g = bindE r (\<lambda>x. bindE (f x) g)"
  by (cases r) auto

text \<open>A pointer dereference; \<open>e\<close> is the panic of a \<open>nil\<close> pointer.\<close>

fun deref :: "'e \<Rightarrow> 'a option \<Rightarrow> 'e + 'a" where
  "deref e None = Inl e"
| "deref e (Some x) = Inr x"

declare deref.simps [go_simps]

lemma deref_eq_Inr [go_simps]: "deref e p = Inr x \<longleftrightarrow> p = Some x"
  by (cases p) auto

lemma deref_eq_Inl [go_simps]: "deref e p = Inl e' \<longleftrightarrow> p = None \<and> e' = e"
  by (cases p) auto

text \<open>
  \<open>for _, v := range in { y, err := f(v); if err != nil { return err }; res = append(res, y) }\<close>
\<close>

fun traverse :: "('a \<Rightarrow> 'e + 'b) \<Rightarrow> 'a list \<Rightarrow> 'e + 'b list" where
  "traverse f [] = Inr []"
| "traverse f (x # xs) = bindE (f x) (\<lambda>y. bindE (traverse f xs) (\<lambda>ys. Inr (y # ys)))"

lemma traverse_eq_Inr: "traverse f xs = Inr ys \<longleftrightarrow> list_all2 (\<lambda>x y. f x = Inr y) xs ys"
proof (induction xs arbitrary: ys)
  case Nil
  then show ?case by auto
next
  case (Cons x xs)
  then show ?case by (cases ys) (auto simp: go_simps)
qed

lemma traverse_total: "(\<And>x. x \<in> set xs \<Longrightarrow> f x = Inr (g x)) \<Longrightarrow> traverse f xs = Inr (map g xs)"
  by (induction xs) auto

lemma traverse_error: "traverse f xs = Inl e \<Longrightarrow> \<exists>x \<in> set xs. f x = Inl e"
  by (induction xs) (auto simp: go_simps)

lemma traverse_append:
  "traverse f (xs @ ys) = bindE (traverse f xs) (\<lambda>us. bindE (traverse f ys) (\<lambda>vs. Inr (us @ vs)))"
proof (induction xs)
  case Nil
  then show ?case by (cases "traverse f ys") auto
next
  case (Cons x xs)
  then show ?case
    by (cases "f x"; cases "traverse f xs"; cases "traverse f ys") auto
qed

section \<open>Big-endian integers\<close>

text \<open>\<open>binary.BigEndian.PutUint16/32\<close> write the bytes of a word, most significant first.\<close>

fun be_bytes :: "nat \<Rightarrow> 'a::len word \<Rightarrow> bytes" where
  "be_bytes 0 w = []"
| "be_bytes (Suc n) w = be_bytes n (drop_bit 8 w) @ [ucast w]"

text \<open>\<open>binary.BigEndian.Uint16/32\<close> read them back.\<close>

definition be_word :: "bytes \<Rightarrow> 'a::len word" where
  "be_word bs = foldl (\<lambda>acc b. or (push_bit 8 acc) (ucast b)) 0 bs"

lemma be_word_Nil [simp]: "be_word [] = 0"
  by (simp add: be_word_def)

lemma be_word_snoc [simp]: "be_word (bs @ [b]) = or (push_bit 8 (be_word bs)) (ucast b)"
  by (simp add: be_word_def)

lemma length_be_bytes [simp]: "length (be_bytes n w) = n"
  by (induction n arbitrary: w) auto

lemma be_word_be_bytes: "be_word (be_bytes n w) = take_bit (8 * n) w"
proof (induction n arbitrary: w)
  case 0
  then show ?case by simp
next
  case (Suc n)
  show ?case
  proof (rule bit_word_eqI)
    fix i
    assume i: "i < LENGTH('a)"
    show "bit (be_word (be_bytes (Suc n) w) :: 'a word) i = bit (take_bit (8 * Suc n) w) i"
      using i
      by (cases "i < 8")
        (auto simp: Suc.IH bit_simps possible_bit_def dest: bit_imp_le_length)
  qed
qed

lemma be_roundtrip16 [simp]: "be_word (be_bytes 2 w) = (w :: u16)"
  by (simp add: be_word_be_bytes take_bit_word_eq_self)

lemma be_roundtrip32 [simp]: "be_word (be_bytes 4 w) = (w :: u32)"
  by (simp add: be_word_be_bytes take_bit_word_eq_self)

lemma be_roundtrip128 [simp]: "be_word (be_bytes 16 w) = (w :: 128 word)"
  by (simp add: be_word_be_bytes take_bit_word_eq_self)

section \<open>Time\<close>

text \<open>
  \<open>time.Duration\<close> is an \<open>int64\<close> of nanoseconds. An instant (\<open>time.Time\<close>) is its
  distance from the Unix epoch in nanoseconds, of any size; location and monotonic reading,
  which the code never uses, are left out. The zero \<open>time.Time\<close> is 1 January of year 1.
\<close>

type_synonym duration = i64
type_synonym time = int

definition Nanosecond :: int where "Nanosecond = 1"
definition Millisecond :: int where "Millisecond = 1000000"
definition Second :: int where "Second = 1000000000"

definition zero_time :: time where
  "zero_time = - 62135596800 * Second"

definition UnixNano :: "time \<Rightarrow> i64" where
  "UnixNano t = word_of_int t"

text \<open>\<open>time.Unix(0, n)\<close>\<close>

definition time_Unix0 :: "i64 \<Rightarrow> time" where
  "time_Unix0 n = sint n"

lemma UnixNano_time_Unix0 [simp]: "UnixNano (time_Unix0 n) = n"
  by (simp add: UnixNano_def time_Unix0_def)

lemma time_Unix0_not_zero_time [simp]: "time_Unix0 n \<noteq> zero_time"
proof -
  have "- (2 ^ 63) \<le> sint n"
    using sint_ge [of n] by simp
  moreover have "zero_time < - (2 ^ 63)"
    by (simp add: zero_time_def Second_def)
  ultimately show ?thesis
    by (simp add: time_Unix0_def)
qed

text \<open>Go's integer division truncates towards zero.\<close>

definition tdiv :: "int \<Rightarrow> int \<Rightarrow> int" where
  "tdiv a b = sgn a * sgn b * (\<bar>a\<bar> div \<bar>b\<bar>)"

definition tmod :: "int \<Rightarrow> int \<Rightarrow> int" where
  "tmod a b = a - b * tdiv a b"

text \<open>
  \<open>Duration.Seconds\<close> adds two \<open>float64\<close>s, the whole seconds and the rest, so it rounds:
  \<open>round_even\<close> rounds to the nearest integer, ties to even, and \<open>float64\<close> rounds a
  rational to 53 significant bits (the values here are far from the exponent's limits).
  \<open>uint32(f)\<close> truncates towards zero; outside the range of \<open>uint32\<close> Go leaves the result
  to the implementation, and the model takes the 64-bit one, which converts through \<open>int64\<close>.
\<close>

definition round_even :: "rat \<Rightarrow> int" where
  "round_even x =
     (let n = \<lfloor>x\<rfloor>; r = x - of_int n
      in if r < 1/2 then n else if 1/2 < r then n + 1 else if even n then n else n + 1)"

definition binade :: "rat \<Rightarrow> int" where
  "binade x =
     (if 1 \<le> \<bar>x\<bar> then bitlen \<lfloor>\<bar>x\<bar>\<rfloor> - 1 else - bitlen (\<lceil>1 / \<bar>x\<bar>\<rceil> - 1))"

definition float64 :: "rat \<Rightarrow> rat" where
  "float64 x =
     (if x = 0 then 0
      else let e = binade x - 52
           in if 0 \<le> e then of_int (round_even (x / 2 ^ nat e)) * 2 ^ nat e
              else of_int (round_even (x * 2 ^ nat (- e))) / 2 ^ nat (- e))"

definition Seconds :: "duration \<Rightarrow> rat" where
  "Seconds d =
     float64 (float64 (of_int (tdiv (sint d) Second))
       + float64 (float64 (of_int (tmod (sint d) Second)) / 1000000000))"

definition u32_of_float :: "rat \<Rightarrow> u32" where
  "u32_of_float x = word_of_int (if 0 \<le> x then \<lfloor>x\<rfloor> else \<lceil>x\<rceil>)"

text \<open>\<open>uint32(d.Seconds())\<close> and \<open>uint32(d.Milliseconds())\<close>\<close>

definition Seconds_u32 :: "duration \<Rightarrow> u32" where
  "Seconds_u32 d = u32_of_float (Seconds d)"

definition Milliseconds_u32 :: "duration \<Rightarrow> u32" where
  "Milliseconds_u32 d = word_of_int (tdiv (sint d) Millisecond)"

text \<open>\<open>time.Duration(n) * time.Second\<close> and \<open>time.Duration(n) * time.Millisecond\<close>\<close>

definition dur_seconds :: "u32 \<Rightarrow> duration" where
  "dur_seconds n = ucast n * word_of_int Second"

definition dur_millis :: "u32 \<Rightarrow> duration" where
  "dur_millis n = ucast n * word_of_int Millisecond"

text \<open>Whole seconds and milliseconds survive the trip through the protocol's 32 bits.\<close>

lemma round_even_of_int [simp]: "round_even (of_int k) = k"
  by (simp add: round_even_def)

lemma binade_of_int: "0 < k \<Longrightarrow> binade (of_int k) = bitlen k - 1"
  by (simp add: binade_def)

lemma float64_of_int:
  assumes "0 \<le> k" and "k < 2 ^ 53"
  shows "float64 (of_int k) = of_int k"
proof (cases "k = 0")
  case True
  then show ?thesis by (simp add: float64_def)
next
  case False
  with assms have pos: "0 < k" by simp
  have "bitlen k \<le> 53"
    using assms pos by (simp add: bitlen_le_iff_power)
  then have e: "binade (of_int k) - 52 \<le> 0"
    by (simp add: binade_of_int [OF pos])
  define j where "j = nat (- (binade (of_int k) - 52))"
  have "round_even (of_int k * 2 ^ j) = k * 2 ^ j"
    using round_even_of_int [of "k * 2 ^ j"] by simp
  with e False show ?thesis
    by (cases "binade (of_int k) - 52 = 0") (auto simp: float64_def Let_def j_def)
qed

lemma float64_0 [simp]: "float64 0 = 0"
  by (simp add: float64_def)

lemma sint_scaled_u32:
  assumes "0 \<le> c" and "c \<le> Second"
  shows "sint (ucast (n :: u32) * word_of_int c :: i64) = uint n * c"
proof -
  have n: "0 \<le> uint n" "uint n \<le> 2 ^ 32 - 1"
    using uint_bounded [of n] by auto
  have "uint n * c \<le> (2 ^ 32 - 1) * Second"
    using n assms by (intro mult_mono) (auto simp: Second_def)
  also have "\<dots> < 2 ^ 63"
    by (simp add: Second_def)
  finally have upper: "uint n * c < 2 ^ 63" .
  have "0 \<le> uint n * c"
    using assms(1) by simp
  then have lower: "- (2 ^ 63) \<le> uint n * c"
    by (rule order_trans [rotated]) simp
  have "(ucast n * word_of_int c :: i64) = word_of_int (uint n * c)"
    by (simp only: ucast_eq wi_hom_mult)
  moreover have "sint (word_of_int (uint n * c) :: i64) = uint n * c"
    using lower upper by (simp add: signed_of_int signed_take_bit_int_eq_self del: of_int_mult)
  ultimately show ?thesis
    by (simp only:)
qed

lemma sint_dur_seconds: "sint (dur_seconds n) = uint n * Second"
  unfolding dur_seconds_def by (rule sint_scaled_u32) (auto simp: Second_def)

lemma sint_dur_millis: "sint (dur_millis n) = uint n * Millisecond"
  unfolding dur_millis_def by (rule sint_scaled_u32) (auto simp: Second_def Millisecond_def)

lemma tdiv_mult_self: "0 \<le> a \<Longrightarrow> 0 < b \<Longrightarrow> tdiv (a * b) b = a"
  by (cases "a = 0") (auto simp: tdiv_def sgn_mult abs_mult)

lemma Seconds_u32_dur_seconds [simp]: "Seconds_u32 (dur_seconds n) = n"
proof -
  have "tdiv (uint n * Second) Second = uint n"
    by (rule tdiv_mult_self) (auto simp: Second_def)
  moreover from this have "tmod (uint n * Second) Second = 0"
    by (simp add: tmod_def)
  moreover have "float64 (of_int (uint n)) = of_int (uint n)"
    using uint_bounded [of n] by (intro float64_of_int) auto
  ultimately have "Seconds (dur_seconds n) = of_int (uint n)"
    by (simp add: Seconds_def sint_dur_seconds)
  then show ?thesis
    by (simp add: Seconds_u32_def u32_of_float_def word_of_int_uint del: of_int_uint)
qed

lemma Milliseconds_u32_dur_millis [simp]: "Milliseconds_u32 (dur_millis n) = n"
proof -
  have "tdiv (uint n * Millisecond) Millisecond = uint n"
    by (rule tdiv_mult_self) (auto simp: Millisecond_def)
  then show ?thesis
    by (simp add: Milliseconds_u32_def sint_dur_millis)
qed

end
