(* ===== verification/Message.thy ===== *)
theory Message
  imports Prelude
begin

text \<open>
  The messages of the protocol as the client's code sees them (package \<open>message\<close>,
  \<open>src/message/*.go\<close>): one record per struct, with the struct's field names, and one
  datatype per interface, with a constructor per implementing pointer type and one for the
  \<open>nil\<close> interface. Field names repeat between structs, so a selector is always written
  with its record (\<open>Ping.RequestID\<close>). A \<open>uuid.UUID\<close> is an array of 16 bytes, here a
  128-bit word, and the \<open>struct{}\<close>s of extension fields are \<open>unit\<close>.
\<close>

type_synonym uuid = "128 word"

datatype ResultCode =
  ResultCodeSucceeded
| ResultCodeNormalClosure
| ResultCodeIncompatibleVersion
| ResultCodeMaximumDataIDAlias
| ResultCodeMaximumUpstreamAlias
| ResultCodeUnspecifiedError
| ResultCodeNoNodeID
| ResultCodeAuthFailed
| ResultCodeConnectTimeout
| ResultCodeMalformedMessage
| ResultCodeProtocolError
| ResultCodeAckTimeout
| ResultCodeInvalidPayload
| ResultCodeInvalidDataID
| ResultCodeInvalidDataIDAlias
| ResultCodeInvalidDataFilter
| ResultCodeStreamNotFound
| ResultCodeResumeRequestConflict
| ResultCodeProcessFailed
| ResultCodeDesiredQosNotSupported
| ResultCodePingTimeout
| ResultCodeTooLargeMessageSize
| ResultCodeTooManyDataIDAliases
| ResultCodeTooManyStreams
| ResultCodeTooLongAckInterval
| ResultCodeTooManyDownstreamFilters
| ResultCodeTooManyDataFilters
| ResultCodeTooLongExpiryInterval
| ResultCodeTooLongPingTimeout
| ResultCodeTooShortPingInterval
| ResultCodeTooShortPingTimeout
| ResultCodeNodeIDMismatch
| ResultCodeRateLimitReached
| ResultCodeSessionNotFound
| ResultCodeSessionAlreadyClosed
| ResultCodeSessionCannotClosed
| ResultCodeInvalidResumeToken
| ResultCodeOther "32 word"  \<comment> \<open>an \<open>int32\<close> that is none of the constants\<close>

datatype QoS = QoSUnreliable | QoSReliable | QoSPartial | QoSOther u8

section \<open>Extension fields\<close>

type_synonym ConnectResponseExtensionFields = unit
type_synonym DisconnectExtensionFields = unit
type_synonym UpstreamOpenResponseExtensionFields = unit
type_synonym UpstreamResumeRequestExtensionFields = unit
type_synonym UpstreamResumeResponseExtensionFields = unit
type_synonym UpstreamCloseResponseExtensionFields = unit
type_synonym DownstreamOpenRequestExtensionFields = unit
type_synonym DownstreamOpenResponseExtensionFields = unit
type_synonym DownstreamResumeRequestExtensionFields = unit
type_synonym DownstreamResumeResponseExtensionFields = unit
type_synonym DownstreamCloseRequestExtensionFields = unit
type_synonym DownstreamCloseResponseExtensionFields = unit
type_synonym UpstreamCallExtensionFields = unit
type_synonym UpstreamCallAckExtensionFields = unit
type_synonym DownstreamCallExtensionFields = unit
type_synonym PingExtensionFields = unit
type_synonym PongExtensionFields = unit
type_synonym UpstreamChunkExtensionFields = unit
type_synonym UpstreamChunkAckExtensionFields = unit
type_synonym DownstreamChunkExtensionFields = unit
type_synonym DownstreamChunkAckExtensionFields = unit
type_synonym DownstreamChunkAckCompleteExtensionFields = unit
type_synonym UpstreamMetadataAckExtensionFields = unit
type_synonym DownstreamMetadataExtensionFields = unit
type_synonym DownstreamMetadataAckExtensionFields = unit
type_synonym UpstreamChunkResultExtensionFields = unit
type_synonym DownstreamChunkResultExtensionFields = unit

record IntdashExtensionFields =
  ProjectUUID :: uuid

record ConnectRequestExtensionFields =
  AccessToken :: string
  Intdash :: "IntdashExtensionFields option"

record UpstreamOpenRequestExtensionFields =
  Persist :: bool

record UpstreamCloseRequestExtensionFields =
  CloseSession :: bool

record UpstreamMetadataExtensionFields =
  Persist :: bool

section \<open>Parts of the messages\<close>

record DataID =
  Name :: string
  Type :: string

record DataFilter =
  Name :: string
  Type :: string

record DownstreamFilter =
  SourceNodeID :: string
  DataFilters :: "DataFilter option list"

record DataPoint =
  ElapsedTime :: duration
  Payload :: bytes

record UpstreamChunkResult =
  SequenceNumber :: u32
  ResultCode :: ResultCode
  ResultString :: string
  ExtensionFields :: "UpstreamChunkResultExtensionFields option"

record DownstreamChunkResult =
  StreamIDOfUpstream :: uuid
  SequenceNumberInUpstream :: u32
  ResultCode :: ResultCode
  ResultString :: string
  ExtensionFields :: "DownstreamChunkResultExtensionFields option"

record UpstreamInfo =
  SessionID :: string
  SourceNodeID :: string
  StreamID :: uuid

text \<open>
  The interface \<open>DataIDOrAlias\<close>: a \<open>nil\<close> interface, a \<open>*DataID\<close>, a
  \<open>DataIDAlias\<close> or a pointer to one (the method set of the pointer has the method too).
  \<open>UpstreamOrAlias\<close> likewise.
\<close>

datatype DataIDOrAlias =
  DOA_nil
| DOA_DataID "DataID option"
| DOA_Alias u32
| DOA_AliasPtr "u32 option"

datatype UpstreamOrAlias =
  UOA_nil
| UOA_Info "UpstreamInfo option"
| UOA_Alias u32
| UOA_AliasPtr "u32 option"

record DataPointGroup =
  DataIDOrAlias :: DataIDOrAlias
  DataPoints :: "DataPoint option list"

record StreamChunk =
  SequenceNumber :: u32
  DataPointGroups :: "DataPointGroup option list"

record DownstreamFilterReference =
  DownstreamFilterIndex :: u32
  DataFilterIndex :: u32

section \<open>Metadata\<close>

record BaseTime =
  SessionID :: string
  Name :: string
  Priority :: u8
  ElapsedTime :: duration
  BaseTime :: time

record DownstreamAbnormalClose =
  StreamID :: uuid

record DownstreamNormalClose =
  StreamID :: uuid

record DownstreamOpen =
  StreamID :: uuid
  DownstreamFilters :: "DownstreamFilter option list"
  QoS :: QoS

record DownstreamResume =
  StreamID :: uuid
  DownstreamFilters :: "DownstreamFilter option list"
  QoS :: QoS

record UpstreamAbnormalClose =
  StreamID :: uuid
  SessionID :: string

record UpstreamNormalClose =
  StreamID :: uuid
  SessionID :: string
  TotalDataPoints :: u64
  FinalSequenceNumber :: u32

record UpstreamOpen =
  StreamID :: uuid
  SessionID :: string
  QoS :: QoS

record UpstreamResume =
  StreamID :: uuid
  SessionID :: string
  QoS :: QoS

datatype SendableMetadata =
  SM_nil
| SM_BaseTime "BaseTime option"

datatype Metadata =
  MD_nil
| MD_BaseTime "BaseTime option"
| MD_UpstreamOpen "UpstreamOpen option"
| MD_UpstreamAbnormalClose "UpstreamAbnormalClose option"
| MD_UpstreamResume "UpstreamResume option"
| MD_UpstreamNormalClose "UpstreamNormalClose option"
| MD_DownstreamOpen "DownstreamOpen option"
| MD_DownstreamAbnormalClose "DownstreamAbnormalClose option"
| MD_DownstreamResume "DownstreamResume option"
| MD_DownstreamNormalClose "DownstreamNormalClose option"

section \<open>Messages\<close>

record ConnectRequest =
  RequestID :: u32
  ProtocolVersion :: string
  NodeID :: string
  PingInterval :: duration
  PingTimeout :: duration
  ExtensionFields :: "ConnectRequestExtensionFields option"

record ConnectResponse =
  RequestID :: u32
  ProtocolVersion :: string
  ResultCode :: ResultCode
  ResultString :: string
  ExtensionFields :: "ConnectResponseExtensionFields option"

record Disconnect =
  ResultCode :: ResultCode
  ResultString :: string
  ExtensionFields :: "DisconnectExtensionFields option"

record UpstreamOpenRequest =
  RequestID :: u32
  SessionID :: string
  AckInterval :: duration
  ExpiryInterval :: duration
  DataIDs :: "DataID option list"
  QoS :: QoS
  ExtensionFields :: "UpstreamOpenRequestExtensionFields option"

record UpstreamOpenResponse =
  RequestID :: u32
  AssignedStreamID :: uuid
  AssignedStreamIDAlias :: u32
  ResultCode :: ResultCode
  ResultString :: string
  ServerTime :: time
  DataIDAliases :: "(u32 \<times> DataID option) list"
  ExtensionFields :: "UpstreamOpenResponseExtensionFields option"
  ResumeToken :: string

record UpstreamResumeRequest =
  RequestID :: u32
  StreamID :: uuid
  ExtensionFields :: "UpstreamResumeRequestExtensionFields option"
  ResumeToken :: string

record UpstreamResumeResponse =
  RequestID :: u32
  AssignedStreamIDAlias :: u32
  ResultCode :: ResultCode
  ResultString :: string
  ExtensionFields :: "UpstreamResumeResponseExtensionFields option"
  ResumeToken :: string

record UpstreamCloseRequest =
  RequestID :: u32
  StreamID :: uuid
  TotalDataPoints :: u64
  FinalSequenceNumber :: u32
  ExtensionFields :: "UpstreamCloseRequestExtensionFields option"

record UpstreamCloseResponse =
  RequestID :: u32
  ResultCode :: ResultCode
  ResultString :: string
  ExtensionFields :: "UpstreamCloseResponseExtensionFields option"

record DownstreamOpenRequest =
  RequestID :: u32
  DesiredStreamIDAlias :: u32
  DownstreamFilters :: "DownstreamFilter option list"
  ExpiryInterval :: duration
  DataIDAliases :: "(u32 \<times> DataID option) list"
  QoS :: QoS
  ExtensionFields :: "DownstreamOpenRequestExtensionFields option"
  OmitEmptyChunk :: bool

record DownstreamOpenResponse =
  RequestID :: u32
  AssignedStreamID :: uuid
  ResultCode :: ResultCode
  ResultString :: string
  ServerTime :: time
  ExtensionFields :: "DownstreamOpenResponseExtensionFields option"
  ResumeToken :: string

record DownstreamResumeRequest =
  RequestID :: u32
  StreamID :: uuid
  DesiredStreamIDAlias :: u32
  ExtensionFields :: "DownstreamResumeRequestExtensionFields option"
  ResumeToken :: string

record DownstreamResumeResponse =
  RequestID :: u32
  ResultCode :: ResultCode
  ResultString :: string
  ExtensionFields :: "DownstreamResumeResponseExtensionFields option"
  ResumeToken :: string

record DownstreamCloseRequest =
  RequestID :: u32
  StreamID :: uuid
  ExtensionFields :: "DownstreamCloseRequestExtensionFields option"

record DownstreamCloseResponse =
  RequestID :: u32
  ResultCode :: ResultCode
  ResultString :: string
  ExtensionFields :: "DownstreamCloseResponseExtensionFields option"

record UpstreamCall =
  CallID :: string
  RequestCallID :: string
  DestinationNodeID :: string
  Name :: string
  Type :: string
  Payload :: bytes
  ExtensionFields :: "UpstreamCallExtensionFields option"

record UpstreamCallAck =
  CallID :: string
  ResultCode :: ResultCode
  ResultString :: string
  ExtensionFields :: "UpstreamCallAckExtensionFields option"

record DownstreamCall =
  CallID :: string
  RequestCallID :: string
  SourceNodeID :: string
  Name :: string
  Type :: string
  Payload :: bytes
  ExtensionFields :: "DownstreamCallExtensionFields option"

record Ping =
  RequestID :: u32
  ExtensionFields :: "PingExtensionFields option"

record Pong =
  RequestID :: u32
  ExtensionFields :: "PongExtensionFields option"

record UpstreamChunk =
  StreamIDAlias :: u32
  DataIDs :: "DataID option list"
  StreamChunk :: "StreamChunk option"
  ExtensionFields :: "UpstreamChunkExtensionFields option"

record UpstreamChunkAck =
  StreamIDAlias :: u32
  Results :: "UpstreamChunkResult option list"
  DataIDAliases :: "(u32 \<times> DataID option) list"
  ExtensionFields :: "UpstreamChunkAckExtensionFields option"

record DownstreamChunk =
  StreamIDAlias :: u32
  UpstreamOrAlias :: UpstreamOrAlias
  StreamChunk :: "StreamChunk option"
  ExtensionFields :: "DownstreamChunkExtensionFields option"
  DownstreamFilterReferences :: "DownstreamFilterReference option list list option"

record DownstreamChunkAck =
  StreamIDAlias :: u32
  AckID :: u32
  Results :: "DownstreamChunkResult option list"
  UpstreamAliases :: "(u32 \<times> UpstreamInfo option) list"
  DataIDAliases :: "(u32 \<times> DataID option) list"
  ExtensionFields :: "DownstreamChunkAckExtensionFields option"

record DownstreamChunkAckComplete =
  StreamIDAlias :: u32
  AckID :: u32
  ResultCode :: ResultCode
  ResultString :: string
  ExtensionFields :: "DownstreamChunkAckCompleteExtensionFields option"

record UpstreamMetadata =
  RequestID :: u32
  Metadata :: SendableMetadata
  ExtensionFields :: "UpstreamMetadataExtensionFields option"

record UpstreamMetadataAck =
  RequestID :: u32
  ResultCode :: ResultCode
  ResultString :: string
  ExtensionFields :: "UpstreamMetadataAckExtensionFields option"

record DownstreamMetadata =
  RequestID :: u32
  StreamIDAlias :: u32
  SourceNodeID :: string
  Metadata :: Metadata
  ExtensionFields :: "DownstreamMetadataExtensionFields option"

record DownstreamMetadataAck =
  RequestID :: u32
  ResultCode :: ResultCode
  ResultString :: string
  ExtensionFields :: "DownstreamMetadataAckExtensionFields option"

text \<open>The interface \<open>Message\<close>: \<open>nil\<close>, or a pointer to one of the structs.\<close>

datatype Message =
  M_nil
| M_ConnectRequest "ConnectRequest option"
| M_ConnectResponse "ConnectResponse option"
| M_Disconnect "Disconnect option"
| M_UpstreamOpenRequest "UpstreamOpenRequest option"
| M_UpstreamOpenResponse "UpstreamOpenResponse option"
| M_UpstreamResumeRequest "UpstreamResumeRequest option"
| M_UpstreamResumeResponse "UpstreamResumeResponse option"
| M_UpstreamCloseRequest "UpstreamCloseRequest option"
| M_UpstreamCloseResponse "UpstreamCloseResponse option"
| M_DownstreamOpenRequest "DownstreamOpenRequest option"
| M_DownstreamOpenResponse "DownstreamOpenResponse option"
| M_DownstreamResumeRequest "DownstreamResumeRequest option"
| M_DownstreamResumeResponse "DownstreamResumeResponse option"
| M_DownstreamCloseRequest "DownstreamCloseRequest option"
| M_DownstreamCloseResponse "DownstreamCloseResponse option"
| M_UpstreamCall "UpstreamCall option"
| M_UpstreamCallAck "UpstreamCallAck option"
| M_DownstreamCall "DownstreamCall option"
| M_Ping "Ping option"
| M_Pong "Pong option"
| M_UpstreamChunk "UpstreamChunk option"
| M_UpstreamChunkAck "UpstreamChunkAck option"
| M_DownstreamChunk "DownstreamChunk option"
| M_DownstreamChunkAck "DownstreamChunkAck option"
| M_DownstreamChunkAckComplete "DownstreamChunkAckComplete option"
| M_UpstreamMetadata "UpstreamMetadata option"
| M_UpstreamMetadataAck "UpstreamMetadataAck option"
| M_DownstreamMetadata "DownstreamMetadata option"
| M_DownstreamMetadataAck "DownstreamMetadataAck option"

section \<open>Methods\<close>

definition orUnixZero :: "time \<Rightarrow> i64" where
  "orUnixZero t = (if t = zero_time then 0 else UnixNano t)"

definition UpstreamOpenResponse_ServerTimeOrUnixZero :: "UpstreamOpenResponse \<Rightarrow> i64" where
  "UpstreamOpenResponse_ServerTimeOrUnixZero r = orUnixZero (UpstreamOpenResponse.ServerTime r)"

definition DownstreamOpenResponse_ServerTimeOrUnixZero :: "DownstreamOpenResponse \<Rightarrow> i64" where
  "DownstreamOpenResponse_ServerTimeOrUnixZero r = orUnixZero (DownstreamOpenResponse.ServerTime r)"

definition ConnectRequest_AccessToken :: "ConnectRequest \<Rightarrow> string" where
  "ConnectRequest_AccessToken c =
     (case ConnectRequest.ExtensionFields c of
        None \<Rightarrow> []
      | Some e \<Rightarrow> ConnectRequestExtensionFields.AccessToken e)"

definition UpstreamOpenRequest_Persist :: "UpstreamOpenRequest \<Rightarrow> bool" where
  "UpstreamOpenRequest_Persist r =
     (case UpstreamOpenRequest.ExtensionFields r of
        None \<Rightarrow> False
      | Some e \<Rightarrow> UpstreamOpenRequestExtensionFields.Persist e)"

definition UpstreamMetadata_Persist :: "UpstreamMetadata \<Rightarrow> bool" where
  "UpstreamMetadata_Persist m =
     (case UpstreamMetadata.ExtensionFields m of
        None \<Rightarrow> False
      | Some e \<Rightarrow> UpstreamMetadataExtensionFields.Persist e)"

definition UpstreamCloseRequest_IsCloseSession :: "UpstreamCloseRequest \<Rightarrow> bool" where
  "UpstreamCloseRequest_IsCloseSession r =
     (case UpstreamCloseRequest.ExtensionFields r of
        None \<Rightarrow> False
      | Some e \<Rightarrow> UpstreamCloseRequestExtensionFields.CloseSession e)"

lemma orUnixZero_time_Unix0 [simp]: "orUnixZero (time_Unix0 n) = n"
  by (simp add: orUnixZero_def)

end
