(* ===== verification/Proto.thy ===== *)
theory Proto
  imports Prelude
begin

text \<open>
  The types of the generated protobuf package (\<open>autogen\<close>, \<open>autogenextensions\<close>) that the
  converter reads and writes. The package is not in the repository: these records hold the
  fields the converter names, at the types its literals give them, and nothing more. A oneof is a
  datatype with a constructor per wrapper struct and one for the unset oneof.
\<close>

datatype PbResultCode =
  ResultCode_SUCCEEDED
| ResultCode_INCOMPATIBLE_VERSION
| ResultCode_MAXIMUM_DATA_ID_ALIAS
| ResultCode_MAXIMUM_UPSTREAM_ALIAS
| ResultCode_UNSPECIFIED_ERROR
| ResultCode_NO_NODE_ID
| ResultCode_AUTH_FAILED
| ResultCode_CONNECT_TIMEOUT
| ResultCode_MALFORMED_MESSAGE
| ResultCode_PROTOCOL_ERROR
| ResultCode_ACK_TIMEOUT
| ResultCode_INVALID_PAYLOAD
| ResultCode_INVALID_DATA_ID
| ResultCode_INVALID_DATA_ID_ALIAS
| ResultCode_INVALID_DATA_FILTER
| ResultCode_STREAM_NOT_FOUND
| ResultCode_RESUME_REQUEST_CONFLICT
| ResultCode_PROCESS_FAILED
| ResultCode_DESIRED_QOS_NOT_SUPPORTED
| ResultCode_PING_TIMEOUT
| ResultCode_TOO_LARGE_MESSAGE_SIZE
| ResultCode_TOO_MANY_DATA_ID_ALIASES
| ResultCode_TOO_MANY_STREAMS
| ResultCode_TOO_LONG_ACK_INTERVAL
| ResultCode_TOO_MANY_DOWNSTREAM_FILTERS
| ResultCode_TOO_MANY_DATA_FILTERS
| ResultCode_TOO_LONG_EXPIRY_INTERVAL
| ResultCode_TOO_LONG_PING_TIMEOUT
| ResultCode_TOO_SHORT_PING_INTERVAL
| ResultCode_TOO_SHORT_PING_TIMEOUT
| ResultCode_NODE_ID_MISMATCH
| ResultCode_RATE_LIMIT_REACHED
| ResultCode_SESSION_NOT_FOUND
| ResultCode_SESSION_ALREADY_CLOSED
| ResultCode_SESSION_CANNOT_CLOSED
| ResultCode_INVALID_RESUME_TOKEN
| ResultCode_other "32 word"

datatype PbQoS = QoS_UNRELIABLE | QoS_RELIABLE | QoS_PARTIAL | QoS_other "32 word"

type_synonym PbConnectResponseExtensionFields = unit
type_synonym PbDisconnectExtensionFields = unit
type_synonym PbUpstreamOpenResponseExtensionFields = unit
type_synonym PbUpstreamResumeRequestExtensionFields = unit
type_synonym PbUpstreamResumeResponseExtensionFields = unit
type_synonym PbUpstreamCloseResponseExtensionFields = unit
type_synonym PbDownstreamOpenRequestExtensionFields = unit
type_synonym PbDownstreamOpenResponseExtensionFields = unit
type_synonym PbDownstreamResumeRequestExtensionFields = unit
type_synonym PbDownstreamResumeResponseExtensionFields = unit
type_synonym PbDownstreamCloseRequestExtensionFields = unit
type_synonym PbDownstreamCloseResponseExtensionFields = unit
type_synonym PbUpstreamCallExtensionFields = unit
type_synonym PbUpstreamCallAckExtensionFields = unit
type_synonym PbDownstreamCallExtensionFields = unit
type_synonym PbPingExtensionFields = unit
type_synonym PbPongExtensionFields = unit
type_synonym PbUpstreamChunkExtensionFields = unit
type_synonym PbUpstreamChunkAckExtensionFields = unit
type_synonym PbDownstreamChunkExtensionFields = unit
type_synonym PbDownstreamChunkAckExtensionFields = unit
type_synonym PbDownstreamChunkAckCompleteExtensionFields = unit
type_synonym PbUpstreamMetadataAckExtensionFields = unit
type_synonym PbDownstreamMetadataExtensionFields = unit
type_synonym PbDownstreamMetadataAckExtensionFields = unit
type_synonym PbUpstreamChunkResultExtensionFields = unit
type_synonym PbDownstreamChunkResultExtensionFields = unit

record PbIntdashExtensionFields =
  ProjectUuid :: string

record PbConnectRequestExtensionFields =
  AccessToken :: string
  Intdash :: "PbIntdashExtensionFields option"

record PbUpstreamOpenRequestExtensionFields =
  Persist :: bool

record PbUpstreamCloseRequestExtensionFields =
  CloseSession :: bool

record PbUpstreamMetadataExtensionFields =
  Persist :: bool

record PbDataID =
  Name :: string
  Type :: string

record PbDataFilter =
  Name :: string
  Type :: string

record PbDownstreamFilter =
  SourceNodeId :: string
  DataFilters :: "PbDataFilter option list"

record PbDataPoint =
  ElapsedTime :: i64
  Payload :: bytes

record PbUpstreamChunkResult =
  SequenceNumber :: u32
  ResultCode :: PbResultCode
  ResultString :: string
  ExtensionFields :: "PbUpstreamChunkResultExtensionFields option"

record PbDownstreamChunkResult =
  StreamIdOfUpstream :: bytes
  SequenceNumberInUpstream :: u32
  ResultCode :: PbResultCode
  ResultString :: string
  ExtensionFields :: "PbDownstreamChunkResultExtensionFields option"

record PbUpstreamInfo =
  SessionId :: string
  SourceNodeId :: string
  StreamId :: bytes

datatype PbDataIdOrAlias =
  DataPointGroup_nil
| DataPointGroup_DataId "PbDataID option"
| DataPointGroup_DataIdAlias u32

datatype PbUpstreamOrAlias =
  DownstreamChunk_nil
| DownstreamChunk_UpstreamInfo "PbUpstreamInfo option"
| DownstreamChunk_UpstreamAlias u32

record PbDataPointGroup =
  DataIdOrAlias :: PbDataIdOrAlias
  DataPoints :: "PbDataPoint option list"

record PbStreamChunk =
  SequenceNumber :: u32
  DataPointGroups :: "PbDataPointGroup option list"

record PbDownstreamFilterReference =
  DownstreamFilterIndex :: u32
  DataFilterIndex :: u32

record PbDownstreamFilterReferences =
  References :: "PbDownstreamFilterReference option list"

record PbBaseTime =
  SessionId :: string
  Name :: string
  Priority :: u32
  ElapsedTime :: i64
  BaseTime :: i64

record PbUpstreamOpen =
  StreamId :: bytes
  SessionId :: string
  Qos :: PbQoS

record PbUpstreamAbnormalClose =
  StreamId :: bytes
  SessionId :: string

record PbUpstreamResume =
  StreamId :: bytes
  SessionId :: string
  Qos :: PbQoS

record PbUpstreamNormalClose =
  StreamId :: bytes
  SessionId :: string
  TotalDataPoints :: u64
  FinalSequenceNumber :: u32

record PbDownstreamOpen =
  StreamId :: bytes
  DownstreamFilters :: "PbDownstreamFilter option list"
  Qos :: PbQoS

record PbDownstreamAbnormalClose =
  StreamId :: bytes

record PbDownstreamResume =
  StreamId :: bytes
  DownstreamFilters :: "PbDownstreamFilter option list"
  Qos :: PbQoS

record PbDownstreamNormalClose =
  StreamId :: bytes

datatype PbUpstreamMetadata_Metadata =
  UpstreamMetadata_nil
| UpstreamMetadata_BaseTime "PbBaseTime option"

datatype PbDownstreamMetadata_Metadata =
  DownstreamMetadata_nil
| DownstreamMetadata_BaseTime "PbBaseTime option"
| DownstreamMetadata_UpstreamOpen "PbUpstreamOpen option"
| DownstreamMetadata_UpstreamAbnormalClose "PbUpstreamAbnormalClose option"
| DownstreamMetadata_UpstreamResume "PbUpstreamResume option"
| DownstreamMetadata_UpstreamNormalClose "PbUpstreamNormalClose option"
| DownstreamMetadata_DownstreamOpen "PbDownstreamOpen option"
| DownstreamMetadata_DownstreamAbnormalClose "PbDownstreamAbnormalClose option"
| DownstreamMetadata_DownstreamResume "PbDownstreamResume option"
| DownstreamMetadata_DownstreamNormalClose "PbDownstreamNormalClose option"

record PbConnectRequest =
  RequestId :: u32
  ProtocolVersion :: string
  NodeId :: string
  PingInterval :: u32
  PingTimeout :: u32
  ExtensionFields :: "PbConnectRequestExtensionFields option"

record PbConnectResponse =
  RequestId :: u32
  ProtocolVersion :: string
  ResultCode :: PbResultCode
  ResultString :: string
  ExtensionFields :: "PbConnectResponseExtensionFields option"

record PbDisconnect =
  ResultCode :: PbResultCode
  ResultString :: string
  ExtensionFields :: "PbDisconnectExtensionFields option"

record PbUpstreamOpenRequest =
  RequestId :: u32
  SessionId :: string
  AckInterval :: u32
  ExpiryInterval :: u32
  DataIds :: "PbDataID option list"
  Qos :: PbQoS
  ExtensionFields :: "PbUpstreamOpenRequestExtensionFields option"

record PbUpstreamOpenResponse =
  RequestId :: u32
  AssignedStreamId :: bytes
  AssignedStreamIdAlias :: u32
  ResultCode :: PbResultCode
  ResultString :: string
  ServerTime :: i64
  DataIdAliases :: "(u32 \<times> PbDataID option) list"
  ExtensionFields :: "PbUpstreamOpenResponseExtensionFields option"
  ResumeToken :: string

record PbUpstreamResumeRequest =
  RequestId :: u32
  StreamId :: bytes
  ExtensionFields :: "PbUpstreamResumeRequestExtensionFields option"
  ResumeToken :: string

record PbUpstreamResumeResponse =
  RequestId :: u32
  AssignedStreamIdAlias :: u32
  ResultCode :: PbResultCode
  ResultString :: string
  ExtensionFields :: "PbUpstreamResumeResponseExtensionFields option"
  ResumeToken :: string

record PbUpstreamCloseRequest =
  RequestId :: u32
  StreamId :: bytes
  TotalDataPoints :: u64
  FinalSequenceNumber :: u32
  ExtensionFields :: "PbUpstreamCloseRequestExtensionFields option"

record PbUpstreamCloseResponse =
  RequestId :: u32
  ResultCode :: PbResultCode
  ResultString :: string
  ExtensionFields :: "PbUpstreamCloseResponseExtensionFields option"

record PbDownstreamOpenRequest =
  RequestId :: u32
  DesiredStreamIdAlias :: u32
  DownstreamFilters :: "PbDownstreamFilter option list"
  ExpiryInterval :: u32
  DataIdAliases :: "(u32 \<times> PbDataID option) list"
  Qos :: PbQoS
  ExtensionFields :: "PbDownstreamOpenRequestExtensionFields option"
  OmitEmptyChunk :: bool

record PbDownstreamOpenResponse =
  RequestId :: u32
  AssignedStreamId :: bytes
  ResultCode :: PbResultCode
  ResultString :: string
  ServerTime :: i64
  ExtensionFields :: "PbDownstreamOpenResponseExtensionFields option"
  ResumeToken :: string

record PbDownstreamResumeRequest =
  RequestId :: u32
  StreamId :: bytes
  DesiredStreamIdAlias :: u32
  ExtensionFields :: "PbDownstreamResumeRequestExtensionFields option"
  ResumeToken :: string

record PbDownstreamResumeResponse =
  RequestId :: u32
  ResultCode :: PbResultCode
  ResultString :: string
  ExtensionFields :: "PbDownstreamResumeResponseExtensionFields option"
  ResumeToken :: string

record PbDownstreamCloseRequest =
  RequestId :: u32
  StreamId :: bytes
  ExtensionFields :: "PbDownstreamCloseRequestExtensionFields option"

record PbDownstreamCloseResponse =
  RequestId :: u32
  ResultCode :: PbResultCode
  ResultString :: string
  ExtensionFields :: "PbDownstreamCloseResponseExtensionFields option"

record PbUpstreamCall =
  CallId :: string
  RequestCallId :: string
  DestinationNodeId :: string
  Name :: string
  Type :: string
  Payload :: bytes
  ExtensionFields :: "PbUpstreamCallExtensionFields option"

record PbUpstreamCallAck =
  CallId :: string
  ResultCode :: PbResultCode
  ResultString :: string
  ExtensionFields :: "PbUpstreamCallAckExtensionFields option"

record PbDownstreamCall =
  CallId :: string
  RequestCallId :: string
  SourceNodeId :: string
  Name :: string
  Type :: string
  Payload :: bytes
  ExtensionFields :: "PbDownstreamCallExtensionFields option"

record PbPing =
  RequestId :: u32
  ExtensionFields :: "PbPingExtensionFields option"

record PbPong =
  RequestId :: u32
  ExtensionFields :: "PbPongExtensionFields option"

record PbUpstreamChunk =
  StreamIdAlias :: u32
  DataIds :: "PbDataID option list"
  StreamChunk :: "PbStreamChunk option"
  ExtensionFields :: "PbUpstreamChunkExtensionFields option"

record PbUpstreamChunkAck =
  StreamIdAlias :: u32
  Results :: "PbUpstreamChunkResult option list"
  DataIdAliases :: "(u32 \<times> PbDataID option) list"
  ExtensionFields :: "PbUpstreamChunkAckExtensionFields option"

record PbDownstreamChunk =
  StreamIdAlias :: u32
  UpstreamOrAlias :: PbUpstreamOrAlias
  StreamChunk :: "PbStreamChunk option"
  ExtensionFields :: "PbDownstreamChunkExtensionFields option"
  DownstreamFilterReferences :: "PbDownstreamFilterReferences option list option"

record PbDownstreamChunkAck =
  StreamIdAlias :: u32
  AckId :: u32
  Results :: "PbDownstreamChunkResult option list"
  UpstreamAliases :: "(u32 \<times> PbUpstreamInfo option) list"
  DataIdAliases :: "(u32 \<times> PbDataID option) list"
  ExtensionFields :: "PbDownstreamChunkAckExtensionFields option"

record PbDownstreamChunkAckComplete =
  StreamIdAlias :: u32
  AckId :: u32
  ResultCode :: PbResultCode
  ResultString :: string
  ExtensionFields :: "PbDownstreamChunkAckCompleteExtensionFields option"

record PbUpstreamMetadata =
  RequestId :: u32
  Metadata :: PbUpstreamMetadata_Metadata
  ExtensionFields :: "PbUpstreamMetadataExtensionFields option"

record PbUpstreamMetadataAck =
  RequestId :: u32
  ResultCode :: PbResultCode
  ResultString :: string
  ExtensionFields :: "PbUpstreamMetadataAckExtensionFields option"

record PbDownstreamMetadata =
  RequestId :: u32
  StreamIdAlias :: u32
  SourceNodeId :: string
  Metadata :: PbDownstreamMetadata_Metadata
  ExtensionFields :: "PbDownstreamMetadataExtensionFields option"

record PbDownstreamMetadataAck =
  RequestId :: u32
  ResultCode :: PbResultCode
  ResultString :: string
  ExtensionFields :: "PbDownstreamMetadataAckExtensionFields option"

text \<open>The oneof of \<open>autogen.Message\<close>; \<open>GetMessage\<close> of a \<open>nil\<close> message is the \<open>nil\<close> oneof.\<close>

datatype PbMessage =
  Message_nil
| Message_ConnectRequest "PbConnectRequest option"
| Message_ConnectResponse "PbConnectResponse option"
| Message_Disconnect "PbDisconnect option"
| Message_UpstreamOpenRequest "PbUpstreamOpenRequest option"
| Message_UpstreamOpenResponse "PbUpstreamOpenResponse option"
| Message_UpstreamResumeRequest "PbUpstreamResumeRequest option"
| Message_UpstreamResumeResponse "PbUpstreamResumeResponse option"
| Message_UpstreamCloseRequest "PbUpstreamCloseRequest option"
| Message_UpstreamCloseResponse "PbUpstreamCloseResponse option"
| Message_DownstreamOpenRequest "PbDownstreamOpenRequest option"
| Message_DownstreamOpenResponse "PbDownstreamOpenResponse option"
| Message_DownstreamResumeRequest "PbDownstreamResumeRequest option"
| Message_DownstreamResumeResponse "PbDownstreamResumeResponse option"
| Message_DownstreamCloseRequest "PbDownstreamCloseRequest option"
| Message_DownstreamCloseResponse "PbDownstreamCloseResponse option"
| Message_UpstreamCall "PbUpstreamCall option"
| Message_UpstreamCallAck "PbUpstreamCallAck option"
| Message_DownstreamCall "PbDownstreamCall option"
| Message_Ping "PbPing option"
| Message_Pong "PbPong option"
| Message_UpstreamChunk "PbUpstreamChunk option"
| Message_UpstreamChunkAck "PbUpstreamChunkAck option"
| Message_DownstreamChunk "PbDownstreamChunk option"
| Message_DownstreamChunkAck "PbDownstreamChunkAck option"
| Message_DownstreamChunkAckComplete "PbDownstreamChunkAckComplete option"
| Message_UpstreamMetadata "PbUpstreamMetadata option"
| Message_UpstreamMetadataAck "PbUpstreamMetadataAck option"
| Message_DownstreamMetadata "PbDownstreamMetadata option"
| Message_DownstreamMetadataAck "PbDownstreamMetadataAck option"

end
