(* ===== verification/Convert_Base.thy ===== *)
theory Convert_Base
  imports Message Proto
begin

text \<open>
  What both directions of the converter share: its errors, the shapes of its loops, and its
  dependence on \<open>github.com/google/uuid\<close>.
\<close>

section \<open>Errors and loops\<close>

text \<open>
  \<open>Malformed\<close> is an error that wraps \<open>errors.ErrMalformedMessage\<close>; \<open>InvalidDataIDOrAlias\<close>
  is the one error of \<open>toDataIDOrAlias\<close>, which wraps nothing; the other two are panics:
  the dereference of a \<open>nil\<close> pointer and \<open>uuid.Must\<close>. \<open>errorConvertToProto\<close> and
  \<open>errorConvertToWire\<close> add text and keep the wrapped error, so they are the identity here.
\<close>

datatype conv_error = Malformed | InvalidDataIDOrAlias | NilPointer | UUIDMust

text \<open>The loop \<open>for _, v := range in\<close> over pointers, whose body reads fields of \<open>*v\<close>.\<close>

definition ptr :: "('a \<Rightarrow> conv_error + 'b) \<Rightarrow> 'a option \<Rightarrow> conv_error + 'b option" where
  "ptr f p = bindE (deref NilPointer p) (\<lambda>v. bindE (f v) (\<lambda>w. Inr (Some w)))"

text \<open>The loop \<open>for k, v := range in { res[k] = ... }\<close> over a map, entry by entry.\<close>

fun entry :: "('a \<Rightarrow> conv_error + 'b) \<Rightarrow> 'k \<times> 'a \<Rightarrow> conv_error + 'k \<times> 'b" where
  "entry f (k, v) = bindE (f v) (\<lambda>w. Inr (k, w))"

text \<open>\<open>if in == nil { return nil }; return &T{}\<close>\<close>

definition copy_empty :: "'a option \<Rightarrow> unit option" where
  "copy_empty p = (case p of None \<Rightarrow> None | Some _ \<Rightarrow> Some ())"

lemma copy_empty_unit [simp]: "copy_empty (p :: unit option) = p"
  by (simp add: copy_empty_def split: option.split)

text \<open>\<open>for _, v := range in { if v != nil { refs = append(refs, f(v)) } }\<close> keeps the non-\<open>nil\<close> pointers.\<close>

definition somes :: "'a option list \<Rightarrow> 'a list" where
  "somes ps = map the (filter (\<lambda>p. p \<noteq> None) ps)"

lemma somes_simps [simp]:
  "somes [] = []" "somes (None # ps) = somes ps" "somes (Some x # ps) = x # somes ps"
  "somes (map (\<lambda>x. Some (f x)) xs) = map f xs"
  by (auto simp: somes_def comp_def filter_map)

text \<open>A record put behind a pointer in a oneof or an interface.\<close>

definition oneof :: "('a option \<Rightarrow> 'm) \<Rightarrow> conv_error + 'a \<Rightarrow> conv_error + 'm" where
  "oneof C r = bindE r (\<lambda>x. Inr (C (Some x)))"

abbreviation "iface \<equiv> oneof"

lemma ptr_eq_Inr [go_simps]: "ptr f p = Inr q \<longleftrightarrow> (\<exists>v w. p = Some v \<and> f v = Inr w \<and> q = Some w)"
  by (auto simp: ptr_def go_simps)

lemma ptr_eq_Inl [go_simps]:
  "ptr f p = Inl e \<longleftrightarrow> p = None \<and> e = NilPointer \<or> (\<exists>v. p = Some v \<and> f v = Inl e)"
  by (auto simp: ptr_def go_simps)

lemma oneof_eq_Inr [go_simps]: "oneof C r = Inr m \<longleftrightarrow> (\<exists>x. r = Inr x \<and> m = C (Some x))"
  by (auto simp: oneof_def go_simps)

lemma oneof_eq_Inl [go_simps]: "oneof C r = Inl e \<longleftrightarrow> r = Inl e"
  by (auto simp: oneof_def go_simps)

section \<open>The package uuid\<close>

text \<open>
  What the converter calls of \<open>github.com/google/uuid\<close>, a third-party package, as a
  parameter: \<open>FromBytes\<close> and \<open>Parse\<close> (\<open>None\<close> is their error) and the method \<open>String\<close>.
  \<open>uuid_lib_ok\<close> states what their documentation promises: the 16 bytes of a UUID and no
  other byte string give it back, and so does its text.
\<close>

record uuid_lib =
  FromBytes :: "bytes \<Rightarrow> uuid option"
  Parse :: "string \<Rightarrow> uuid option"
  String :: "uuid \<Rightarrow> string"

definition uuid_lib_ok :: "uuid_lib \<Rightarrow> bool" where
  "uuid_lib_ok L \<longleftrightarrow>
     (\<forall>u. FromBytes L (be_bytes 16 u) = Some u) \<and>
     (\<forall>bs u. FromBytes L bs = Some u \<longrightarrow> bs = be_bytes 16 u) \<and>
     (\<forall>u. Parse L (String L u) = Some u)"

end
