(* ===== verification/To_Proto.thy ===== *)
theory To_Proto
  imports Convert_Base
begin

text \<open>
  \<open>src/encoding/convert/wire_to_proto.go\<close>: from the client's messages to protobuf. One
  definition per Go function and one per case of the switch of \<open>WireToProto\<close>, with the calls in
  the order the code makes them: first the ones whose error is checked before the struct
  literal, then those inside it. A Go function without an error result that can still panic on a
  \<open>nil\<close> pointer returns a result here; the ones that cannot are plain functions.
\<close>

section \<open>Result codes and QoS\<close>

fun toQoSProto :: "QoS \<Rightarrow> conv_error + PbQoS" where
  "toQoSProto QoSReliable = Inr QoS_RELIABLE"
| "toQoSProto QoSUnreliable = Inr QoS_UNRELIABLE"
| "toQoSProto QoSPartial = Inr QoS_PARTIAL"
| "toQoSProto (QoSOther n) = Inl Malformed"

fun toResultCodeProto :: "ResultCode \<Rightarrow> conv_error + PbResultCode" where
  "toResultCodeProto ResultCodeSucceeded = Inr ResultCode_SUCCEEDED"
| "toResultCodeProto ResultCodeNormalClosure = Inr ResultCode_SUCCEEDED"
| "toResultCodeProto ResultCodeIncompatibleVersion = Inr ResultCode_INCOMPATIBLE_VERSION"
| "toResultCodeProto ResultCodeMaximumDataIDAlias = Inr ResultCode_MAXIMUM_DATA_ID_ALIAS"
| "toResultCodeProto ResultCodeMaximumUpstreamAlias = Inr ResultCode_MAXIMUM_UPSTREAM_ALIAS"
| "toResultCodeProto ResultCodeUnspecifiedError = Inr ResultCode_UNSPECIFIED_ERROR"
| "toResultCodeProto ResultCodeNoNodeID = Inr ResultCode_NO_NODE_ID"
| "toResultCodeProto ResultCodeAuthFailed = Inr ResultCode_AUTH_FAILED"
| "toResultCodeProto ResultCodeConnectTimeout = Inr ResultCode_CONNECT_TIMEOUT"
| "toResultCodeProto ResultCodeMalformedMessage = Inr ResultCode_MALFORMED_MESSAGE"
| "toResultCodeProto ResultCodeProtocolError = Inr ResultCode_PROTOCOL_ERROR"
| "toResultCodeProto ResultCodeAckTimeout = Inr ResultCode_ACK_TIMEOUT"
| "toResultCodeProto ResultCodeInvalidPayload = Inr ResultCode_INVALID_PAYLOAD"
| "toResultCodeProto ResultCodeInvalidDataID = Inr ResultCode_INVALID_DATA_ID"
| "toResultCodeProto ResultCodeInvalidDataIDAlias = Inr ResultCode_INVALID_DATA_ID_ALIAS"
| "toResultCodeProto ResultCodeInvalidDataFilter = Inr ResultCode_INVALID_DATA_FILTER"
| "toResultCodeProto ResultCodeStreamNotFound = Inr ResultCode_STREAM_NOT_FOUND"
| "toResultCodeProto ResultCodeResumeRequestConflict = Inr ResultCode_RESUME_REQUEST_CONFLICT"
| "toResultCodeProto ResultCodeProcessFailed = Inr ResultCode_PROCESS_FAILED"
| "toResultCodeProto ResultCodeDesiredQosNotSupported = Inr ResultCode_DESIRED_QOS_NOT_SUPPORTED"
| "toResultCodeProto ResultCodePingTimeout = Inr ResultCode_PING_TIMEOUT"
| "toResultCodeProto ResultCodeTooLargeMessageSize = Inr ResultCode_TOO_LARGE_MESSAGE_SIZE"
| "toResultCodeProto ResultCodeTooManyDataIDAliases = Inr ResultCode_TOO_MANY_DATA_ID_ALIASES"
| "toResultCodeProto ResultCodeTooManyStreams = Inr ResultCode_TOO_MANY_STREAMS"
| "toResultCodeProto ResultCodeTooLongAckInterval = Inr ResultCode_TOO_LONG_ACK_INTERVAL"
| "toResultCodeProto ResultCodeTooManyDownstreamFilters = Inr ResultCode_TOO_MANY_DOWNSTREAM_FILTERS"
| "toResultCodeProto ResultCodeTooManyDataFilters = Inr ResultCode_TOO_MANY_DATA_FILTERS"
| "toResultCodeProto ResultCodeTooLongExpiryInterval = Inr ResultCode_TOO_LONG_EXPIRY_INTERVAL"
| "toResultCodeProto ResultCodeTooLongPingTimeout = Inr ResultCode_TOO_LONG_PING_TIMEOUT"
| "toResultCodeProto ResultCodeTooShortPingInterval = Inr ResultCode_TOO_SHORT_PING_INTERVAL"
| "toResultCodeProto ResultCodeTooShortPingTimeout = Inr ResultCode_TOO_SHORT_PING_TIMEOUT"
| "toResultCodeProto ResultCodeNodeIDMismatch = Inr ResultCode_NODE_ID_MISMATCH"
| "toResultCodeProto ResultCodeRateLimitReached = Inr ResultCode_RATE_LIMIT_REACHED"
| "toResultCodeProto ResultCodeSessionNotFound = Inr ResultCode_SESSION_NOT_FOUND"
| "toResultCodeProto ResultCodeSessionAlreadyClosed = Inr ResultCode_SESSION_ALREADY_CLOSED"
| "toResultCodeProto ResultCodeSessionCannotClosed = Inr ResultCode_SESSION_CANNOT_CLOSED"
| "toResultCodeProto ResultCodeInvalidResumeToken = Inr ResultCode_INVALID_RESUME_TOKEN"
| "toResultCodeProto (ResultCodeOther c) = Inl Malformed"

section \<open>Extension fields\<close>

definition toConnectResponseExtensionFieldsProto ::
    "ConnectResponseExtensionFields option \<Rightarrow> PbConnectResponseExtensionFields option" where [codec_simps]:
  "toConnectResponseExtensionFieldsProto = copy_empty"

definition toDisconnectExtensionFieldsProto ::
    "DisconnectExtensionFields option \<Rightarrow> PbDisconnectExtensionFields option" where [codec_simps]:
  "toDisconnectExtensionFieldsProto = copy_empty"

definition toUpstreamOpenResponseExtensionFieldsProto ::
    "UpstreamOpenResponseExtensionFields option \<Rightarrow> PbUpstreamOpenResponseExtensionFields option" where [codec_simps]:
  "toUpstreamOpenResponseExtensionFieldsProto = copy_empty"

definition toUpstreamResumeRequestExtensionFieldsProto ::
    "UpstreamResumeRequestExtensionFields option \<Rightarrow> PbUpstreamResumeRequestExtensionFields option" where [codec_simps]:
  "toUpstreamResumeRequestExtensionFieldsProto = copy_empty"

definition toUpstreamResumeResponseExtensionFieldsProto ::
    "UpstreamResumeResponseExtensionFields option \<Rightarrow> PbUpstreamResumeResponseExtensionFields option" where [codec_simps]:
  "toUpstreamResumeResponseExtensionFieldsProto = copy_empty"

definition toUpstreamCloseResponseExtensionFieldsProto ::
    "UpstreamCloseResponseExtensionFields option \<Rightarrow> PbUpstreamCloseResponseExtensionFields option" where [codec_simps]:
  "toUpstreamCloseResponseExtensionFieldsProto = copy_empty"

definition toDownstreamOpenRequestExtensionFieldsProto ::
    "DownstreamOpenRequestExtensionFields option \<Rightarrow> PbDownstreamOpenRequestExtensionFields option" where [codec_simps]:
  "toDownstreamOpenRequestExtensionFieldsProto = copy_empty"

definition toDownstreamOpenResponseExtensionFieldsProto ::
    "DownstreamOpenResponseExtensionFields option \<Rightarrow> PbDownstreamOpenResponseExtensionFields option" where [codec_simps]:
  "toDownstreamOpenResponseExtensionFieldsProto = copy_empty"

definition toDownstreamResumeRequestExtensionFieldsProto ::
    "DownstreamResumeRequestExtensionFields option \<Rightarrow> PbDownstreamResumeRequestExtensionFields option" where [codec_simps]:
  "toDownstreamResumeRequestExtensionFieldsProto = copy_empty"

definition toDownstreamResumeResponseExtensionFieldsProto ::
    "DownstreamResumeResponseExtensionFields option \<Rightarrow> PbDownstreamResumeResponseExtensionFields option" where [codec_simps]:
  "toDownstreamResumeResponseExtensionFieldsProto = copy_empty"

definition toDownstreamCloseRequestExtensionFieldsProto ::
    "DownstreamCloseRequestExtensionFields option \<Rightarrow> PbDownstreamCloseRequestExtensionFields option" where [codec_simps]:
  "toDownstreamCloseRequestExtensionFieldsProto = copy_empty"

definition toDownstreamCloseResponseExtensionFieldsProto ::
    "DownstreamCloseResponseExtensionFields option \<Rightarrow> PbDownstreamCloseResponseExtensionFields option" where [codec_simps]:
  "toDownstreamCloseResponseExtensionFieldsProto = copy_empty"

definition toUpstreamCallExtensionFieldsProto ::
    "UpstreamCallExtensionFields option \<Rightarrow> PbUpstreamCallExtensionFields option" where [codec_simps]:
  "toUpstreamCallExtensionFieldsProto = copy_empty"

definition toUpstreamCallAckExtensionFieldsProto ::
    "UpstreamCallAckExtensionFields option \<Rightarrow> PbUpstreamCallAckExtensionFields option" where [codec_simps]:
  "toUpstreamCallAckExtensionFieldsProto = copy_empty"

definition toDownstreamCallExtensionFieldsProto ::
    "DownstreamCallExtensionFields option \<Rightarrow> PbDownstreamCallExtensionFields option" where [codec_simps]:
  "toDownstreamCallExtensionFieldsProto = copy_empty"

definition toPingExtensionFieldsProto ::
    "PingExtensionFields option \<Rightarrow> PbPingExtensionFields option" where [codec_simps]:
  "toPingExtensionFieldsProto = copy_empty"

definition toPongExtensionFieldsProto ::
    "PongExtensionFields option \<Rightarrow> PbPongExtensionFields option" where [codec_simps]:
  "toPongExtensionFieldsProto = copy_empty"

definition toUpstreamChunkExtensionFieldsProto ::
    "UpstreamChunkExtensionFields option \<Rightarrow> PbUpstreamChunkExtensionFields option" where [codec_simps]:
  "toUpstreamChunkExtensionFieldsProto = copy_empty"

definition toUpstreamChunkAckExtensionFieldsProto ::
    "UpstreamChunkAckExtensionFields option \<Rightarrow> PbUpstreamChunkAckExtensionFields option" where [codec_simps]:
  "toUpstreamChunkAckExtensionFieldsProto = copy_empty"

definition toDownstreamChunkExtensionFieldsProto ::
    "DownstreamChunkExtensionFields option \<Rightarrow> PbDownstreamChunkExtensionFields option" where [codec_simps]:
  "toDownstreamChunkExtensionFieldsProto = copy_empty"

definition toDownstreamChunkAckExtensionFieldsProto ::
    "DownstreamChunkAckExtensionFields option \<Rightarrow> PbDownstreamChunkAckExtensionFields option" where [codec_simps]:
  "toDownstreamChunkAckExtensionFieldsProto = copy_empty"

definition toDownstreamChunkAckCompleteExtensionFieldsProto ::
    "DownstreamChunkAckCompleteExtensionFields option \<Rightarrow> PbDownstreamChunkAckCompleteExtensionFields option" where [codec_simps]:
  "toDownstreamChunkAckCompleteExtensionFieldsProto = copy_empty"

definition toUpstreamMetadataAckExtensionFieldsProto ::
    "UpstreamMetadataAckExtensionFields option \<Rightarrow> PbUpstreamMetadataAckExtensionFields option" where [codec_simps]:
  "toUpstreamMetadataAckExtensionFieldsProto = copy_empty"

definition toDownstreamMetadataExtensionFieldsProto ::
    "DownstreamMetadataExtensionFields option \<Rightarrow> PbDownstreamMetadataExtensionFields option" where [codec_simps]:
  "toDownstreamMetadataExtensionFieldsProto = copy_empty"

definition toDownstreamMetadataAckExtensionFieldsProto ::
    "DownstreamMetadataAckExtensionFields option \<Rightarrow> PbDownstreamMetadataAckExtensionFields option" where [codec_simps]:
  "toDownstreamMetadataAckExtensionFieldsProto = copy_empty"

definition toUpstreamChunkResultExtensionFieldsProto ::
    "UpstreamChunkResultExtensionFields option \<Rightarrow> PbUpstreamChunkResultExtensionFields option" where [codec_simps]:
  "toUpstreamChunkResultExtensionFieldsProto = copy_empty"

definition toDownstreamChunkResultExtensionFieldsProto ::
    "DownstreamChunkResultExtensionFields option \<Rightarrow> PbDownstreamChunkResultExtensionFields option" where [codec_simps]:
  "toDownstreamChunkResultExtensionFieldsProto = copy_empty"

definition toIntdashExtenstionFieldsProto ::
    "uuid_lib \<Rightarrow> IntdashExtensionFields option \<Rightarrow> PbIntdashExtensionFields option" where [codec_simps]:
  "toIntdashExtenstionFieldsProto L p =
     (case p of None \<Rightarrow> None
      | Some e \<Rightarrow> Some \<lparr>ProjectUuid = String L (ProjectUUID e)\<rparr>)"

definition toConnectRequestExtensionFieldsProto ::
    "uuid_lib \<Rightarrow> ConnectRequestExtensionFields option \<Rightarrow> PbConnectRequestExtensionFields option" where [codec_simps]:
  "toConnectRequestExtensionFieldsProto L p =
     (case p of None \<Rightarrow> None
      | Some e \<Rightarrow> Some
          \<lparr>PbConnectRequestExtensionFields.AccessToken = ConnectRequestExtensionFields.AccessToken e,
           PbConnectRequestExtensionFields.Intdash =
             toIntdashExtenstionFieldsProto L (ConnectRequestExtensionFields.Intdash e)\<rparr>)"

definition toUpstreamOpenRequestExtensionFieldsProto ::
    "UpstreamOpenRequestExtensionFields option \<Rightarrow> PbUpstreamOpenRequestExtensionFields option" where [codec_simps]:
  "toUpstreamOpenRequestExtensionFieldsProto p =
     (case p of None \<Rightarrow> None
      | Some e \<Rightarrow> Some \<lparr>PbUpstreamOpenRequestExtensionFields.Persist =
          UpstreamOpenRequestExtensionFields.Persist e\<rparr>)"

definition toUpstreamCloseRequestExtensionFieldsProto ::
    "UpstreamCloseRequestExtensionFields option \<Rightarrow> PbUpstreamCloseRequestExtensionFields option" where [codec_simps]:
  "toUpstreamCloseRequestExtensionFieldsProto p =
     (case p of None \<Rightarrow> None
      | Some e \<Rightarrow> Some \<lparr>PbUpstreamCloseRequestExtensionFields.CloseSession =
          UpstreamCloseRequestExtensionFields.CloseSession e\<rparr>)"

definition toUpstreamMetadataExtensionFieldsProto ::
    "UpstreamMetadataExtensionFields option \<Rightarrow> PbUpstreamMetadataExtensionFields option" where [codec_simps]:
  "toUpstreamMetadataExtensionFieldsProto p =
     (case p of None \<Rightarrow> None
      | Some e \<Rightarrow> Some \<lparr>PbUpstreamMetadataExtensionFields.Persist =
          UpstreamMetadataExtensionFields.Persist e\<rparr>)"

section \<open>Parts of the messages\<close>

definition toDataIDProto :: "DataID \<Rightarrow> conv_error + PbDataID" where [codec_simps]:
  "toDataIDProto v = Inr \<lparr>PbDataID.Name = DataID.Name v, PbDataID.Type = DataID.Type v\<rparr>"

definition toDataIDsProto :: "DataID option list \<Rightarrow> conv_error + PbDataID option list" where
  "toDataIDsProto = traverse (ptr toDataIDProto)"

definition toDataIDAliasesProto ::
    "(u32 \<times> DataID option) list \<Rightarrow> conv_error + (u32 \<times> PbDataID option) list" where
  "toDataIDAliasesProto = traverse (entry (ptr toDataIDProto))"

definition toDataFilterProto :: "DataFilter \<Rightarrow> conv_error + PbDataFilter" where [codec_simps]:
  "toDataFilterProto v =
     Inr \<lparr>PbDataFilter.Name = DataFilter.Name v, PbDataFilter.Type = DataFilter.Type v\<rparr>"

definition toDataFiltersProto :: "DataFilter option list \<Rightarrow> conv_error + PbDataFilter option list" where
  "toDataFiltersProto = traverse (ptr toDataFilterProto)"

definition toDownstreamFilterProto :: "DownstreamFilter \<Rightarrow> conv_error + PbDownstreamFilter" where [codec_simps]:
  "toDownstreamFilterProto v =
     bindE (toDataFiltersProto (DownstreamFilter.DataFilters v)) (\<lambda>dataFilters.
     Inr \<lparr>PbDownstreamFilter.SourceNodeId = DownstreamFilter.SourceNodeID v,
          PbDownstreamFilter.DataFilters = dataFilters\<rparr>)"

definition toDownstreamFiltersProto ::
    "DownstreamFilter option list \<Rightarrow> conv_error + PbDownstreamFilter option list" where
  "toDownstreamFiltersProto = traverse (ptr toDownstreamFilterProto)"

definition toDataPointProto :: "DataPoint \<Rightarrow> conv_error + PbDataPoint" where [codec_simps]:
  "toDataPointProto v =
     Inr \<lparr>PbDataPoint.ElapsedTime = DataPoint.ElapsedTime v,
          PbDataPoint.Payload = DataPoint.Payload v\<rparr>"

definition toDataPointsProto :: "DataPoint option list \<Rightarrow> conv_error + PbDataPoint option list" where
  "toDataPointsProto = traverse (ptr toDataPointProto)"

definition toUpstreamChunkResultProto ::
    "UpstreamChunkResult \<Rightarrow> conv_error + PbUpstreamChunkResult" where [codec_simps]:
  "toUpstreamChunkResultProto v =
     bindE (toResultCodeProto (UpstreamChunkResult.ResultCode v)) (\<lambda>rs.
     Inr \<lparr>PbUpstreamChunkResult.SequenceNumber = UpstreamChunkResult.SequenceNumber v,
          PbUpstreamChunkResult.ResultCode = rs,
          PbUpstreamChunkResult.ResultString = UpstreamChunkResult.ResultString v,
          PbUpstreamChunkResult.ExtensionFields =
            toUpstreamChunkResultExtensionFieldsProto (UpstreamChunkResult.ExtensionFields v)\<rparr>)"

definition toUpstreamDataPointResultsProto ::
    "UpstreamChunkResult option list \<Rightarrow> conv_error + PbUpstreamChunkResult option list" where
  "toUpstreamDataPointResultsProto = traverse (ptr toUpstreamChunkResultProto)"

definition toDownstreamChunkResultProto ::
    "DownstreamChunkResult \<Rightarrow> conv_error + PbDownstreamChunkResult" where [codec_simps]:
  "toDownstreamChunkResultProto v =
     bindE (toResultCodeProto (DownstreamChunkResult.ResultCode v)) (\<lambda>rs.
     Inr \<lparr>PbDownstreamChunkResult.StreamIdOfUpstream =
            be_bytes 16 (DownstreamChunkResult.StreamIDOfUpstream v),
          PbDownstreamChunkResult.SequenceNumberInUpstream =
            DownstreamChunkResult.SequenceNumberInUpstream v,
          PbDownstreamChunkResult.ResultCode = rs,
          PbDownstreamChunkResult.ResultString = DownstreamChunkResult.ResultString v,
          PbDownstreamChunkResult.ExtensionFields =
            toDownstreamChunkResultExtensionFieldsProto (DownstreamChunkResult.ExtensionFields v)\<rparr>)"

definition toDownstreamDataPointResultsProto ::
    "DownstreamChunkResult option list \<Rightarrow> conv_error + PbDownstreamChunkResult option list" where
  "toDownstreamDataPointResultsProto = traverse (ptr toDownstreamChunkResultProto)"

definition toUpstreamInfoProto :: "UpstreamInfo option \<Rightarrow> PbUpstreamInfo" where
  "toUpstreamInfoProto p =
     (case p of
        None \<Rightarrow> \<lparr>PbUpstreamInfo.SessionId = [], PbUpstreamInfo.SourceNodeId = [], PbUpstreamInfo.StreamId = []\<rparr>
      | Some v \<Rightarrow>
          \<lparr>PbUpstreamInfo.SessionId = UpstreamInfo.SessionID v,
           PbUpstreamInfo.SourceNodeId = UpstreamInfo.SourceNodeID v,
           PbUpstreamInfo.StreamId = be_bytes 16 (UpstreamInfo.StreamID v)\<rparr>)"

definition toUpstreamAliasesProto ::
    "(u32 \<times> UpstreamInfo option) list \<Rightarrow> (u32 \<times> PbUpstreamInfo option) list" where
  "toUpstreamAliasesProto = map (\<lambda>(k, v). (k, Some (toUpstreamInfoProto v)))"

text \<open>\<open>toDataIDOrAliasProto\<close> sets the oneof of the group it is given; here it returns the new value.\<close>

definition toDataIDOrAliasProto :: "DataIDOrAlias \<Rightarrow> conv_error + PbDataIdOrAlias" where
  "toDataIDOrAliasProto v =
     (case v of
        DOA_nil \<Rightarrow> Inr DataPointGroup_nil
      | DOA_DataID p \<Rightarrow> bindE (ptr toDataIDProto p) (\<lambda>w. Inr (DataPointGroup_DataId w))
      | DOA_AliasPtr p \<Rightarrow> bindE (deref NilPointer p) (\<lambda>a. Inr (DataPointGroup_DataIdAlias a))
      | DOA_Alias a \<Rightarrow> Inr (DataPointGroup_DataIdAlias a))"

definition toDataPointGroupProto :: "DataPointGroup option \<Rightarrow> conv_error + PbDataPointGroup" where
  "toDataPointGroupProto p =
     (case p of
        None \<Rightarrow> Inr \<lparr>PbDataPointGroup.DataIdOrAlias = DataPointGroup_nil, PbDataPointGroup.DataPoints = []\<rparr>
      | Some v \<Rightarrow>
          bindE (toDataPointsProto (DataPointGroup.DataPoints v)) (\<lambda>points.
          bindE (toDataIDOrAliasProto (DataPointGroup.DataIDOrAlias v)) (\<lambda>d.
          Inr \<lparr>PbDataPointGroup.DataIdOrAlias = d, PbDataPointGroup.DataPoints = points\<rparr>)))"

definition toDataPointGroupsProto ::
    "DataPointGroup option list \<Rightarrow> conv_error + PbDataPointGroup option list" where
  "toDataPointGroupsProto = traverse (\<lambda>v. bindE (toDataPointGroupProto v) (\<lambda>dpg. Inr (Some dpg)))"

definition toStreamChunkProto :: "StreamChunk option \<Rightarrow> conv_error + PbStreamChunk option" where
  "toStreamChunkProto p =
     (case p of
        None \<Rightarrow> Inr (Some \<lparr>PbStreamChunk.SequenceNumber = 0, PbStreamChunk.DataPointGroups = []\<rparr>)
      | Some v \<Rightarrow>
          bindE (toDataPointGroupsProto (StreamChunk.DataPointGroups v)) (\<lambda>dpgs.
          Inr (Some \<lparr>PbStreamChunk.SequenceNumber = StreamChunk.SequenceNumber v,
                     PbStreamChunk.DataPointGroups = dpgs\<rparr>)))"

definition toDownstreamFilterReferencesProto ::
    "DownstreamFilterReference option list list option \<Rightarrow> PbDownstreamFilterReferences option list option" where
  "toDownstreamFilterReferencesProto = map_option (map (\<lambda>group. Some
     \<lparr>References = map (\<lambda>v. Some
        \<lparr>PbDownstreamFilterReference.DownstreamFilterIndex =
           DownstreamFilterReference.DownstreamFilterIndex v,
         PbDownstreamFilterReference.DataFilterIndex =
           DownstreamFilterReference.DataFilterIndex v\<rparr>) (somes group)\<rparr>))"

section \<open>Metadata\<close>

definition ToBaseTimeProto :: "BaseTime \<Rightarrow> conv_error + PbBaseTime" where [codec_simps]:
  "ToBaseTimeProto msg =
     Inr (\<lparr>PbBaseTime.SessionId = BaseTime.SessionID msg,
           PbBaseTime.Name = BaseTime.Name msg,
           PbBaseTime.Priority = ucast (BaseTime.Priority msg),
           PbBaseTime.ElapsedTime = BaseTime.ElapsedTime msg,
           PbBaseTime.BaseTime = UnixNano (BaseTime.BaseTime msg)\<rparr>)"

definition ToUpstreamOpenProto :: "UpstreamOpen \<Rightarrow> conv_error + PbUpstreamOpen" where [codec_simps]:
  "ToUpstreamOpenProto msg =
     bindE (toQoSProto (UpstreamOpen.QoS msg)) (\<lambda>qos.
     Inr (\<lparr>PbUpstreamOpen.StreamId = be_bytes 16 (UpstreamOpen.StreamID msg),
           PbUpstreamOpen.SessionId = UpstreamOpen.SessionID msg,
           PbUpstreamOpen.Qos = qos\<rparr>))"

definition ToUpstreamAbnormalCloseProto :: "UpstreamAbnormalClose \<Rightarrow> conv_error + PbUpstreamAbnormalClose" where [codec_simps]:
  "ToUpstreamAbnormalCloseProto msg =
     Inr (\<lparr>PbUpstreamAbnormalClose.StreamId = be_bytes 16 (UpstreamAbnormalClose.StreamID msg),
           PbUpstreamAbnormalClose.SessionId = UpstreamAbnormalClose.SessionID msg\<rparr>)"

definition ToUpstreamResumeProto :: "UpstreamResume \<Rightarrow> conv_error + PbUpstreamResume" where [codec_simps]:
  "ToUpstreamResumeProto msg =
     bindE (toQoSProto (UpstreamResume.QoS msg)) (\<lambda>qos.
     Inr (\<lparr>PbUpstreamResume.StreamId = be_bytes 16 (UpstreamResume.StreamID msg),
           PbUpstreamResume.SessionId = UpstreamResume.SessionID msg,
           PbUpstreamResume.Qos = qos\<rparr>))"

definition ToUpstreamNormalCloseProto :: "UpstreamNormalClose \<Rightarrow> conv_error + PbUpstreamNormalClose" where [codec_simps]:
  "ToUpstreamNormalCloseProto msg =
     Inr (\<lparr>PbUpstreamNormalClose.StreamId = be_bytes 16 (UpstreamNormalClose.StreamID msg),
           PbUpstreamNormalClose.SessionId = UpstreamNormalClose.SessionID msg,
           PbUpstreamNormalClose.TotalDataPoints = UpstreamNormalClose.TotalDataPoints msg,
           PbUpstreamNormalClose.FinalSequenceNumber = UpstreamNormalClose.FinalSequenceNumber msg\<rparr>)"

definition ToDownstreamOpenProto :: "DownstreamOpen \<Rightarrow> conv_error + PbDownstreamOpen" where [codec_simps]:
  "ToDownstreamOpenProto msg =
     bindE (toQoSProto (DownstreamOpen.QoS msg)) (\<lambda>qos.
     bindE (toDownstreamFiltersProto (DownstreamOpen.DownstreamFilters msg)) (\<lambda>filters.
     Inr (\<lparr>PbDownstreamOpen.StreamId = be_bytes 16 (DownstreamOpen.StreamID msg),
           PbDownstreamOpen.DownstreamFilters = filters,
           PbDownstreamOpen.Qos = qos\<rparr>)))"

definition ToDownstreamAbnormalCloseProto :: "DownstreamAbnormalClose \<Rightarrow> conv_error + PbDownstreamAbnormalClose" where [codec_simps]:
  "ToDownstreamAbnormalCloseProto msg =
     Inr (\<lparr>PbDownstreamAbnormalClose.StreamId = be_bytes 16 (DownstreamAbnormalClose.StreamID msg)\<rparr>)"

definition ToDownstreamResumeProto :: "DownstreamResume \<Rightarrow> conv_error + PbDownstreamResume" where [codec_simps]:
  "ToDownstreamResumeProto msg =
     bindE (toQoSProto (DownstreamResume.QoS msg)) (\<lambda>qos.
     bindE (toDownstreamFiltersProto (DownstreamResume.DownstreamFilters msg)) (\<lambda>filters.
     Inr (\<lparr>PbDownstreamResume.StreamId = be_bytes 16 (DownstreamResume.StreamID msg),
           PbDownstreamResume.DownstreamFilters = filters,
           PbDownstreamResume.Qos = qos\<rparr>)))"

definition ToDownstreamNormalCloseProto :: "DownstreamNormalClose \<Rightarrow> conv_error + PbDownstreamNormalClose" where [codec_simps]:
  "ToDownstreamNormalCloseProto msg =
     Inr (\<lparr>PbDownstreamNormalClose.StreamId = be_bytes 16 (DownstreamNormalClose.StreamID msg)\<rparr>)"

definition toUpstreamMetadataProto :: "UpstreamMetadata option \<Rightarrow> conv_error + PbUpstreamMetadata" where
  "toUpstreamMetadataProto p =
     (case p of
        None \<Rightarrow> Inr \<lparr>PbUpstreamMetadata.RequestId = 0, PbUpstreamMetadata.Metadata = UpstreamMetadata_nil,
                     PbUpstreamMetadata.ExtensionFields = None\<rparr>
      | Some v \<Rightarrow>
          bindE (case UpstreamMetadata.Metadata v of
                   SM_BaseTime b \<Rightarrow>
                     oneof UpstreamMetadata_BaseTime (bindE (deref NilPointer b) ToBaseTimeProto)
                 | SM_nil \<Rightarrow> Inl Malformed) (\<lambda>meta.
          Inr \<lparr>PbUpstreamMetadata.RequestId = UpstreamMetadata.RequestID v,
               PbUpstreamMetadata.Metadata = meta,
               PbUpstreamMetadata.ExtensionFields =
                 toUpstreamMetadataExtensionFieldsProto (UpstreamMetadata.ExtensionFields v)\<rparr>))"

definition toDownstreamMetadataProto :: "DownstreamMetadata \<Rightarrow> conv_error + PbDownstreamMetadata" where
  "toDownstreamMetadataProto v =
     bindE (case DownstreamMetadata.Metadata v of
              MD_BaseTime p \<Rightarrow>
                oneof DownstreamMetadata_BaseTime (bindE (deref NilPointer p) ToBaseTimeProto)
            | MD_UpstreamOpen p \<Rightarrow>
                oneof DownstreamMetadata_UpstreamOpen (bindE (deref NilPointer p) ToUpstreamOpenProto)
            | MD_UpstreamAbnormalClose p \<Rightarrow>
                oneof DownstreamMetadata_UpstreamAbnormalClose
                  (bindE (deref NilPointer p) ToUpstreamAbnormalCloseProto)
            | MD_UpstreamResume p \<Rightarrow>
                oneof DownstreamMetadata_UpstreamResume (bindE (deref NilPointer p) ToUpstreamResumeProto)
            | MD_UpstreamNormalClose p \<Rightarrow>
                oneof DownstreamMetadata_UpstreamNormalClose
                  (bindE (deref NilPointer p) ToUpstreamNormalCloseProto)
            | MD_DownstreamOpen p \<Rightarrow>
                oneof DownstreamMetadata_DownstreamOpen (bindE (deref NilPointer p) ToDownstreamOpenProto)
            | MD_DownstreamAbnormalClose p \<Rightarrow>
                oneof DownstreamMetadata_DownstreamAbnormalClose
                  (bindE (deref NilPointer p) ToDownstreamAbnormalCloseProto)
            | MD_DownstreamResume p \<Rightarrow>
                oneof DownstreamMetadata_DownstreamResume
                  (bindE (deref NilPointer p) ToDownstreamResumeProto)
            | MD_DownstreamNormalClose p \<Rightarrow>
                oneof DownstreamMetadata_DownstreamNormalClose
                  (bindE (deref NilPointer p) ToDownstreamNormalCloseProto)
            | MD_nil \<Rightarrow> Inl Malformed) (\<lambda>meta.
     Inr \<lparr>PbDownstreamMetadata.RequestId = DownstreamMetadata.RequestID v,
          PbDownstreamMetadata.StreamIdAlias = DownstreamMetadata.StreamIDAlias v,
          PbDownstreamMetadata.SourceNodeId = DownstreamMetadata.SourceNodeID v,
          PbDownstreamMetadata.Metadata = meta,
          PbDownstreamMetadata.ExtensionFields =
            toDownstreamMetadataExtensionFieldsProto (DownstreamMetadata.ExtensionFields v)\<rparr>)"

definition toDownstreamChunkProto :: "DownstreamChunk option \<Rightarrow> conv_error + PbDownstreamChunk" where
  "toDownstreamChunkProto p =
     (case p of
        None \<Rightarrow> Inr
          \<lparr>PbDownstreamChunk.StreamIdAlias = 0, PbDownstreamChunk.UpstreamOrAlias = DownstreamChunk_nil,
           PbDownstreamChunk.StreamChunk = None, PbDownstreamChunk.ExtensionFields = None,
           PbDownstreamChunk.DownstreamFilterReferences = None\<rparr>
      | Some v \<Rightarrow>
          bindE (toStreamChunkProto (DownstreamChunk.StreamChunk v)) (\<lambda>chunk.
          bindE (case DownstreamChunk.UpstreamOrAlias v of
                   UOA_Info i \<Rightarrow>
                     bindE (deref NilPointer i) (\<lambda>i.
                     Inr (DownstreamChunk_UpstreamInfo (Some
                       \<lparr>PbUpstreamInfo.SessionId = UpstreamInfo.SessionID i,
                        PbUpstreamInfo.SourceNodeId = UpstreamInfo.SourceNodeID i,
                        PbUpstreamInfo.StreamId = be_bytes 16 (UpstreamInfo.StreamID i)\<rparr>)))
                 | UOA_Alias a \<Rightarrow> Inr (DownstreamChunk_UpstreamAlias a)
                 | _ \<Rightarrow> Inl Malformed) (\<lambda>upstreamOrAlias.
          Inr \<lparr>PbDownstreamChunk.StreamIdAlias = DownstreamChunk.StreamIDAlias v,
               PbDownstreamChunk.UpstreamOrAlias = upstreamOrAlias,
               PbDownstreamChunk.StreamChunk = chunk,
               PbDownstreamChunk.ExtensionFields =
                 toDownstreamChunkExtensionFieldsProto (DownstreamChunk.ExtensionFields v),
               PbDownstreamChunk.DownstreamFilterReferences =
                 toDownstreamFilterReferencesProto (DownstreamChunk.DownstreamFilterReferences v)\<rparr>)))"

section \<open>One definition per case of WireToProto\<close>

definition WireToProto_ConnectRequest :: "uuid_lib \<Rightarrow> ConnectRequest \<Rightarrow> conv_error + PbConnectRequest" where [codec_simps]:
  "WireToProto_ConnectRequest L msg =
     Inr (\<lparr>PbConnectRequest.RequestId = ConnectRequest.RequestID msg,
           PbConnectRequest.ProtocolVersion = ConnectRequest.ProtocolVersion msg,
           PbConnectRequest.NodeId = ConnectRequest.NodeID msg,
           PbConnectRequest.PingInterval = Seconds_u32 (ConnectRequest.PingInterval msg),
           PbConnectRequest.PingTimeout = Seconds_u32 (ConnectRequest.PingTimeout msg),
           PbConnectRequest.ExtensionFields = toConnectRequestExtensionFieldsProto L (ConnectRequest.ExtensionFields msg)\<rparr>)"

definition WireToProto_ConnectResponse :: "ConnectResponse \<Rightarrow> conv_error + PbConnectResponse" where [codec_simps]:
  "WireToProto_ConnectResponse msg =
     bindE (toResultCodeProto (ConnectResponse.ResultCode msg)) (\<lambda>rc.
     Inr (\<lparr>PbConnectResponse.RequestId = ConnectResponse.RequestID msg,
           PbConnectResponse.ProtocolVersion = ConnectResponse.ProtocolVersion msg,
           PbConnectResponse.ResultCode = rc,
           PbConnectResponse.ResultString = ConnectResponse.ResultString msg,
           PbConnectResponse.ExtensionFields = toConnectResponseExtensionFieldsProto (ConnectResponse.ExtensionFields msg)\<rparr>))"

definition WireToProto_Disconnect :: "Disconnect \<Rightarrow> conv_error + PbDisconnect" where [codec_simps]:
  "WireToProto_Disconnect msg =
     bindE (toResultCodeProto (Disconnect.ResultCode msg)) (\<lambda>rc.
     Inr (\<lparr>PbDisconnect.ResultCode = rc,
           PbDisconnect.ResultString = Disconnect.ResultString msg,
           PbDisconnect.ExtensionFields = toDisconnectExtensionFieldsProto (Disconnect.ExtensionFields msg)\<rparr>))"

definition WireToProto_UpstreamOpenRequest :: "UpstreamOpenRequest \<Rightarrow> conv_error + PbUpstreamOpenRequest" where [codec_simps]:
  "WireToProto_UpstreamOpenRequest msg =
     bindE (toQoSProto (UpstreamOpenRequest.QoS msg)) (\<lambda>qos.
     bindE (toDataIDsProto (UpstreamOpenRequest.DataIDs msg)) (\<lambda>dataIds.
     Inr (\<lparr>PbUpstreamOpenRequest.RequestId = UpstreamOpenRequest.RequestID msg,
           PbUpstreamOpenRequest.SessionId = UpstreamOpenRequest.SessionID msg,
           PbUpstreamOpenRequest.AckInterval = Milliseconds_u32 (UpstreamOpenRequest.AckInterval msg),
           PbUpstreamOpenRequest.ExpiryInterval = Seconds_u32 (UpstreamOpenRequest.ExpiryInterval msg),
           PbUpstreamOpenRequest.DataIds = dataIds,
           PbUpstreamOpenRequest.Qos = qos,
           PbUpstreamOpenRequest.ExtensionFields = toUpstreamOpenRequestExtensionFieldsProto (UpstreamOpenRequest.ExtensionFields msg)\<rparr>)))"

definition WireToProto_UpstreamOpenResponse :: "UpstreamOpenResponse \<Rightarrow> conv_error + PbUpstreamOpenResponse" where [codec_simps]:
  "WireToProto_UpstreamOpenResponse msg =
     bindE (toResultCodeProto (UpstreamOpenResponse.ResultCode msg)) (\<lambda>rc.
     bindE (toDataIDAliasesProto (UpstreamOpenResponse.DataIDAliases msg)) (\<lambda>aliases.
     Inr (\<lparr>PbUpstreamOpenResponse.RequestId = UpstreamOpenResponse.RequestID msg,
           PbUpstreamOpenResponse.AssignedStreamId = be_bytes 16 (UpstreamOpenResponse.AssignedStreamID msg),
           PbUpstreamOpenResponse.AssignedStreamIdAlias = UpstreamOpenResponse.AssignedStreamIDAlias msg,
           PbUpstreamOpenResponse.ResultCode = rc,
           PbUpstreamOpenResponse.ResultString = UpstreamOpenResponse.ResultString msg,
           PbUpstreamOpenResponse.ServerTime = UpstreamOpenResponse_ServerTimeOrUnixZero msg,
           PbUpstreamOpenResponse.DataIdAliases = aliases,
           PbUpstreamOpenResponse.ExtensionFields = toUpstreamOpenResponseExtensionFieldsProto (UpstreamOpenResponse.ExtensionFields msg),
           PbUpstreamOpenResponse.ResumeToken = UpstreamOpenResponse.ResumeToken msg\<rparr>)))"

definition WireToProto_UpstreamResumeRequest :: "UpstreamResumeRequest \<Rightarrow> conv_error + PbUpstreamResumeRequest" where [codec_simps]:
  "WireToProto_UpstreamResumeRequest msg =
     Inr (\<lparr>PbUpstreamResumeRequest.RequestId = UpstreamResumeRequest.RequestID msg,
           PbUpstreamResumeRequest.StreamId = be_bytes 16 (UpstreamResumeRequest.StreamID msg),
           PbUpstreamResumeRequest.ExtensionFields = toUpstreamResumeRequestExtensionFieldsProto (UpstreamResumeRequest.ExtensionFields msg),
           PbUpstreamResumeRequest.ResumeToken = UpstreamResumeRequest.ResumeToken msg\<rparr>)"

definition WireToProto_UpstreamResumeResponse :: "UpstreamResumeResponse \<Rightarrow> conv_error + PbUpstreamResumeResponse" where [codec_simps]:
  "WireToProto_UpstreamResumeResponse msg =
     bindE (toResultCodeProto (UpstreamResumeResponse.ResultCode msg)) (\<lambda>rc.
     Inr (\<lparr>PbUpstreamResumeResponse.RequestId = UpstreamResumeResponse.RequestID msg,
           PbUpstreamResumeResponse.AssignedStreamIdAlias = UpstreamResumeResponse.AssignedStreamIDAlias msg,
           PbUpstreamResumeResponse.ResultCode = rc,
           PbUpstreamResumeResponse.ResultString = UpstreamResumeResponse.ResultString msg,
           PbUpstreamResumeResponse.ExtensionFields = toUpstreamResumeResponseExtensionFieldsProto (UpstreamResumeResponse.ExtensionFields msg),
           PbUpstreamResumeResponse.ResumeToken = UpstreamResumeResponse.ResumeToken msg\<rparr>))"

definition WireToProto_UpstreamCloseRequest :: "UpstreamCloseRequest \<Rightarrow> conv_error + PbUpstreamCloseRequest" where [codec_simps]:
  "WireToProto_UpstreamCloseRequest msg =
     Inr (\<lparr>PbUpstreamCloseRequest.RequestId = UpstreamCloseRequest.RequestID msg,
           PbUpstreamCloseRequest.StreamId = be_bytes 16 (UpstreamCloseRequest.StreamID msg),
           PbUpstreamCloseRequest.TotalDataPoints = UpstreamCloseRequest.TotalDataPoints msg,
           PbUpstreamCloseRequest.FinalSequenceNumber = UpstreamCloseRequest.FinalSequenceNumber msg,
           PbUpstreamCloseRequest.ExtensionFields = toUpstreamCloseRequestExtensionFieldsProto (UpstreamCloseRequest.ExtensionFields msg)\<rparr>)"

definition WireToProto_UpstreamCloseResponse :: "UpstreamCloseResponse \<Rightarrow> conv_error + PbUpstreamCloseResponse" where [codec_simps]:
  "WireToProto_UpstreamCloseResponse msg =
     bindE (toResultCodeProto (UpstreamCloseResponse.ResultCode msg)) (\<lambda>rc.
     Inr (\<lparr>PbUpstreamCloseResponse.RequestId = UpstreamCloseResponse.RequestID msg,
           PbUpstreamCloseResponse.ResultCode = rc,
           PbUpstreamCloseResponse.ResultString = UpstreamCloseResponse.ResultString msg,
           PbUpstreamCloseResponse.ExtensionFields = toUpstreamCloseResponseExtensionFieldsProto (UpstreamCloseResponse.ExtensionFields msg)\<rparr>))"

definition WireToProto_DownstreamOpenRequest :: "DownstreamOpenRequest \<Rightarrow> conv_error + PbDownstreamOpenRequest" where [codec_simps]:
  "WireToProto_DownstreamOpenRequest msg =
     bindE (toQoSProto (DownstreamOpenRequest.QoS msg)) (\<lambda>qos.
     bindE (toDownstreamFiltersProto (DownstreamOpenRequest.DownstreamFilters msg)) (\<lambda>filters.
     bindE (toDataIDAliasesProto (DownstreamOpenRequest.DataIDAliases msg)) (\<lambda>aliases.
     Inr (\<lparr>PbDownstreamOpenRequest.RequestId = DownstreamOpenRequest.RequestID msg,
           PbDownstreamOpenRequest.DesiredStreamIdAlias = DownstreamOpenRequest.DesiredStreamIDAlias msg,
           PbDownstreamOpenRequest.DownstreamFilters = filters,
           PbDownstreamOpenRequest.ExpiryInterval = Seconds_u32 (DownstreamOpenRequest.ExpiryInterval msg),
           PbDownstreamOpenRequest.DataIdAliases = aliases,
           PbDownstreamOpenRequest.Qos = qos,
           PbDownstreamOpenRequest.ExtensionFields = toDownstreamOpenRequestExtensionFieldsProto (DownstreamOpenRequest.ExtensionFields msg),
           PbDownstreamOpenRequest.OmitEmptyChunk = DownstreamOpenRequest.OmitEmptyChunk msg\<rparr>))))"

definition WireToProto_DownstreamOpenResponse :: "DownstreamOpenResponse \<Rightarrow> conv_error + PbDownstreamOpenResponse" where [codec_simps]:
  "WireToProto_DownstreamOpenResponse msg =
     bindE (toResultCodeProto (DownstreamOpenResponse.ResultCode msg)) (\<lambda>rc.
     Inr (\<lparr>PbDownstreamOpenResponse.RequestId = DownstreamOpenResponse.RequestID msg,
           PbDownstreamOpenResponse.AssignedStreamId = be_bytes 16 (DownstreamOpenResponse.AssignedStreamID msg),
           PbDownstreamOpenResponse.ResultCode = rc,
           PbDownstreamOpenResponse.ResultString = DownstreamOpenResponse.ResultString msg,
           PbDownstreamOpenResponse.ServerTime = DownstreamOpenResponse_ServerTimeOrUnixZero msg,
           PbDownstreamOpenResponse.ExtensionFields = toDownstreamOpenResponseExtensionFieldsProto (DownstreamOpenResponse.ExtensionFields msg),
           PbDownstreamOpenResponse.ResumeToken = DownstreamOpenResponse.ResumeToken msg\<rparr>))"

definition WireToProto_DownstreamResumeRequest :: "DownstreamResumeRequest \<Rightarrow> conv_error + PbDownstreamResumeRequest" where [codec_simps]:
  "WireToProto_DownstreamResumeRequest msg =
     Inr (\<lparr>PbDownstreamResumeRequest.RequestId = DownstreamResumeRequest.RequestID msg,
           PbDownstreamResumeRequest.StreamId = be_bytes 16 (DownstreamResumeRequest.StreamID msg),
           PbDownstreamResumeRequest.DesiredStreamIdAlias = DownstreamResumeRequest.DesiredStreamIDAlias msg,
           PbDownstreamResumeRequest.ExtensionFields = toDownstreamResumeRequestExtensionFieldsProto (DownstreamResumeRequest.ExtensionFields msg),
           PbDownstreamResumeRequest.ResumeToken = DownstreamResumeRequest.ResumeToken msg\<rparr>)"

definition WireToProto_DownstreamResumeResponse :: "DownstreamResumeResponse \<Rightarrow> conv_error + PbDownstreamResumeResponse" where [codec_simps]:
  "WireToProto_DownstreamResumeResponse msg =
     bindE (toResultCodeProto (DownstreamResumeResponse.ResultCode msg)) (\<lambda>rc.
     Inr (\<lparr>PbDownstreamResumeResponse.RequestId = DownstreamResumeResponse.RequestID msg,
           PbDownstreamResumeResponse.ResultCode = rc,
           PbDownstreamResumeResponse.ResultString = DownstreamResumeResponse.ResultString msg,
           PbDownstreamResumeResponse.ExtensionFields = toDownstreamResumeResponseExtensionFieldsProto (DownstreamResumeResponse.ExtensionFields msg),
           PbDownstreamResumeResponse.ResumeToken = DownstreamResumeResponse.ResumeToken msg\<rparr>))"

definition WireToProto_DownstreamCloseRequest :: "DownstreamCloseRequest \<Rightarrow> conv_error + PbDownstreamCloseRequest" where [codec_simps]:
  "WireToProto_DownstreamCloseRequest msg =
     Inr (\<lparr>PbDownstreamCloseRequest.RequestId = DownstreamCloseRequest.RequestID msg,
           PbDownstreamCloseRequest.StreamId = be_bytes 16 (DownstreamCloseRequest.StreamID msg),
           PbDownstreamCloseRequest.ExtensionFields = toDownstreamCloseRequestExtensionFieldsProto (DownstreamCloseRequest.ExtensionFields msg)\<rparr>)"

definition WireToProto_DownstreamCloseResponse :: "DownstreamCloseResponse \<Rightarrow> conv_error + PbDownstreamCloseResponse" where [codec_simps]:
  "WireToProto_DownstreamCloseResponse msg =
     bindE (toResultCodeProto (DownstreamCloseResponse.ResultCode msg)) (\<lambda>rc.
     Inr (\<lparr>PbDownstreamCloseResponse.RequestId = DownstreamCloseResponse.RequestID msg,
           PbDownstreamCloseResponse.ResultCode = rc,
           PbDownstreamCloseResponse.ResultString = DownstreamCloseResponse.ResultString msg,
           PbDownstreamCloseResponse.ExtensionFields = toDownstreamCloseResponseExtensionFieldsProto (DownstreamCloseResponse.ExtensionFields msg)\<rparr>))"

definition WireToProto_UpstreamCall :: "UpstreamCall \<Rightarrow> conv_error + PbUpstreamCall" where [codec_simps]:
  "WireToProto_UpstreamCall msg =
     Inr (\<lparr>PbUpstreamCall.CallId = UpstreamCall.CallID msg,
           PbUpstreamCall.RequestCallId = UpstreamCall.RequestCallID msg,
           PbUpstreamCall.DestinationNodeId = UpstreamCall.DestinationNodeID msg,
           PbUpstreamCall.Name = UpstreamCall.Name msg,
           PbUpstreamCall.Type = UpstreamCall.Type msg,
           PbUpstreamCall.Payload = UpstreamCall.Payload msg,
           PbUpstreamCall.ExtensionFields = toUpstreamCallExtensionFieldsProto (UpstreamCall.ExtensionFields msg)\<rparr>)"

definition WireToProto_UpstreamCallAck :: "UpstreamCallAck \<Rightarrow> conv_error + PbUpstreamCallAck" where [codec_simps]:
  "WireToProto_UpstreamCallAck msg =
     bindE (toResultCodeProto (UpstreamCallAck.ResultCode msg)) (\<lambda>rc.
     Inr (\<lparr>PbUpstreamCallAck.CallId = UpstreamCallAck.CallID msg,
           PbUpstreamCallAck.ResultCode = rc,
           PbUpstreamCallAck.ResultString = UpstreamCallAck.ResultString msg,
           PbUpstreamCallAck.ExtensionFields = toUpstreamCallAckExtensionFieldsProto (UpstreamCallAck.ExtensionFields msg)\<rparr>))"

definition WireToProto_DownstreamCall :: "DownstreamCall \<Rightarrow> conv_error + PbDownstreamCall" where [codec_simps]:
  "WireToProto_DownstreamCall msg =
     Inr (\<lparr>PbDownstreamCall.CallId = DownstreamCall.CallID msg,
           PbDownstreamCall.RequestCallId = DownstreamCall.RequestCallID msg,
           PbDownstreamCall.SourceNodeId = DownstreamCall.SourceNodeID msg,
           PbDownstreamCall.Name = DownstreamCall.Name msg,
           PbDownstreamCall.Type = DownstreamCall.Type msg,
           PbDownstreamCall.Payload = DownstreamCall.Payload msg,
           PbDownstreamCall.ExtensionFields = toDownstreamCallExtensionFieldsProto (DownstreamCall.ExtensionFields msg)\<rparr>)"

definition WireToProto_Ping :: "Ping \<Rightarrow> conv_error + PbPing" where [codec_simps]:
  "WireToProto_Ping msg =
     Inr (\<lparr>PbPing.RequestId = Ping.RequestID msg,
           PbPing.ExtensionFields = toPingExtensionFieldsProto (Ping.ExtensionFields msg)\<rparr>)"

definition WireToProto_Pong :: "Pong \<Rightarrow> conv_error + PbPong" where [codec_simps]:
  "WireToProto_Pong msg =
     Inr (\<lparr>PbPong.RequestId = Pong.RequestID msg,
           PbPong.ExtensionFields = toPongExtensionFieldsProto (Pong.ExtensionFields msg)\<rparr>)"

definition WireToProto_UpstreamChunk :: "UpstreamChunk \<Rightarrow> conv_error + PbUpstreamChunk" where [codec_simps]:
  "WireToProto_UpstreamChunk msg =
     bindE (toStreamChunkProto (UpstreamChunk.StreamChunk msg)) (\<lambda>chunk.
     bindE (toDataIDsProto (UpstreamChunk.DataIDs msg)) (\<lambda>dataIds.
     Inr (\<lparr>PbUpstreamChunk.StreamIdAlias = UpstreamChunk.StreamIDAlias msg,
           PbUpstreamChunk.DataIds = dataIds,
           PbUpstreamChunk.StreamChunk = chunk,
           PbUpstreamChunk.ExtensionFields = toUpstreamChunkExtensionFieldsProto (UpstreamChunk.ExtensionFields msg)\<rparr>)))"

definition WireToProto_UpstreamChunkAck :: "UpstreamChunkAck \<Rightarrow> conv_error + PbUpstreamChunkAck" where [codec_simps]:
  "WireToProto_UpstreamChunkAck msg =
     bindE (toUpstreamDataPointResultsProto (UpstreamChunkAck.Results msg)) (\<lambda>dprs.
     bindE (toDataIDAliasesProto (UpstreamChunkAck.DataIDAliases msg)) (\<lambda>aliases.
     Inr (\<lparr>PbUpstreamChunkAck.StreamIdAlias = UpstreamChunkAck.StreamIDAlias msg,
           PbUpstreamChunkAck.Results = dprs,
           PbUpstreamChunkAck.DataIdAliases = aliases,
           PbUpstreamChunkAck.ExtensionFields = toUpstreamChunkAckExtensionFieldsProto (UpstreamChunkAck.ExtensionFields msg)\<rparr>)))"

definition WireToProto_DownstreamChunkAck :: "DownstreamChunkAck \<Rightarrow> conv_error + PbDownstreamChunkAck" where [codec_simps]:
  "WireToProto_DownstreamChunkAck msg =
     bindE (toDownstreamDataPointResultsProto (DownstreamChunkAck.Results msg)) (\<lambda>dprs.
     bindE (toDataIDAliasesProto (DownstreamChunkAck.DataIDAliases msg)) (\<lambda>aliases.
     Inr (\<lparr>PbDownstreamChunkAck.StreamIdAlias = DownstreamChunkAck.StreamIDAlias msg,
           PbDownstreamChunkAck.AckId = DownstreamChunkAck.AckID msg,
           PbDownstreamChunkAck.Results = dprs,
           PbDownstreamChunkAck.UpstreamAliases = toUpstreamAliasesProto (DownstreamChunkAck.UpstreamAliases msg),
           PbDownstreamChunkAck.DataIdAliases = aliases,
           PbDownstreamChunkAck.ExtensionFields = toDownstreamChunkAckExtensionFieldsProto (DownstreamChunkAck.ExtensionFields msg)\<rparr>)))"

definition WireToProto_DownstreamChunkAckComplete :: "DownstreamChunkAckComplete \<Rightarrow> conv_error + PbDownstreamChunkAckComplete" where [codec_simps]:
  "WireToProto_DownstreamChunkAckComplete msg =
     bindE (toResultCodeProto (DownstreamChunkAckComplete.ResultCode msg)) (\<lambda>rc.
     Inr (\<lparr>PbDownstreamChunkAckComplete.StreamIdAlias = DownstreamChunkAckComplete.StreamIDAlias msg,
           PbDownstreamChunkAckComplete.AckId = DownstreamChunkAckComplete.AckID msg,
           PbDownstreamChunkAckComplete.ResultCode = rc,
           PbDownstreamChunkAckComplete.ResultString = DownstreamChunkAckComplete.ResultString msg,
           PbDownstreamChunkAckComplete.ExtensionFields = toDownstreamChunkAckCompleteExtensionFieldsProto (DownstreamChunkAckComplete.ExtensionFields msg)\<rparr>))"

definition WireToProto_UpstreamMetadataAck :: "UpstreamMetadataAck \<Rightarrow> conv_error + PbUpstreamMetadataAck" where [codec_simps]:
  "WireToProto_UpstreamMetadataAck msg =
     bindE (toResultCodeProto (UpstreamMetadataAck.ResultCode msg)) (\<lambda>rc.
     Inr (\<lparr>PbUpstreamMetadataAck.RequestId = UpstreamMetadataAck.RequestID msg,
           PbUpstreamMetadataAck.ResultCode = rc,
           PbUpstreamMetadataAck.ResultString = UpstreamMetadataAck.ResultString msg,
           PbUpstreamMetadataAck.ExtensionFields = toUpstreamMetadataAckExtensionFieldsProto (UpstreamMetadataAck.ExtensionFields msg)\<rparr>))"

definition WireToProto_DownstreamMetadataAck :: "DownstreamMetadataAck \<Rightarrow> conv_error + PbDownstreamMetadataAck" where [codec_simps]:
  "WireToProto_DownstreamMetadataAck msg =
     bindE (toResultCodeProto (DownstreamMetadataAck.ResultCode msg)) (\<lambda>rc.
     Inr (\<lparr>PbDownstreamMetadataAck.RequestId = DownstreamMetadataAck.RequestID msg,
           PbDownstreamMetadataAck.ResultCode = rc,
           PbDownstreamMetadataAck.ResultString = DownstreamMetadataAck.ResultString msg,
           PbDownstreamMetadataAck.ExtensionFields = toDownstreamMetadataAckExtensionFieldsProto (DownstreamMetadataAck.ExtensionFields msg)\<rparr>))"

text \<open>The type switch of \<open>WireToProto\<close>; a field of a \<open>nil\<close> pointer panics.\<close>

fun WireToProto :: "uuid_lib \<Rightarrow> Message \<Rightarrow> conv_error + PbMessage" where
  "WireToProto L M_nil = Inl Malformed"
| "WireToProto L (M_ConnectRequest msg) =
    oneof Message_ConnectRequest (bindE (deref NilPointer msg) (WireToProto_ConnectRequest L))"
| "WireToProto L (M_ConnectResponse msg) =
    oneof Message_ConnectResponse (bindE (deref NilPointer msg) WireToProto_ConnectResponse)"
| "WireToProto L (M_Disconnect msg) =
    oneof Message_Disconnect (bindE (deref NilPointer msg) WireToProto_Disconnect)"
| "WireToProto L (M_UpstreamOpenRequest msg) =
    oneof Message_UpstreamOpenRequest (bindE (deref NilPointer msg) WireToProto_UpstreamOpenRequest)"
| "WireToProto L (M_UpstreamOpenResponse msg) =
    oneof Message_UpstreamOpenResponse (bindE (deref NilPointer msg) WireToProto_UpstreamOpenResponse)"
| "WireToProto L (M_UpstreamResumeRequest msg) =
    oneof Message_UpstreamResumeRequest (bindE (deref NilPointer msg) WireToProto_UpstreamResumeRequest)"
| "WireToProto L (M_UpstreamResumeResponse msg) =
    oneof Message_UpstreamResumeResponse (bindE (deref NilPointer msg) WireToProto_UpstreamResumeResponse)"
| "WireToProto L (M_UpstreamCloseRequest msg) =
    oneof Message_UpstreamCloseRequest (bindE (deref NilPointer msg) WireToProto_UpstreamCloseRequest)"
| "WireToProto L (M_UpstreamCloseResponse msg) =
    oneof Message_UpstreamCloseResponse (bindE (deref NilPointer msg) WireToProto_UpstreamCloseResponse)"
| "WireToProto L (M_DownstreamOpenRequest msg) =
    oneof Message_DownstreamOpenRequest (bindE (deref NilPointer msg) WireToProto_DownstreamOpenRequest)"
| "WireToProto L (M_DownstreamOpenResponse msg) =
    oneof Message_DownstreamOpenResponse (bindE (deref NilPointer msg) WireToProto_DownstreamOpenResponse)"
| "WireToProto L (M_DownstreamResumeRequest msg) =
    oneof Message_DownstreamResumeRequest (bindE (deref NilPointer msg) WireToProto_DownstreamResumeRequest)"
| "WireToProto L (M_DownstreamResumeResponse msg) =
    oneof Message_DownstreamResumeResponse (bindE (deref NilPointer msg) WireToProto_DownstreamResumeResponse)"
| "WireToProto L (M_DownstreamCloseRequest msg) =
    oneof Message_DownstreamCloseRequest (bindE (deref NilPointer msg) WireToProto_DownstreamCloseRequest)"
| "WireToProto L (M_DownstreamCloseResponse msg) =
    oneof Message_DownstreamCloseResponse (bindE (deref NilPointer msg) WireToProto_DownstreamCloseResponse)"
| "WireToProto L (M_UpstreamCall msg) =
    oneof Message_UpstreamCall (bindE (deref NilPointer msg) WireToProto_UpstreamCall)"
| "WireToProto L (M_UpstreamCallAck msg) =
    oneof Message_UpstreamCallAck (bindE (deref NilPointer msg) WireToProto_UpstreamCallAck)"
| "WireToProto L (M_DownstreamCall msg) =
    oneof Message_DownstreamCall (bindE (deref NilPointer msg) WireToProto_DownstreamCall)"
| "WireToProto L (M_Ping msg) =
    oneof Message_Ping (bindE (deref NilPointer msg) WireToProto_Ping)"
| "WireToProto L (M_Pong msg) =
    oneof Message_Pong (bindE (deref NilPointer msg) WireToProto_Pong)"
| "WireToProto L (M_UpstreamChunk msg) =
    oneof Message_UpstreamChunk (bindE (deref NilPointer msg) WireToProto_UpstreamChunk)"
| "WireToProto L (M_UpstreamChunkAck msg) =
    oneof Message_UpstreamChunkAck (bindE (deref NilPointer msg) WireToProto_UpstreamChunkAck)"
| "WireToProto L (M_DownstreamChunk msg) = oneof Message_DownstreamChunk (toDownstreamChunkProto msg)"
| "WireToProto L (M_DownstreamChunkAck msg) =
    oneof Message_DownstreamChunkAck (bindE (deref NilPointer msg) WireToProto_DownstreamChunkAck)"
| "WireToProto L (M_DownstreamChunkAckComplete msg) =
    oneof Message_DownstreamChunkAckComplete (bindE (deref NilPointer msg) WireToProto_DownstreamChunkAckComplete)"
| "WireToProto L (M_UpstreamMetadata msg) = oneof Message_UpstreamMetadata (toUpstreamMetadataProto msg)"
| "WireToProto L (M_UpstreamMetadataAck msg) =
    oneof Message_UpstreamMetadataAck (bindE (deref NilPointer msg) WireToProto_UpstreamMetadataAck)"
| "WireToProto L (M_DownstreamMetadata msg) =
    oneof Message_DownstreamMetadata (bindE (deref NilPointer msg) toDownstreamMetadataProto)"
| "WireToProto L (M_DownstreamMetadataAck msg) =
    oneof Message_DownstreamMetadataAck (bindE (deref NilPointer msg) WireToProto_DownstreamMetadataAck)"

end
