(* ===== verification/From_Proto.thy ===== *)
theory From_Proto
  imports Convert_Base
begin

text \<open>
  \<open>src/encoding/convert/proto_to_wire.go\<close>: from protobuf to the client's messages. Same
  layout as \<open>To_Proto\<close>. \<open>uuid.Must\<close> panics where \<open>toUUID\<close> returns an error.
\<close>

section \<open>Result codes, QoS, UUIDs\<close>

fun toQoS :: "PbQoS \<Rightarrow> conv_error + QoS" where
  "toQoS QoS_RELIABLE = Inr QoSReliable"
| "toQoS QoS_UNRELIABLE = Inr QoSUnreliable"
| "toQoS QoS_PARTIAL = Inr QoSPartial"
| "toQoS (QoS_other n) = Inl Malformed"

definition toUUID :: "uuid_lib \<Rightarrow> bytes \<Rightarrow> conv_error + uuid" where
  "toUUID L bs = (case FromBytes L bs of None \<Rightarrow> Inl Malformed | Some u \<Rightarrow> Inr u)"

text \<open>\<open>uuid.Must(uuid.FromBytes(bs))\<close>\<close>

definition mustUUID :: "uuid_lib \<Rightarrow> bytes \<Rightarrow> conv_error + uuid" where
  "mustUUID L bs = (case FromBytes L bs of None \<Rightarrow> Inl UUIDMust | Some u \<Rightarrow> Inr u)"

fun toResultCode :: "PbResultCode \<Rightarrow> conv_error + ResultCode" where
  "toResultCode ResultCode_SUCCEEDED = Inr ResultCodeSucceeded"
| "toResultCode ResultCode_INCOMPATIBLE_VERSION = Inr ResultCodeIncompatibleVersion"
| "toResultCode ResultCode_MAXIMUM_DATA_ID_ALIAS = Inr ResultCodeMaximumDataIDAlias"
| "toResultCode ResultCode_MAXIMUM_UPSTREAM_ALIAS = Inr ResultCodeMaximumUpstreamAlias"
| "toResultCode ResultCode_UNSPECIFIED_ERROR = Inr ResultCodeUnspecifiedError"
| "toResultCode ResultCode_NO_NODE_ID = Inr ResultCodeNoNodeID"
| "toResultCode ResultCode_AUTH_FAILED = Inr ResultCodeAuthFailed"
| "toResultCode ResultCode_CONNECT_TIMEOUT = Inr ResultCodeConnectTimeout"
| "toResultCode ResultCode_MALFORMED_MESSAGE = Inr ResultCodeMalformedMessage"
| "toResultCode ResultCode_PROTOCOL_ERROR = Inr ResultCodeProtocolError"
| "toResultCode ResultCode_ACK_TIMEOUT = Inr ResultCodeAckTimeout"
| "toResultCode ResultCode_INVALID_PAYLOAD = Inr ResultCodeInvalidPayload"
| "toResultCode ResultCode_INVALID_DATA_ID = Inr ResultCodeInvalidDataID"
| "toResultCode ResultCode_INVALID_DATA_ID_ALIAS = Inr ResultCodeInvalidDataIDAlias"
| "toResultCode ResultCode_INVALID_DATA_FILTER = Inr ResultCodeInvalidDataFilter"
| "toResultCode ResultCode_STREAM_NOT_FOUND = Inr ResultCodeStreamNotFound"
| "toResultCode ResultCode_RESUME_REQUEST_CONFLICT = Inr ResultCodeResumeRequestConflict"
| "toResultCode ResultCode_PROCESS_FAILED = Inr ResultCodeProcessFailed"
| "toResultCode ResultCode_DESIRED_QOS_NOT_SUPPORTED = Inr ResultCodeDesiredQosNotSupported"
| "toResultCode ResultCode_PING_TIMEOUT = Inr ResultCodePingTimeout"
| "toResultCode ResultCode_TOO_LARGE_MESSAGE_SIZE = Inr ResultCodeTooLargeMessageSize"
| "toResultCode ResultCode_TOO_MANY_DATA_ID_ALIASES = Inr ResultCodeTooManyDataIDAliases"
| "toResultCode ResultCode_TOO_MANY_STREAMS = Inr ResultCodeTooManyStreams"
| "toResultCode ResultCode_TOO_LONG_ACK_INTERVAL = Inr ResultCodeTooLongAckInterval"
| "toResultCode ResultCode_TOO_MANY_DOWNSTREAM_FILTERS = Inr ResultCodeTooManyDownstreamFilters"
| "toResultCode ResultCode_TOO_MANY_DATA_FILTERS = Inr ResultCodeTooManyDataFilters"
| "toResultCode ResultCode_TOO_LONG_EXPIRY_INTERVAL = Inr ResultCodeTooLongExpiryInterval"
| "toResultCode ResultCode_TOO_LONG_PING_TIMEOUT = Inr ResultCodeTooLongPingTimeout"
| "toResultCode ResultCode_TOO_SHORT_PING_INTERVAL = Inr ResultCodeTooShortPingInterval"
| "toResultCode ResultCode_TOO_SHORT_PING_TIMEOUT = Inr ResultCodeTooShortPingTimeout"
| "toResultCode ResultCode_NODE_ID_MISMATCH = Inr ResultCodeNodeIDMismatch"
| "toResultCode ResultCode_RATE_LIMIT_REACHED = Inr ResultCodeRateLimitReached"
| "toResultCode ResultCode_SESSION_NOT_FOUND = Inr ResultCodeSessionNotFound"
| "toResultCode ResultCode_SESSION_ALREADY_CLOSED = Inr ResultCodeSessionAlreadyClosed"
| "toResultCode ResultCode_SESSION_CANNOT_CLOSED = Inr ResultCodeSessionCannotClosed"
| "toResultCode ResultCode_INVALID_RESUME_TOKEN = Inr ResultCodeInvalidResumeToken"
| "toResultCode (ResultCode_other c) = Inl Malformed"

section \<open>Extension fields\<close>

definition toConnectResponseExtensionFields ::
    "PbConnectResponseExtensionFields option \<Rightarrow> ConnectResponseExtensionFields option" where [codec_simps]:
  "toConnectResponseExtensionFields = copy_empty"

definition toDisconnectExtensionFields ::
    "PbDisconnectExtensionFields option \<Rightarrow> DisconnectExtensionFields option" where [codec_simps]:
  "toDisconnectExtensionFields = copy_empty"

definition toUpstreamOpenResponseExtensionFields ::
    "PbUpstreamOpenResponseExtensionFields option \<Rightarrow> UpstreamOpenResponseExtensionFields option" where [codec_simps]:
  "toUpstreamOpenResponseExtensionFields = copy_empty"

definition toUpstreamResumeRequestExtensionFields ::
    "PbUpstreamResumeRequestExtensionFields option \<Rightarrow> UpstreamResumeRequestExtensionFields option" where [codec_simps]:
  "toUpstreamResumeRequestExtensionFields = copy_empty"

definition toUpstreamResumeResponseExtensionFields ::
    "PbUpstreamResumeResponseExtensionFields option \<Rightarrow> UpstreamResumeResponseExtensionFields option" where [codec_simps]:
  "toUpstreamResumeResponseExtensionFields = copy_empty"

definition toUpstreamCloseResponseExtensionFields ::
    "PbUpstreamCloseResponseExtensionFields option \<Rightarrow> UpstreamCloseResponseExtensionFields option" where [codec_simps]:
  "toUpstreamCloseResponseExtensionFields = copy_empty"

definition toDownstreamOpenRequestExtensionFields ::
    "PbDownstreamOpenRequestExtensionFields option \<Rightarrow> DownstreamOpenRequestExtensionFields option" where [codec_simps]:
  "toDownstreamOpenRequestExtensionFields = copy_empty"

definition toDownstreamOpenResponseExtensionFields ::
    "PbDownstreamOpenResponseExtensionFields option \<Rightarrow> DownstreamOpenResponseExtensionFields option" where [codec_simps]:
  "toDownstreamOpenResponseExtensionFields = copy_empty"

definition toDownstreamResumeRequestExtensionFields ::
    "PbDownstreamResumeRequestExtensionFields option \<Rightarrow> DownstreamResumeRequestExtensionFields option" where [codec_simps]:
  "toDownstreamResumeRequestExtensionFields = copy_empty"

definition toDownstreamResumeResponseExtensionFields ::
    "PbDownstreamResumeResponseExtensionFields option \<Rightarrow> DownstreamResumeResponseExtensionFields option" where [codec_simps]:
  "toDownstreamResumeResponseExtensionFields = copy_empty"

definition toDownstreamCloseRequestExtensionFields ::
    "PbDownstreamCloseRequestExtensionFields option \<Rightarrow> DownstreamCloseRequestExtensionFields option" where [codec_simps]:
  "toDownstreamCloseRequestExtensionFields = copy_empty"

definition toDownstreamCloseResponseExtensionFields ::
    "PbDownstreamCloseResponseExtensionFields option \<Rightarrow> DownstreamCloseResponseExtensionFields option" where [codec_simps]:
  "toDownstreamCloseResponseExtensionFields = copy_empty"

definition toUpstreamCallExtensionFields ::
    "PbUpstreamCallExtensionFields option \<Rightarrow> UpstreamCallExtensionFields option" where [codec_simps]:
  "toUpstreamCallExtensionFields = copy_empty"

definition toUpstreamCallAckExtensionFields ::
    "PbUpstreamCallAckExtensionFields option \<Rightarrow> UpstreamCallAckExtensionFields option" where [codec_simps]:
  "toUpstreamCallAckExtensionFields = copy_empty"

definition toDownstreamCallExtensionFields ::
    "PbDownstreamCallExtensionFields option \<Rightarrow> DownstreamCallExtensionFields option" where [codec_simps]:
  "toDownstreamCallExtensionFields = copy_empty"

definition toPingExtensionFields ::
    "PbPingExtensionFields option \<Rightarrow> PingExtensionFields option" where [codec_simps]:
  "toPingExtensionFields = copy_empty"

definition toPongExtensionFields ::
    "PbPongExtensionFields option \<Rightarrow> PongExtensionFields option" where [codec_simps]:
  "toPongExtensionFields = copy_empty"

definition toUpstreamChunkExtensionFields ::
    "PbUpstreamChunkExtensionFields option \<Rightarrow> UpstreamChunkExtensionFields option" where [codec_simps]:
  "toUpstreamChunkExtensionFields = copy_empty"

definition toUpstreamChunkAckExtensionFields ::
    "PbUpstreamChunkAckExtensionFields option \<Rightarrow> UpstreamChunkAckExtensionFields option" where [codec_simps]:
  "toUpstreamChunkAckExtensionFields = copy_empty"

definition toDownstreamChunkExtensionFields ::
    "PbDownstreamChunkExtensionFields option \<Rightarrow> DownstreamChunkExtensionFields option" where [codec_simps]:
  "toDownstreamChunkExtensionFields = copy_empty"

definition toDownstreamChunkAckExtensionFields ::
    "PbDownstreamChunkAckExtensionFields option \<Rightarrow> DownstreamChunkAckExtensionFields option" where [codec_simps]:
  "toDownstreamChunkAckExtensionFields = copy_empty"

definition toDownstreamChunkAckCompleteExtensionFields ::
    "PbDownstreamChunkAckCompleteExtensionFields option \<Rightarrow> DownstreamChunkAckCompleteExtensionFields option" where [codec_simps]:
  "toDownstreamChunkAckCompleteExtensionFields = copy_empty"

definition toUpstreamMetadataAckExtensionFields ::
    "PbUpstreamMetadataAckExtensionFields option \<Rightarrow> UpstreamMetadataAckExtensionFields option" where [codec_simps]:
  "toUpstreamMetadataAckExtensionFields = copy_empty"

definition toDownstreamMetadataExtensionFields ::
    "PbDownstreamMetadataExtensionFields option \<Rightarrow> DownstreamMetadataExtensionFields option" where [codec_simps]:
  "toDownstreamMetadataExtensionFields = copy_empty"

definition toDownstreamMetadataAckExtensionFields ::
    "PbDownstreamMetadataAckExtensionFields option \<Rightarrow> DownstreamMetadataAckExtensionFields option" where [codec_simps]:
  "toDownstreamMetadataAckExtensionFields = copy_empty"

definition toUpstreamChunkResultExtensionFields ::
    "PbUpstreamChunkResultExtensionFields option \<Rightarrow> UpstreamChunkResultExtensionFields option" where [codec_simps]:
  "toUpstreamChunkResultExtensionFields = copy_empty"

definition toDownstreamChunkResultExtensionFields ::
    "PbDownstreamChunkResultExtensionFields option \<Rightarrow> DownstreamChunkResultExtensionFields option" where [codec_simps]:
  "toDownstreamChunkResultExtensionFields = copy_empty"

definition toIntdashExtensionFields ::
    "uuid_lib \<Rightarrow> PbIntdashExtensionFields option \<Rightarrow> conv_error + IntdashExtensionFields option" where
  "toIntdashExtensionFields L p =
     (case p of
        None \<Rightarrow> Inr None
      | Some e \<Rightarrow>
          (case Parse L (ProjectUuid e) of
             None \<Rightarrow> Inl Malformed
           | Some projectUUID \<Rightarrow> Inr (Some \<lparr>ProjectUUID = projectUUID\<rparr>)))"

definition toConnectRequestExtensionFields ::
    "uuid_lib \<Rightarrow> PbConnectRequestExtensionFields option
       \<Rightarrow> conv_error + ConnectRequestExtensionFields option" where
  "toConnectRequestExtensionFields L p =
     (case p of
        None \<Rightarrow> Inr None
      | Some e \<Rightarrow>
          bindE (toIntdashExtensionFields L (PbConnectRequestExtensionFields.Intdash e)) (\<lambda>intdashFields.
          Inr (Some
            \<lparr>ConnectRequestExtensionFields.AccessToken = PbConnectRequestExtensionFields.AccessToken e,
             ConnectRequestExtensionFields.Intdash = intdashFields\<rparr>)))"

definition toUpstreamOpenRequestExtensionFields ::
    "PbUpstreamOpenRequestExtensionFields option \<Rightarrow> UpstreamOpenRequestExtensionFields option" where [codec_simps]:
  "toUpstreamOpenRequestExtensionFields p =
     (case p of None \<Rightarrow> None
      | Some e \<Rightarrow> Some \<lparr>UpstreamOpenRequestExtensionFields.Persist =
          PbUpstreamOpenRequestExtensionFields.Persist e\<rparr>)"

definition toUpstreamCloseRequestExtensionFields ::
    "PbUpstreamCloseRequestExtensionFields option \<Rightarrow> UpstreamCloseRequestExtensionFields option" where [codec_simps]:
  "toUpstreamCloseRequestExtensionFields p =
     (case p of None \<Rightarrow> None
      | Some e \<Rightarrow> Some \<lparr>UpstreamCloseRequestExtensionFields.CloseSession =
          PbUpstreamCloseRequestExtensionFields.CloseSession e\<rparr>)"

definition toUpstreamMetadataExtensionFields ::
    "PbUpstreamMetadataExtensionFields option \<Rightarrow> UpstreamMetadataExtensionFields option" where [codec_simps]:
  "toUpstreamMetadataExtensionFields p =
     (case p of None \<Rightarrow> None
      | Some e \<Rightarrow> Some \<lparr>UpstreamMetadataExtensionFields.Persist =
          PbUpstreamMetadataExtensionFields.Persist e\<rparr>)"

section \<open>Parts of the messages\<close>

definition toDataID :: "PbDataID \<Rightarrow> conv_error + DataID" where [codec_simps]:
  "toDataID v = Inr \<lparr>DataID.Name = PbDataID.Name v, DataID.Type = PbDataID.Type v\<rparr>"

definition toDataIDs :: "PbDataID option list \<Rightarrow> conv_error + DataID option list" where
  "toDataIDs = traverse (ptr toDataID)"

definition toDataIDAliases ::
    "(u32 \<times> PbDataID option) list \<Rightarrow> conv_error + (u32 \<times> DataID option) list" where
  "toDataIDAliases = traverse (entry (ptr toDataID))"

definition toDataFilter :: "PbDataFilter \<Rightarrow> conv_error + DataFilter" where [codec_simps]:
  "toDataFilter v = Inr \<lparr>DataFilter.Name = PbDataFilter.Name v, DataFilter.Type = PbDataFilter.Type v\<rparr>"

definition toDataFilters :: "PbDataFilter option list \<Rightarrow> conv_error + DataFilter option list" where
  "toDataFilters = traverse (ptr toDataFilter)"

definition toDownstreamFilter :: "PbDownstreamFilter \<Rightarrow> conv_error + DownstreamFilter" where [codec_simps]:
  "toDownstreamFilter v =
     bindE (toDataFilters (PbDownstreamFilter.DataFilters v)) (\<lambda>dataFilters.
     Inr \<lparr>DownstreamFilter.SourceNodeID = PbDownstreamFilter.SourceNodeId v,
          DownstreamFilter.DataFilters = dataFilters\<rparr>)"

definition toDownstreamFilters ::
    "PbDownstreamFilter option list \<Rightarrow> conv_error + DownstreamFilter option list" where
  "toDownstreamFilters = traverse (ptr toDownstreamFilter)"

definition toDataPoint :: "PbDataPoint \<Rightarrow> conv_error + DataPoint" where [codec_simps]:
  "toDataPoint v =
     Inr \<lparr>DataPoint.ElapsedTime = PbDataPoint.ElapsedTime v, DataPoint.Payload = PbDataPoint.Payload v\<rparr>"

definition toDataPoints :: "PbDataPoint option list \<Rightarrow> conv_error + DataPoint option list" where
  "toDataPoints = traverse (ptr toDataPoint)"

definition toUpstreamChunkResult ::
    "PbUpstreamChunkResult \<Rightarrow> conv_error + UpstreamChunkResult" where [codec_simps]:
  "toUpstreamChunkResult v =
     bindE (toResultCode (PbUpstreamChunkResult.ResultCode v)) (\<lambda>rs.
     Inr \<lparr>UpstreamChunkResult.SequenceNumber = PbUpstreamChunkResult.SequenceNumber v,
          UpstreamChunkResult.ResultCode = rs,
          UpstreamChunkResult.ResultString = PbUpstreamChunkResult.ResultString v,
          UpstreamChunkResult.ExtensionFields =
            toUpstreamChunkResultExtensionFields (PbUpstreamChunkResult.ExtensionFields v)\<rparr>)"

definition toUpstreamDataPointResults ::
    "PbUpstreamChunkResult option list \<Rightarrow> conv_error + UpstreamChunkResult option list" where
  "toUpstreamDataPointResults = traverse (ptr toUpstreamChunkResult)"

definition toDownstreamChunkResult ::
    "uuid_lib \<Rightarrow> PbDownstreamChunkResult \<Rightarrow> conv_error + DownstreamChunkResult" where [codec_simps]:
  "toDownstreamChunkResult L v =
     bindE (toResultCode (PbDownstreamChunkResult.ResultCode v)) (\<lambda>rs.
     bindE (mustUUID L (PbDownstreamChunkResult.StreamIdOfUpstream v)) (\<lambda>sid.
     Inr \<lparr>DownstreamChunkResult.StreamIDOfUpstream = sid,
          DownstreamChunkResult.SequenceNumberInUpstream =
            PbDownstreamChunkResult.SequenceNumberInUpstream v,
          DownstreamChunkResult.ResultCode = rs,
          DownstreamChunkResult.ResultString = PbDownstreamChunkResult.ResultString v,
          DownstreamChunkResult.ExtensionFields =
            toDownstreamChunkResultExtensionFields (PbDownstreamChunkResult.ExtensionFields v)\<rparr>))"

definition toDownstreamDataPointResults ::
    "uuid_lib \<Rightarrow> PbDownstreamChunkResult option list \<Rightarrow> conv_error + DownstreamChunkResult option list" where
  "toDownstreamDataPointResults L = traverse (ptr (toDownstreamChunkResult L))"

definition toUpstreamInfo :: "uuid_lib \<Rightarrow> PbUpstreamInfo option \<Rightarrow> conv_error + UpstreamInfo option" where
  "toUpstreamInfo L p =
     (case p of
        None \<Rightarrow> Inr (Some \<lparr>UpstreamInfo.SessionID = [], UpstreamInfo.SourceNodeID = [], UpstreamInfo.StreamID = 0\<rparr>)
      | Some v \<Rightarrow>
          bindE (mustUUID L (PbUpstreamInfo.StreamId v)) (\<lambda>sid.
          Inr (Some \<lparr>UpstreamInfo.SessionID = PbUpstreamInfo.SessionId v,
                     UpstreamInfo.SourceNodeID = PbUpstreamInfo.SourceNodeId v,
                     UpstreamInfo.StreamID = sid\<rparr>)))"

definition toUpstreamAliases ::
    "uuid_lib \<Rightarrow> (u32 \<times> PbUpstreamInfo option) list \<Rightarrow> conv_error + (u32 \<times> UpstreamInfo option) list" where
  "toUpstreamAliases L = traverse (entry (toUpstreamInfo L))"

definition toDataIDOrAlias :: "PbDataIdOrAlias \<Rightarrow> conv_error + DataIDOrAlias" where
  "toDataIDOrAlias v =
     (case v of
        DataPointGroup_DataId p \<Rightarrow> bindE (ptr toDataID p) (\<lambda>w. Inr (DOA_DataID w))
      | DataPointGroup_DataIdAlias a \<Rightarrow> Inr (DOA_Alias a)
      | DataPointGroup_nil \<Rightarrow> Inl InvalidDataIDOrAlias)"

definition toDataPointGroup :: "PbDataPointGroup option \<Rightarrow> conv_error + DataPointGroup" where
  "toDataPointGroup p =
     (case p of
        None \<Rightarrow> Inr \<lparr>DataPointGroup.DataIDOrAlias = DOA_nil, DataPointGroup.DataPoints = []\<rparr>
      | Some v \<Rightarrow>
          bindE (toDataIDOrAlias (PbDataPointGroup.DataIdOrAlias v)) (\<lambda>d.
          bindE (toDataPoints (PbDataPointGroup.DataPoints v)) (\<lambda>points.
          Inr \<lparr>DataPointGroup.DataIDOrAlias = d, DataPointGroup.DataPoints = points\<rparr>)))"

definition toDataPointGroups ::
    "PbDataPointGroup option list \<Rightarrow> conv_error + DataPointGroup option list" where
  "toDataPointGroups = traverse (\<lambda>v. bindE (toDataPointGroup v) (\<lambda>dpg. Inr (Some dpg)))"

definition toStreamChunk :: "PbStreamChunk option \<Rightarrow> conv_error + StreamChunk option" where
  "toStreamChunk p =
     (case p of
        None \<Rightarrow> Inr (Some \<lparr>StreamChunk.SequenceNumber = 0, StreamChunk.DataPointGroups = []\<rparr>)
      | Some v \<Rightarrow>
          bindE (toDataPointGroups (PbStreamChunk.DataPointGroups v)) (\<lambda>dpgs.
          Inr (Some \<lparr>StreamChunk.SequenceNumber = PbStreamChunk.SequenceNumber v,
                     StreamChunk.DataPointGroups = dpgs\<rparr>)))"

definition toDownstreamFilterReferencesWire ::
    "PbDownstreamFilterReferences option list option \<Rightarrow> DownstreamFilterReference option list list option" where
  "toDownstreamFilterReferencesWire = map_option (\<lambda>gs. map (\<lambda>group.
     map (\<lambda>v. Some
        \<lparr>DownstreamFilterReference.DownstreamFilterIndex =
           PbDownstreamFilterReference.DownstreamFilterIndex v,
         DownstreamFilterReference.DataFilterIndex =
           PbDownstreamFilterReference.DataFilterIndex v\<rparr>) (somes (References group))) (somes gs))"

definition toUpstreamOrAlias :: "uuid_lib \<Rightarrow> PbDownstreamChunk \<Rightarrow> conv_error + UpstreamOrAlias" where
  "toUpstreamOrAlias L v =
     (case PbDownstreamChunk.UpstreamOrAlias v of
        DownstreamChunk_UpstreamInfo p \<Rightarrow>
          bindE (deref NilPointer p) (\<lambda>i.
          bindE (toUUID L (PbUpstreamInfo.StreamId i)) (\<lambda>sid.
          Inr (UOA_Info (Some
            \<lparr>UpstreamInfo.SessionID = PbUpstreamInfo.SessionId i,
             UpstreamInfo.SourceNodeID = PbUpstreamInfo.SourceNodeId i,
             UpstreamInfo.StreamID = sid\<rparr>))))
      | DownstreamChunk_UpstreamAlias a \<Rightarrow> Inr (UOA_Alias a)
      | DownstreamChunk_nil \<Rightarrow> Inl Malformed)"

section \<open>Metadata\<close>

definition ToBaseTime :: "PbBaseTime \<Rightarrow> conv_error + BaseTime" where [codec_simps]:
  "ToBaseTime msg =
     Inr (\<lparr>BaseTime.SessionID = PbBaseTime.SessionId msg,
           BaseTime.Name = PbBaseTime.Name msg,
           BaseTime.Priority = ucast (PbBaseTime.Priority msg),
           BaseTime.ElapsedTime = PbBaseTime.ElapsedTime msg,
           BaseTime.BaseTime = time_Unix0 (PbBaseTime.BaseTime msg)\<rparr>)"

definition ToUpstreamOpen :: "uuid_lib \<Rightarrow> PbUpstreamOpen \<Rightarrow> conv_error + UpstreamOpen" where [codec_simps]:
  "ToUpstreamOpen L msg =
     bindE (toQoS (PbUpstreamOpen.Qos msg)) (\<lambda>qos.
     bindE (toUUID L (PbUpstreamOpen.StreamId msg)) (\<lambda>sid.
     Inr (\<lparr>UpstreamOpen.StreamID = sid,
           UpstreamOpen.SessionID = PbUpstreamOpen.SessionId msg,
           UpstreamOpen.QoS = qos\<rparr>)))"

definition ToUpstreamAbnormalClose :: "uuid_lib \<Rightarrow> PbUpstreamAbnormalClose \<Rightarrow> conv_error + UpstreamAbnormalClose" where [codec_simps]:
  "ToUpstreamAbnormalClose L msg =
     bindE (toUUID L (PbUpstreamAbnormalClose.StreamId msg)) (\<lambda>sid.
     Inr (\<lparr>UpstreamAbnormalClose.StreamID = sid,
           UpstreamAbnormalClose.SessionID = PbUpstreamAbnormalClose.SessionId msg\<rparr>))"

definition ToUpstreamResume :: "uuid_lib \<Rightarrow> PbUpstreamResume \<Rightarrow> conv_error + UpstreamResume" where [codec_simps]:
  "ToUpstreamResume L msg =
     bindE (toUUID L (PbUpstreamResume.StreamId msg)) (\<lambda>sid.
     bindE (toQoS (PbUpstreamResume.Qos msg)) (\<lambda>qos.
     Inr (\<lparr>UpstreamResume.StreamID = sid,
           UpstreamResume.SessionID = PbUpstreamResume.SessionId msg,
           UpstreamResume.QoS = qos\<rparr>)))"

definition ToUpstreamNormalClose :: "uuid_lib \<Rightarrow> PbUpstreamNormalClose \<Rightarrow> conv_error + UpstreamNormalClose" where [codec_simps]:
  "ToUpstreamNormalClose L msg =
     bindE (toUUID L (PbUpstreamNormalClose.StreamId msg)) (\<lambda>sid.
     Inr (\<lparr>UpstreamNormalClose.StreamID = sid,
           UpstreamNormalClose.SessionID = PbUpstreamNormalClose.SessionId msg,
           UpstreamNormalClose.TotalDataPoints = PbUpstreamNormalClose.TotalDataPoints msg,
           UpstreamNormalClose.FinalSequenceNumber = PbUpstreamNormalClose.FinalSequenceNumber msg\<rparr>))"

definition ToDownstreamOpen :: "uuid_lib \<Rightarrow> PbDownstreamOpen \<Rightarrow> conv_error + DownstreamOpen" where [codec_simps]:
  "ToDownstreamOpen L msg =
     bindE (toQoS (PbDownstreamOpen.Qos msg)) (\<lambda>qos.
     bindE (toUUID L (PbDownstreamOpen.StreamId msg)) (\<lambda>sid.
     bindE (toDownstreamFilters (PbDownstreamOpen.DownstreamFilters msg)) (\<lambda>filters.
     Inr (\<lparr>DownstreamOpen.StreamID = sid,
           DownstreamOpen.DownstreamFilters = filters,
           DownstreamOpen.QoS = qos\<rparr>))))"

definition ToDownstreamAbnormalClose :: "uuid_lib \<Rightarrow> PbDownstreamAbnormalClose \<Rightarrow> conv_error + DownstreamAbnormalClose" where [codec_simps]:
  "ToDownstreamAbnormalClose L msg =
     bindE (toUUID L (PbDownstreamAbnormalClose.StreamId msg)) (\<lambda>sid.
     Inr (\<lparr>DownstreamAbnormalClose.StreamID = sid\<rparr>))"

definition ToDownstreamResume :: "uuid_lib \<Rightarrow> PbDownstreamResume \<Rightarrow> conv_error + DownstreamResume" where [codec_simps]:
  "ToDownstreamResume L msg =
     bindE (toUUID L (PbDownstreamResume.StreamId msg)) (\<lambda>sid.
     bindE (toQoS (PbDownstreamResume.Qos msg)) (\<lambda>qos.
     bindE (toDownstreamFilters (PbDownstreamResume.DownstreamFilters msg)) (\<lambda>filters.
     Inr (\<lparr>DownstreamResume.StreamID = sid,
           DownstreamResume.DownstreamFilters = filters,
           DownstreamResume.QoS = qos\<rparr>))))"

definition ToDownstreamNormalClose :: "uuid_lib \<Rightarrow> PbDownstreamNormalClose \<Rightarrow> conv_error + DownstreamNormalClose" where [codec_simps]:
  "ToDownstreamNormalClose L msg =
     bindE (toUUID L (PbDownstreamNormalClose.StreamId msg)) (\<lambda>sid.
     Inr (\<lparr>DownstreamNormalClose.StreamID = sid\<rparr>))"

text \<open>The type switch of \<open>toDownstreamMetadata\<close>.\<close>

fun toDownstreamMetadata_oneof :: "uuid_lib \<Rightarrow> PbDownstreamMetadata_Metadata \<Rightarrow> conv_error + Metadata" where
  "toDownstreamMetadata_oneof L DownstreamMetadata_nil = Inl Malformed"
| "toDownstreamMetadata_oneof L (DownstreamMetadata_BaseTime v) =
    iface MD_BaseTime (bindE (deref NilPointer v) ToBaseTime)"
| "toDownstreamMetadata_oneof L (DownstreamMetadata_UpstreamOpen v) =
    iface MD_UpstreamOpen (bindE (deref NilPointer v) (ToUpstreamOpen L))"
| "toDownstreamMetadata_oneof L (DownstreamMetadata_UpstreamAbnormalClose v) =
    iface MD_UpstreamAbnormalClose (bindE (deref NilPointer v) (ToUpstreamAbnormalClose L))"
| "toDownstreamMetadata_oneof L (DownstreamMetadata_UpstreamResume v) =
    iface MD_UpstreamResume (bindE (deref NilPointer v) (ToUpstreamResume L))"
| "toDownstreamMetadata_oneof L (DownstreamMetadata_UpstreamNormalClose v) =
    iface MD_UpstreamNormalClose (bindE (deref NilPointer v) (ToUpstreamNormalClose L))"
| "toDownstreamMetadata_oneof L (DownstreamMetadata_DownstreamOpen v) =
    iface MD_DownstreamOpen (bindE (deref NilPointer v) (ToDownstreamOpen L))"
| "toDownstreamMetadata_oneof L (DownstreamMetadata_DownstreamAbnormalClose v) =
    iface MD_DownstreamAbnormalClose (bindE (deref NilPointer v) (ToDownstreamAbnormalClose L))"
| "toDownstreamMetadata_oneof L (DownstreamMetadata_DownstreamResume v) =
    iface MD_DownstreamResume (bindE (deref NilPointer v) (ToDownstreamResume L))"
| "toDownstreamMetadata_oneof L (DownstreamMetadata_DownstreamNormalClose v) =
    iface MD_DownstreamNormalClose (bindE (deref NilPointer v) (ToDownstreamNormalClose L))"

definition toDownstreamMetadata :: "uuid_lib \<Rightarrow> PbDownstreamMetadata \<Rightarrow> conv_error + Metadata" where
  "toDownstreamMetadata L v = toDownstreamMetadata_oneof L (PbDownstreamMetadata.Metadata v)"

definition toMetadataUpstream :: "PbUpstreamMetadata \<Rightarrow> conv_error + SendableMetadata" where
  "toMetadataUpstream v =
     (case PbUpstreamMetadata.Metadata v of
        UpstreamMetadata_BaseTime b \<Rightarrow> iface SM_BaseTime (bindE (deref NilPointer b) ToBaseTime)
      | UpstreamMetadata_nil \<Rightarrow> Inl Malformed)"


section \<open>One definition per case of ProtoToWire\<close>

definition ProtoToWire_ConnectRequest :: "uuid_lib \<Rightarrow> PbConnectRequest \<Rightarrow> conv_error + ConnectRequest" where [codec_simps]:
  "ProtoToWire_ConnectRequest L msg =
     bindE (toConnectRequestExtensionFields L (PbConnectRequest.ExtensionFields msg)) (\<lambda>ext.
     Inr (\<lparr>ConnectRequest.RequestID = PbConnectRequest.RequestId msg,
           ConnectRequest.ProtocolVersion = PbConnectRequest.ProtocolVersion msg,
           ConnectRequest.NodeID = PbConnectRequest.NodeId msg,
           ConnectRequest.PingInterval = dur_seconds (PbConnectRequest.PingInterval msg),
           ConnectRequest.PingTimeout = dur_seconds (PbConnectRequest.PingTimeout msg),
           ConnectRequest.ExtensionFields = ext\<rparr>))"

definition ProtoToWire_ConnectResponse :: "PbConnectResponse \<Rightarrow> conv_error + ConnectResponse" where [codec_simps]:
  "ProtoToWire_ConnectResponse msg =
     bindE (toResultCode (PbConnectResponse.ResultCode msg)) (\<lambda>rc.
     Inr (\<lparr>ConnectResponse.RequestID = PbConnectResponse.RequestId msg,
           ConnectResponse.ProtocolVersion = PbConnectResponse.ProtocolVersion msg,
           ConnectResponse.ResultCode = rc,
           ConnectResponse.ResultString = PbConnectResponse.ResultString msg,
           ConnectResponse.ExtensionFields = toConnectResponseExtensionFields (PbConnectResponse.ExtensionFields msg)\<rparr>))"

definition ProtoToWire_Disconnect :: "PbDisconnect \<Rightarrow> conv_error + Disconnect" where [codec_simps]:
  "ProtoToWire_Disconnect msg =
     bindE (toResultCode (PbDisconnect.ResultCode msg)) (\<lambda>rc.
     Inr (\<lparr>Disconnect.ResultCode = rc,
           Disconnect.ResultString = PbDisconnect.ResultString msg,
           Disconnect.ExtensionFields = toDisconnectExtensionFields (PbDisconnect.ExtensionFields msg)\<rparr>))"

definition ProtoToWire_UpstreamOpenRequest :: "PbUpstreamOpenRequest \<Rightarrow> conv_error + UpstreamOpenRequest" where [codec_simps]:
  "ProtoToWire_UpstreamOpenRequest msg =
     bindE (toQoS (PbUpstreamOpenRequest.Qos msg)) (\<lambda>qos.
     bindE (toDataIDs (PbUpstreamOpenRequest.DataIds msg)) (\<lambda>dataIds.
     Inr (\<lparr>UpstreamOpenRequest.RequestID = PbUpstreamOpenRequest.RequestId msg,
           UpstreamOpenRequest.SessionID = PbUpstreamOpenRequest.SessionId msg,
           UpstreamOpenRequest.AckInterval = dur_millis (PbUpstreamOpenRequest.AckInterval msg),
           UpstreamOpenRequest.ExpiryInterval = dur_seconds (PbUpstreamOpenRequest.ExpiryInterval msg),
           UpstreamOpenRequest.DataIDs = dataIds,
           UpstreamOpenRequest.QoS = qos,
           UpstreamOpenRequest.ExtensionFields = toUpstreamOpenRequestExtensionFields (PbUpstreamOpenRequest.ExtensionFields msg)\<rparr>)))"

definition ProtoToWire_UpstreamOpenResponse :: "uuid_lib \<Rightarrow> PbUpstreamOpenResponse \<Rightarrow> conv_error + UpstreamOpenResponse" where [codec_simps]:
  "ProtoToWire_UpstreamOpenResponse L msg =
     bindE (toResultCode (PbUpstreamOpenResponse.ResultCode msg)) (\<lambda>rc.
     bindE (toUUID L (PbUpstreamOpenResponse.AssignedStreamId msg)) (\<lambda>sid.
     bindE (toDataIDAliases (PbUpstreamOpenResponse.DataIdAliases msg)) (\<lambda>aliases.
     Inr (\<lparr>UpstreamOpenResponse.RequestID = PbUpstreamOpenResponse.RequestId msg,
           UpstreamOpenResponse.AssignedStreamID = sid,
           UpstreamOpenResponse.AssignedStreamIDAlias = PbUpstreamOpenResponse.AssignedStreamIdAlias msg,
           UpstreamOpenResponse.ResultCode = rc,
           UpstreamOpenResponse.ResultString = PbUpstreamOpenResponse.ResultString msg,
           UpstreamOpenResponse.ServerTime = time_Unix0 (PbUpstreamOpenResponse.ServerTime msg),
           UpstreamOpenResponse.DataIDAliases = aliases,
           UpstreamOpenResponse.ExtensionFields = toUpstreamOpenResponseExtensionFields (PbUpstreamOpenResponse.ExtensionFields msg),
           UpstreamOpenResponse.ResumeToken = PbUpstreamOpenResponse.ResumeToken msg\<rparr>))))"

definition ProtoToWire_UpstreamResumeRequest :: "uuid_lib \<Rightarrow> PbUpstreamResumeRequest \<Rightarrow> conv_error + UpstreamResumeRequest" where [codec_simps]:
  "ProtoToWire_UpstreamResumeRequest L msg =
     bindE (toUUID L (PbUpstreamResumeRequest.StreamId msg)) (\<lambda>sid.
     Inr (\<lparr>UpstreamResumeRequest.RequestID = PbUpstreamResumeRequest.RequestId msg,
           UpstreamResumeRequest.StreamID = sid,
           UpstreamResumeRequest.ExtensionFields = toUpstreamResumeRequestExtensionFields (PbUpstreamResumeRequest.ExtensionFields msg),
           UpstreamResumeRequest.ResumeToken = PbUpstreamResumeRequest.ResumeToken msg\<rparr>))"

definition ProtoToWire_UpstreamResumeResponse :: "PbUpstreamResumeResponse \<Rightarrow> conv_error + UpstreamResumeResponse" where [codec_simps]:
  "ProtoToWire_UpstreamResumeResponse msg =
     bindE (toResultCode (PbUpstreamResumeResponse.ResultCode msg)) (\<lambda>rc.
     Inr (\<lparr>UpstreamResumeResponse.RequestID = PbUpstreamResumeResponse.RequestId msg,
           UpstreamResumeResponse.AssignedStreamIDAlias = PbUpstreamResumeResponse.AssignedStreamIdAlias msg,
           UpstreamResumeResponse.ResultCode = rc,
           UpstreamResumeResponse.ResultString = PbUpstreamResumeResponse.ResultString msg,
           UpstreamResumeResponse.ExtensionFields = toUpstreamResumeResponseExtensionFields (PbUpstreamResumeResponse.ExtensionFields msg),
           UpstreamResumeResponse.ResumeToken = PbUpstreamResumeResponse.ResumeToken msg\<rparr>))"

definition ProtoToWire_UpstreamCloseRequest :: "uuid_lib \<Rightarrow> PbUpstreamCloseRequest \<Rightarrow> conv_error + UpstreamCloseRequest" where [codec_simps]:
  "ProtoToWire_UpstreamCloseRequest L msg =
     bindE (toUUID L (PbUpstreamCloseRequest.StreamId msg)) (\<lambda>sid.
     Inr (\<lparr>UpstreamCloseRequest.RequestID = PbUpstreamCloseRequest.RequestId msg,
           UpstreamCloseRequest.StreamID = sid,
           UpstreamCloseRequest.TotalDataPoints = PbUpstreamCloseRequest.TotalDataPoints msg,
           UpstreamCloseRequest.FinalSequenceNumber = PbUpstreamCloseRequest.FinalSequenceNumber msg,
           UpstreamCloseRequest.ExtensionFields = toUpstreamCloseRequestExtensionFields (PbUpstreamCloseRequest.ExtensionFields msg)\<rparr>))"

definition ProtoToWire_UpstreamCloseResponse :: "PbUpstreamCloseResponse \<Rightarrow> conv_error + UpstreamCloseResponse" where [codec_simps]:
  "ProtoToWire_UpstreamCloseResponse msg =
     bindE (toResultCode (PbUpstreamCloseResponse.ResultCode msg)) (\<lambda>rc.
     Inr (\<lparr>UpstreamCloseResponse.RequestID = PbUpstreamCloseResponse.RequestId msg,
           UpstreamCloseResponse.ResultCode = rc,
           UpstreamCloseResponse.ResultString = PbUpstreamCloseResponse.ResultString msg,
           UpstreamCloseResponse.ExtensionFields = toUpstreamCloseResponseExtensionFields (PbUpstreamCloseResponse.ExtensionFields msg)\<rparr>))"

definition ProtoToWire_DownstreamOpenRequest :: "PbDownstreamOpenRequest \<Rightarrow> conv_error + DownstreamOpenRequest" where [codec_simps]:
  "ProtoToWire_DownstreamOpenRequest msg =
     bindE (toQoS (PbDownstreamOpenRequest.Qos msg)) (\<lambda>qos.
     bindE (toDownstreamFilters (PbDownstreamOpenRequest.DownstreamFilters msg)) (\<lambda>filters.
     bindE (toDataIDAliases (PbDownstreamOpenRequest.DataIdAliases msg)) (\<lambda>aliases.
     Inr (\<lparr>DownstreamOpenRequest.RequestID = PbDownstreamOpenRequest.RequestId msg,
           DownstreamOpenRequest.DesiredStreamIDAlias = PbDownstreamOpenRequest.DesiredStreamIdAlias msg,
           DownstreamOpenRequest.DownstreamFilters = filters,
           DownstreamOpenRequest.ExpiryInterval = dur_seconds (PbDownstreamOpenRequest.ExpiryInterval msg),
           DownstreamOpenRequest.DataIDAliases = aliases,
           DownstreamOpenRequest.QoS = qos,
           DownstreamOpenRequest.ExtensionFields = toDownstreamOpenRequestExtensionFields (PbDownstreamOpenRequest.ExtensionFields msg),
           DownstreamOpenRequest.OmitEmptyChunk = PbDownstreamOpenRequest.OmitEmptyChunk msg\<rparr>))))"

definition ProtoToWire_DownstreamOpenResponse :: "uuid_lib \<Rightarrow> PbDownstreamOpenResponse \<Rightarrow> conv_error + DownstreamOpenResponse" where [codec_simps]:
  "ProtoToWire_DownstreamOpenResponse L msg =
     bindE (toResultCode (PbDownstreamOpenResponse.ResultCode msg)) (\<lambda>rc.
     bindE (toUUID L (PbDownstreamOpenResponse.AssignedStreamId msg)) (\<lambda>sid.
     Inr (\<lparr>DownstreamOpenResponse.RequestID = PbDownstreamOpenResponse.RequestId msg,
           DownstreamOpenResponse.AssignedStreamID = sid,
           DownstreamOpenResponse.ResultCode = rc,
           DownstreamOpenResponse.ResultString = PbDownstreamOpenResponse.ResultString msg,
           DownstreamOpenResponse.ServerTime = time_Unix0 (PbDownstreamOpenResponse.ServerTime msg),
           DownstreamOpenResponse.ExtensionFields = toDownstreamOpenResponseExtensionFields (PbDownstreamOpenResponse.ExtensionFields msg),
           DownstreamOpenResponse.ResumeToken = PbDownstreamOpenResponse.ResumeToken msg\<rparr>)))"

definition ProtoToWire_DownstreamResumeRequest :: "uuid_lib \<Rightarrow> PbDownstreamResumeRequest \<Rightarrow> conv_error + DownstreamResumeRequest" where [codec_simps]:
  "ProtoToWire_DownstreamResumeRequest L msg =
     bindE (toUUID L (PbDownstreamResumeRequest.StreamId msg)) (\<lambda>sid.
     Inr (\<lparr>DownstreamResumeRequest.RequestID = PbDownstreamResumeRequest.RequestId msg,
           DownstreamResumeRequest.StreamID = sid,
           DownstreamResumeRequest.DesiredStreamIDAlias = PbDownstreamResumeRequest.DesiredStreamIdAlias msg,
           DownstreamResumeRequest.ExtensionFields = toDownstreamResumeRequestExtensionFields (PbDownstreamResumeRequest.ExtensionFields msg),
           DownstreamResumeRequest.ResumeToken = PbDownstreamResumeRequest.ResumeToken msg\<rparr>))"

definition ProtoToWire_DownstreamResumeResponse :: "PbDownstreamResumeResponse \<Rightarrow> conv_error + DownstreamResumeResponse" where [codec_simps]:
  "ProtoToWire_DownstreamResumeResponse msg =
     bindE (toResultCode (PbDownstreamResumeResponse.ResultCode msg)) (\<lambda>rc.
     Inr (\<lparr>DownstreamResumeResponse.RequestID = PbDownstreamResumeResponse.RequestId msg,
           DownstreamResumeResponse.ResultCode = rc,
           DownstreamResumeResponse.ResultString = PbDownstreamResumeResponse.ResultString msg,
           DownstreamResumeResponse.ExtensionFields = toDownstreamResumeResponseExtensionFields (PbDownstreamResumeResponse.ExtensionFields msg),
           DownstreamResumeResponse.ResumeToken = PbDownstreamResumeResponse.ResumeToken msg\<rparr>))"

definition ProtoToWire_DownstreamCloseRequest :: "uuid_lib \<Rightarrow> PbDownstreamCloseRequest \<Rightarrow> conv_error + DownstreamCloseRequest" where [codec_simps]:
  "ProtoToWire_DownstreamCloseRequest L msg =
     bindE (toUUID L (PbDownstreamCloseRequest.StreamId msg)) (\<lambda>sid.
     Inr (\<lparr>DownstreamCloseRequest.RequestID = PbDownstreamCloseRequest.RequestId msg,
           DownstreamCloseRequest.StreamID = sid,
           DownstreamCloseRequest.ExtensionFields = toDownstreamCloseRequestExtensionFields (PbDownstreamCloseRequest.ExtensionFields msg)\<rparr>))"

definition ProtoToWire_DownstreamCloseResponse :: "PbDownstreamCloseResponse \<Rightarrow> conv_error + DownstreamCloseResponse" where [codec_simps]:
  "ProtoToWire_DownstreamCloseResponse msg =
     bindE (toResultCode (PbDownstreamCloseResponse.ResultCode msg)) (\<lambda>rc.
     Inr (\<lparr>DownstreamCloseResponse.RequestID = PbDownstreamCloseResponse.RequestId msg,
           DownstreamCloseResponse.ResultCode = rc,
           DownstreamCloseResponse.ResultString = PbDownstreamCloseResponse.ResultString msg,
           DownstreamCloseResponse.ExtensionFields = toDownstreamCloseResponseExtensionFields (PbDownstreamCloseResponse.ExtensionFields msg)\<rparr>))"

definition ProtoToWire_UpstreamCall :: "PbUpstreamCall \<Rightarrow> conv_error + UpstreamCall" where [codec_simps]:
  "ProtoToWire_UpstreamCall msg =
     Inr (\<lparr>UpstreamCall.CallID = PbUpstreamCall.CallId msg,
           UpstreamCall.RequestCallID = PbUpstreamCall.RequestCallId msg,
           UpstreamCall.DestinationNodeID = PbUpstreamCall.DestinationNodeId msg,
           UpstreamCall.Name = PbUpstreamCall.Name msg,
           UpstreamCall.Type = PbUpstreamCall.Type msg,
           UpstreamCall.Payload = PbUpstreamCall.Payload msg,
           UpstreamCall.ExtensionFields = toUpstreamCallExtensionFields (PbUpstreamCall.ExtensionFields msg)\<rparr>)"

definition ProtoToWire_UpstreamCallAck :: "PbUpstreamCallAck \<Rightarrow> conv_error + UpstreamCallAck" where [codec_simps]:
  "ProtoToWire_UpstreamCallAck msg =
     bindE (toResultCode (PbUpstreamCallAck.ResultCode msg)) (\<lambda>rc.
     Inr (\<lparr>UpstreamCallAck.CallID = PbUpstreamCallAck.CallId msg,
           UpstreamCallAck.ResultCode = rc,
           UpstreamCallAck.ResultString = PbUpstreamCallAck.ResultString msg,
           UpstreamCallAck.ExtensionFields = toUpstreamCallAckExtensionFields (PbUpstreamCallAck.ExtensionFields msg)\<rparr>))"

definition ProtoToWire_DownstreamCall :: "PbDownstreamCall \<Rightarrow> conv_error + DownstreamCall" where [codec_simps]:
  "ProtoToWire_DownstreamCall msg =
     Inr (\<lparr>DownstreamCall.CallID = PbDownstreamCall.CallId msg,
           DownstreamCall.RequestCallID = PbDownstreamCall.RequestCallId msg,
           DownstreamCall.SourceNodeID = PbDownstreamCall.SourceNodeId msg,
           DownstreamCall.Name = PbDownstreamCall.Name msg,
           DownstreamCall.Type = PbDownstreamCall.Type msg,
           DownstreamCall.Payload = PbDownstreamCall.Payload msg,
           DownstreamCall.ExtensionFields = toDownstreamCallExtensionFields (PbDownstreamCall.ExtensionFields msg)\<rparr>)"

definition ProtoToWire_Ping :: "PbPing \<Rightarrow> conv_error + Ping" where [codec_simps]:
  "ProtoToWire_Ping msg =
     Inr (\<lparr>Ping.RequestID = PbPing.RequestId msg,
           Ping.ExtensionFields = toPingExtensionFields (PbPing.ExtensionFields msg)\<rparr>)"

definition ProtoToWire_Pong :: "PbPong \<Rightarrow> conv_error + Pong" where [codec_simps]:
  "ProtoToWire_Pong msg =
     Inr (\<lparr>Pong.RequestID = PbPong.RequestId msg,
           Pong.ExtensionFields = toPongExtensionFields (PbPong.ExtensionFields msg)\<rparr>)"

definition ProtoToWire_UpstreamChunk :: "PbUpstreamChunk \<Rightarrow> conv_error + UpstreamChunk" where [codec_simps]:
  "ProtoToWire_UpstreamChunk msg =
     bindE (toStreamChunk (PbUpstreamChunk.StreamChunk msg)) (\<lambda>chunk.
     bindE (toDataIDs (PbUpstreamChunk.DataIds msg)) (\<lambda>dataIds.
     Inr (\<lparr>UpstreamChunk.StreamIDAlias = PbUpstreamChunk.StreamIdAlias msg,
           UpstreamChunk.DataIDs = dataIds,
           UpstreamChunk.StreamChunk = chunk,
           UpstreamChunk.ExtensionFields = toUpstreamChunkExtensionFields (PbUpstreamChunk.ExtensionFields msg)\<rparr>)))"

definition ProtoToWire_UpstreamChunkAck :: "PbUpstreamChunkAck \<Rightarrow> conv_error + UpstreamChunkAck" where [codec_simps]:
  "ProtoToWire_UpstreamChunkAck msg =
     bindE (toUpstreamDataPointResults (PbUpstreamChunkAck.Results msg)) (\<lambda>dprs.
     bindE (toDataIDAliases (PbUpstreamChunkAck.DataIdAliases msg)) (\<lambda>aliases.
     Inr (\<lparr>UpstreamChunkAck.StreamIDAlias = PbUpstreamChunkAck.StreamIdAlias msg,
           UpstreamChunkAck.Results = dprs,
           UpstreamChunkAck.DataIDAliases = aliases,
           UpstreamChunkAck.ExtensionFields = toUpstreamChunkAckExtensionFields (PbUpstreamChunkAck.ExtensionFields msg)\<rparr>)))"

definition ProtoToWire_DownstreamChunk :: "uuid_lib \<Rightarrow> PbDownstreamChunk \<Rightarrow> conv_error + DownstreamChunk" where [codec_simps]:
  "ProtoToWire_DownstreamChunk L msg =
     bindE (toUpstreamOrAlias L msg) (\<lambda>upstreamOrAlias.
     bindE (toStreamChunk (PbDownstreamChunk.StreamChunk msg)) (\<lambda>chunk.
     Inr (\<lparr>DownstreamChunk.StreamIDAlias = PbDownstreamChunk.StreamIdAlias msg,
           DownstreamChunk.UpstreamOrAlias = upstreamOrAlias,
           DownstreamChunk.StreamChunk = chunk,
           DownstreamChunk.ExtensionFields = toDownstreamChunkExtensionFields (PbDownstreamChunk.ExtensionFields msg),
           DownstreamChunk.DownstreamFilterReferences = toDownstreamFilterReferencesWire (PbDownstreamChunk.DownstreamFilterReferences msg)\<rparr>)))"

definition ProtoToWire_DownstreamChunkAck :: "uuid_lib \<Rightarrow> PbDownstreamChunkAck \<Rightarrow> conv_error + DownstreamChunkAck" where [codec_simps]:
  "ProtoToWire_DownstreamChunkAck L msg =
     bindE (toDownstreamDataPointResults L (PbDownstreamChunkAck.Results msg)) (\<lambda>dprs.
     bindE (toUpstreamAliases L (PbDownstreamChunkAck.UpstreamAliases msg)) (\<lambda>upstreamAliases.
     bindE (toDataIDAliases (PbDownstreamChunkAck.DataIdAliases msg)) (\<lambda>aliases.
     Inr (\<lparr>DownstreamChunkAck.StreamIDAlias = PbDownstreamChunkAck.StreamIdAlias msg,
           DownstreamChunkAck.AckID = PbDownstreamChunkAck.AckId msg,
           DownstreamChunkAck.Results = dprs,
           DownstreamChunkAck.UpstreamAliases = upstreamAliases,
           DownstreamChunkAck.DataIDAliases = aliases,
           DownstreamChunkAck.ExtensionFields = toDownstreamChunkAckExtensionFields (PbDownstreamChunkAck.ExtensionFields msg)\<rparr>))))"

definition ProtoToWire_DownstreamChunkAckComplete :: "PbDownstreamChunkAckComplete \<Rightarrow> conv_error + DownstreamChunkAckComplete" where [codec_simps]:
  "ProtoToWire_DownstreamChunkAckComplete msg =
     bindE (toResultCode (PbDownstreamChunkAckComplete.ResultCode msg)) (\<lambda>rc.
     Inr (\<lparr>DownstreamChunkAckComplete.StreamIDAlias = PbDownstreamChunkAckComplete.StreamIdAlias msg,
           DownstreamChunkAckComplete.AckID = PbDownstreamChunkAckComplete.AckId msg,
           DownstreamChunkAckComplete.ResultCode = rc,
           DownstreamChunkAckComplete.ResultString = PbDownstreamChunkAckComplete.ResultString msg,
           DownstreamChunkAckComplete.ExtensionFields = toDownstreamChunkAckCompleteExtensionFields (PbDownstreamChunkAckComplete.ExtensionFields msg)\<rparr>))"

definition ProtoToWire_UpstreamMetadata :: "PbUpstreamMetadata \<Rightarrow> conv_error + UpstreamMetadata" where [codec_simps]:
  "ProtoToWire_UpstreamMetadata msg =
     bindE (toMetadataUpstream msg) (\<lambda>metadata.
     Inr (\<lparr>UpstreamMetadata.RequestID = PbUpstreamMetadata.RequestId msg,
           UpstreamMetadata.Metadata = metadata,
           UpstreamMetadata.ExtensionFields = toUpstreamMetadataExtensionFields (PbUpstreamMetadata.ExtensionFields msg)\<rparr>))"

definition ProtoToWire_UpstreamMetadataAck :: "PbUpstreamMetadataAck \<Rightarrow> conv_error + UpstreamMetadataAck" where [codec_simps]:
  "ProtoToWire_UpstreamMetadataAck msg =
     bindE (toResultCode (PbUpstreamMetadataAck.ResultCode msg)) (\<lambda>rc.
     Inr (\<lparr>UpstreamMetadataAck.RequestID = PbUpstreamMetadataAck.RequestId msg,
           UpstreamMetadataAck.ResultCode = rc,
           UpstreamMetadataAck.ResultString = PbUpstreamMetadataAck.ResultString msg,
           UpstreamMetadataAck.ExtensionFields = toUpstreamMetadataAckExtensionFields (PbUpstreamMetadataAck.ExtensionFields msg)\<rparr>))"

definition ProtoToWire_DownstreamMetadata :: "uuid_lib \<Rightarrow> PbDownstreamMetadata \<Rightarrow> conv_error + DownstreamMetadata" where [codec_simps]:
  "ProtoToWire_DownstreamMetadata L msg =
     bindE (toDownstreamMetadata L msg) (\<lambda>metadata.
     Inr (\<lparr>DownstreamMetadata.RequestID = PbDownstreamMetadata.RequestId msg,
           DownstreamMetadata.StreamIDAlias = PbDownstreamMetadata.StreamIdAlias msg,
           DownstreamMetadata.SourceNodeID = PbDownstreamMetadata.SourceNodeId msg,
           DownstreamMetadata.Metadata = metadata,
           DownstreamMetadata.ExtensionFields = toDownstreamMetadataExtensionFields (PbDownstreamMetadata.ExtensionFields msg)\<rparr>))"

definition ProtoToWire_DownstreamMetadataAck :: "PbDownstreamMetadataAck \<Rightarrow> conv_error + DownstreamMetadataAck" where [codec_simps]:
  "ProtoToWire_DownstreamMetadataAck msg =
     bindE (toResultCode (PbDownstreamMetadataAck.ResultCode msg)) (\<lambda>rc.
     Inr (\<lparr>DownstreamMetadataAck.RequestID = PbDownstreamMetadataAck.RequestId msg,
           DownstreamMetadataAck.ResultCode = rc,
           DownstreamMetadataAck.ResultString = PbDownstreamMetadataAck.ResultString msg,
           DownstreamMetadataAck.ExtensionFields = toDownstreamMetadataAckExtensionFields (PbDownstreamMetadataAck.ExtensionFields msg)\<rparr>))"

fun ProtoToWire :: "uuid_lib \<Rightarrow> PbMessage \<Rightarrow> conv_error + Message" where
  "ProtoToWire L Message_nil = Inl Malformed"
| "ProtoToWire L (Message_ConnectRequest msg) =
    iface M_ConnectRequest (bindE (deref NilPointer msg) (ProtoToWire_ConnectRequest L))"
| "ProtoToWire L (Message_ConnectResponse msg) =
    iface M_ConnectResponse (bindE (deref NilPointer msg) ProtoToWire_ConnectResponse)"
| "ProtoToWire L (Message_Disconnect msg) =
    iface M_Disconnect (bindE (deref NilPointer msg) ProtoToWire_Disconnect)"
| "ProtoToWire L (Message_UpstreamOpenRequest msg) =
    iface M_UpstreamOpenRequest (bindE (deref NilPointer msg) ProtoToWire_UpstreamOpenRequest)"
| "ProtoToWire L (Message_UpstreamOpenResponse msg) =
    iface M_UpstreamOpenResponse (bindE (deref NilPointer msg) (ProtoToWire_UpstreamOpenResponse L))"
| "ProtoToWire L (Message_UpstreamResumeRequest msg) =
    iface M_UpstreamResumeRequest (bindE (deref NilPointer msg) (ProtoToWire_UpstreamResumeRequest L))"
| "ProtoToWire L (Message_UpstreamResumeResponse msg) =
    iface M_UpstreamResumeResponse (bindE (deref NilPointer msg) ProtoToWire_UpstreamResumeResponse)"
| "ProtoToWire L (Message_UpstreamCloseRequest msg) =
    iface M_UpstreamCloseRequest (bindE (deref NilPointer msg) (ProtoToWire_UpstreamCloseRequest L))"
| "ProtoToWire L (Message_UpstreamCloseResponse msg) =
    iface M_UpstreamCloseResponse (bindE (deref NilPointer msg) ProtoToWire_UpstreamCloseResponse)"
| "ProtoToWire L (Message_DownstreamOpenRequest msg) =
    iface M_DownstreamOpenRequest (bindE (deref NilPointer msg) ProtoToWire_DownstreamOpenRequest)"
| "ProtoToWire L (Message_DownstreamOpenResponse msg) =
    iface M_DownstreamOpenResponse (bindE (deref NilPointer msg) (ProtoToWire_DownstreamOpenResponse L))"
| "ProtoToWire L (Message_DownstreamResumeRequest msg) =
    iface M_DownstreamResumeRequest (bindE (deref NilPointer msg) (ProtoToWire_DownstreamResumeRequest L))"
| "ProtoToWire L (Message_DownstreamResumeResponse msg) =
    iface M_DownstreamResumeResponse (bindE (deref NilPointer msg) ProtoToWire_DownstreamResumeResponse)"
| "ProtoToWire L (Message_DownstreamCloseRequest msg) =
    iface M_DownstreamCloseRequest (bindE (deref NilPointer msg) (ProtoToWire_DownstreamCloseRequest L))"
| "ProtoToWire L (Message_DownstreamCloseResponse msg) =
    iface M_DownstreamCloseResponse (bindE (deref NilPointer msg) ProtoToWire_DownstreamCloseResponse)"
| "ProtoToWire L (Message_UpstreamCall msg) =
    iface M_UpstreamCall (bindE (deref NilPointer msg) ProtoToWire_UpstreamCall)"
| "ProtoToWire L (Message_UpstreamCallAck msg) =
    iface M_UpstreamCallAck (bindE (deref NilPointer msg) ProtoToWire_UpstreamCallAck)"
| "ProtoToWire L (Message_DownstreamCall msg) =
    iface M_DownstreamCall (bindE (deref NilPointer msg) ProtoToWire_DownstreamCall)"
| "ProtoToWire L (Message_Ping msg) =
    iface M_Ping (bindE (deref NilPointer msg) ProtoToWire_Ping)"
| "ProtoToWire L (Message_Pong msg) =
    iface M_Pong (bindE (deref NilPointer msg) ProtoToWire_Pong)"
| "ProtoToWire L (Message_UpstreamChunk msg) =
    iface M_UpstreamChunk (bindE (deref NilPointer msg) ProtoToWire_UpstreamChunk)"
| "ProtoToWire L (Message_UpstreamChunkAck msg) =
    iface M_UpstreamChunkAck (bindE (deref NilPointer msg) ProtoToWire_UpstreamChunkAck)"
| "ProtoToWire L (Message_DownstreamChunk msg) =
    iface M_DownstreamChunk (bindE (deref NilPointer msg) (ProtoToWire_DownstreamChunk L))"
| "ProtoToWire L (Message_DownstreamChunkAck msg) =
    iface M_DownstreamChunkAck (bindE (deref NilPointer msg) (ProtoToWire_DownstreamChunkAck L))"
| "ProtoToWire L (Message_DownstreamChunkAckComplete msg) =
    iface M_DownstreamChunkAckComplete (bindE (deref NilPointer msg) ProtoToWire_DownstreamChunkAckComplete)"
| "ProtoToWire L (Message_UpstreamMetadata msg) =
    iface M_UpstreamMetadata (bindE (deref NilPointer msg) ProtoToWire_UpstreamMetadata)"
| "ProtoToWire L (Message_UpstreamMetadataAck msg) =
    iface M_UpstreamMetadataAck (bindE (deref NilPointer msg) ProtoToWire_UpstreamMetadataAck)"
| "ProtoToWire L (Message_DownstreamMetadata msg) =
    iface M_DownstreamMetadata (bindE (deref NilPointer msg) (ProtoToWire_DownstreamMetadata L))"
| "ProtoToWire L (Message_DownstreamMetadataAck msg) =
    iface M_DownstreamMetadataAck (bindE (deref NilPointer msg) ProtoToWire_DownstreamMetadataAck)"

end
