(* ===== verification/Codec_Elems.thy ===== *)
theory Codec_Elems
  imports To_Proto From_Proto
begin

text \<open>
  What an encoder and its decoder promise each other, as two locales, and the parts of a message
  (data IDs, filters, data points, results, chunks) shown to keep the promise.
\<close>

section \<open>The contract of an encoder and its decoder\<close>

text \<open>
  \<open>enc\<close> writes a protobuf value and \<open>dec\<close> reads it back as \<open>norm x\<close>: what the format can
  carry of \<open>x\<close>. \<open>good x\<close> says that the decoder accepts what the encoder wrote.
\<close>

locale codec =
  fixes enc :: "'a \<Rightarrow> conv_error + 'b"
    and dec :: "'b \<Rightarrow> conv_error + 'a"
    and good :: "'a \<Rightarrow> bool"
    and norm :: "'a \<Rightarrow> 'a"
  assumes decodes: "enc x = Inr y \<Longrightarrow> good x \<Longrightarrow> dec y = Inr (norm x)"
begin

lemma list_codec: "codec (traverse enc) (traverse dec) (list_all good) (map norm)"
proof
  show "traverse enc xs = Inr ys \<Longrightarrow> list_all good xs \<Longrightarrow> traverse dec ys = Inr (map norm xs)"
    for xs ys
  proof (induction xs arbitrary: ys)
    case (Cons x xs)
    then show ?case
      by (auto simp: go_simps dest: decodes)
  qed simp
qed

lemma ptr_codec: "codec (ptr enc) (ptr dec) (pred_option good) (map_option norm)"
  by unfold_locales (auto simp: go_simps dest: decodes)

lemma entry_codec: "codec (entry enc) (entry dec) (\<lambda>kv. good (snd kv)) (map_prod id norm)"
  by unfold_locales (auto simp: go_simps dest: decodes)

end

text \<open>
  A decoder is stable when everything it returns is already in normal form and can be encoded:
  the messages a client receives can be sent on and arrive unchanged.
\<close>

locale stable_codec = codec +
  fixes ok :: "'b \<Rightarrow> bool"
  assumes stable: "dec y = Inr x \<Longrightarrow> ok y \<Longrightarrow> good x \<and> norm x = x \<and> (\<exists>y'. enc x = Inr y')"
begin

lemma reencode: "dec y = Inr x \<Longrightarrow> ok y \<Longrightarrow> \<exists>y'. enc x = Inr y' \<and> dec y' = Inr x"
  using stable decodes by fastforce

lemma list_stable:
  "stable_codec (traverse enc) (traverse dec) (list_all good) (map norm) (list_all ok)"
proof -
  have "traverse dec ys = Inr xs \<Longrightarrow> list_all ok ys \<Longrightarrow>
      list_all good xs \<and> map norm xs = xs \<and> (\<exists>ys'. traverse enc xs = Inr ys')" for ys xs
  proof (induction ys arbitrary: xs)
    case (Cons y ys)
    then obtain x xs' where "xs = x # xs'" "dec y = Inr x" "traverse dec ys = Inr xs'"
      by (auto simp: go_simps)
    with Cons stable [of y x] show ?case by fastforce
  qed simp
  then show ?thesis
    by (intro stable_codec.intro list_codec stable_codec_axioms.intro)
qed

lemma ptr_stable:
  "stable_codec (ptr enc) (ptr dec) (pred_option good) (map_option norm) (pred_option ok)"
proof -
  have "ptr dec q = Inr p \<Longrightarrow> pred_option ok q \<Longrightarrow>
      pred_option good p \<and> map_option norm p = p \<and> (\<exists>q'. ptr enc p = Inr q')" for q p
    using stable by (fastforce simp: go_simps ptr_def)
  then show ?thesis
    by (intro stable_codec.intro ptr_codec stable_codec_axioms.intro)
qed

lemma entry_stable:
  "stable_codec (entry enc) (entry dec) (\<lambda>kv. good (snd kv)) (map_prod id norm) (\<lambda>kv. ok (snd kv))"
proof -
  have "entry dec kw = Inr kv \<Longrightarrow> ok (snd kw) \<Longrightarrow>
      good (snd kv) \<and> map_prod id norm kv = kv \<and> (\<exists>kw'. entry enc kv = Inr kw')" for kw :: "'k \<times> 'b" and kv
    using stable by (cases kw) (fastforce simp: go_simps)
  then show ?thesis
    by (intro stable_codec.intro entry_codec stable_codec_axioms.intro)
qed

end

abbreviation always :: "'a \<Rightarrow> bool" where "always \<equiv> \<lambda>_. True"

text \<open>A codec that loses nothing keeps losing nothing under lists, pointers and map entries.\<close>

lemma lossless_simps [simp]:
  "list_all always = always" "pred_option always = always" "map id = id" "map_option id = id"
  "map_prod id id = id"
  by (auto simp: fun_eq_iff list_all_def pred_option_def option.map_id prod.map_id)

section \<open>Result codes and QoS\<close>

definition norm_rc :: "ResultCode \<Rightarrow> ResultCode" where
  "norm_rc c = (if c = ResultCodeNormalClosure then ResultCodeSucceeded else c)"

lemma toResultCodeProto_Inr:
  "toResultCodeProto c = Inr p \<Longrightarrow> toResultCode p = Inr (norm_rc c)"
  by (cases c) (auto simp: norm_rc_def)

lemma toResultCode_Inr:
  "toResultCode p = Inr c \<Longrightarrow> norm_rc c = c \<and> toResultCodeProto c = Inr p"
  by (cases p) (auto simp: norm_rc_def)

interpretation rc: stable_codec toResultCodeProto toResultCode always norm_rc always
  by unfold_locales (auto dest: toResultCodeProto_Inr toResultCode_Inr)

lemma toQoSProto_Inr: "toQoSProto c = Inr p \<longleftrightarrow> toQoS p = Inr c"
  by (cases c; cases p) auto

interpretation qos: stable_codec toQoSProto toQoS always id always
  by unfold_locales (auto simp: toQoSProto_Inr)

section \<open>Parts of the messages\<close>

interpretation data_id: stable_codec toDataIDProto toDataID always id always
  by unfold_locales (auto simp: codec_simps)

interpretation data_filter: stable_codec toDataFilterProto toDataFilter always id always
  by unfold_locales (auto simp: codec_simps)

interpretation data_point: stable_codec toDataPointProto toDataPoint always id always
  by unfold_locales (auto simp: codec_simps)

interpretation data_ids: stable_codec toDataIDsProto toDataIDs always id always
  using stable_codec.list_stable [OF data_id.ptr_stable] by (simp add: toDataIDsProto_def toDataIDs_def)

interpretation data_id_aliases: stable_codec toDataIDAliasesProto toDataIDAliases always id always
  using stable_codec.list_stable [OF stable_codec.entry_stable [OF data_id.ptr_stable]]
  by (simp add: toDataIDAliasesProto_def toDataIDAliases_def)

interpretation data_filters: stable_codec toDataFiltersProto toDataFilters always id always
  using stable_codec.list_stable [OF data_filter.ptr_stable]
  by (simp add: toDataFiltersProto_def toDataFilters_def)

interpretation data_points: stable_codec toDataPointsProto toDataPoints always id always
  using stable_codec.list_stable [OF data_point.ptr_stable]
  by (simp add: toDataPointsProto_def toDataPoints_def)

interpretation downstream_filter: stable_codec toDownstreamFilterProto toDownstreamFilter always id always
  using data_filters.decodes data_filters.stable
  by unfold_locales (fastforce simp: codec_simps go_simps)+

interpretation downstream_filters: stable_codec toDownstreamFiltersProto toDownstreamFilters always id always
  using stable_codec.list_stable [OF downstream_filter.ptr_stable]
  by (simp add: toDownstreamFiltersProto_def toDownstreamFilters_def)

section \<open>Chunks\<close>

text \<open>A \<open>*DataIDAlias\<close> comes back as a \<open>DataIDAlias\<close>; a \<open>nil\<close> one is encoded and then refused.\<close>

fun norm_doa :: "DataIDOrAlias \<Rightarrow> DataIDOrAlias" where
  "norm_doa (DOA_AliasPtr (Some a)) = DOA_Alias a"
| "norm_doa d = d"

interpretation doa: stable_codec toDataIDOrAliasProto toDataIDOrAlias "\<lambda>d. d \<noteq> DOA_nil" norm_doa always
proof
  show "toDataIDOrAlias y = Inr (norm_doa x)" if "toDataIDOrAliasProto x = Inr y" "x \<noteq> DOA_nil" for x y
    using that
    by (cases x) (auto simp: toDataIDOrAliasProto_def toDataIDOrAlias_def go_simps codec_simps)
  show "x \<noteq> DOA_nil \<and> norm_doa x = x \<and> (\<exists>y'. toDataIDOrAliasProto x = Inr y')"
    if "toDataIDOrAlias y = Inr x" for x y
    using that
    by (cases y) (auto simp: toDataIDOrAliasProto_def toDataIDOrAlias_def ptr_def go_simps codec_simps)
qed

definition good_group :: "DataPointGroup option \<Rightarrow> bool" where
  "good_group p \<longleftrightarrow> (\<exists>g. p = Some g \<and> DataPointGroup.DataIDOrAlias g \<noteq> DOA_nil)"

definition norm_group :: "DataPointGroup \<Rightarrow> DataPointGroup" where
  "norm_group g = g\<lparr>DataPointGroup.DataIDOrAlias := norm_doa (DataPointGroup.DataIDOrAlias g)\<rparr>"

text \<open>The decoder's loop body over the pointers of a chunk's groups.\<close>

interpretation group: stable_codec
  "\<lambda>v. bindE (toDataPointGroupProto v) (\<lambda>dpg. Inr (Some dpg))"
  "\<lambda>v. bindE (toDataPointGroup v) (\<lambda>dpg. Inr (Some dpg))"
  good_group "map_option norm_group" "\<lambda>p. p \<noteq> None"
proof
  show "bindE (toDataPointGroup y) (\<lambda>dpg. Inr (Some dpg)) = Inr (map_option norm_group x)"
    if "bindE (toDataPointGroupProto x) (\<lambda>dpg. Inr (Some dpg)) = Inr y" "good_group x" for x y
    using that doa.decodes data_points.decodes
    by (fastforce simp: good_group_def norm_group_def toDataPointGroupProto_def toDataPointGroup_def go_simps)
  show "good_group x \<and> map_option norm_group x = x \<and>
      (\<exists>y'. bindE (toDataPointGroupProto x) (\<lambda>dpg. Inr (Some dpg)) = Inr y')"
    if dec: "bindE (toDataPointGroup y) (\<lambda>dpg. Inr (Some dpg)) = Inr x" and "y \<noteq> None" for x y
  proof -
    from that obtain w d ps where y: "y = Some w"
      and d: "toDataIDOrAlias (PbDataPointGroup.DataIdOrAlias w) = Inr d"
      and ps: "toDataPoints (PbDataPointGroup.DataPoints w) = Inr ps"
      and x: "x = Some \<lparr>DataPointGroup.DataIDOrAlias = d, DataPointGroup.DataPoints = ps\<rparr>"
      by (auto simp: toDataPointGroup_def go_simps)
    from doa.stable [OF d] data_points.stable [OF ps] show ?thesis
      by (auto simp: x good_group_def norm_group_def toDataPointGroupProto_def go_simps)
  qed
qed

interpretation groups: stable_codec toDataPointGroupsProto toDataPointGroups
  "list_all good_group" "map (map_option norm_group)" "list_all (\<lambda>p. p \<noteq> None)"
  using group.list_stable by (simp add: toDataPointGroupsProto_def toDataPointGroups_def)

text \<open>A \<open>nil\<close> chunk is sent as the empty chunk.\<close>

definition good_chunk :: "StreamChunk option \<Rightarrow> bool" where
  "good_chunk p \<longleftrightarrow> (case p of None \<Rightarrow> True | Some c \<Rightarrow> list_all good_group (StreamChunk.DataPointGroups c))"

definition norm_chunk :: "StreamChunk option \<Rightarrow> StreamChunk option" where
  "norm_chunk p =
     (case p of
        None \<Rightarrow> Some \<lparr>StreamChunk.SequenceNumber = 0, StreamChunk.DataPointGroups = []\<rparr>
      | Some c \<Rightarrow> Some (c\<lparr>StreamChunk.DataPointGroups :=
          map (map_option norm_group) (StreamChunk.DataPointGroups c)\<rparr>))"

definition ok_chunk :: "PbStreamChunk option \<Rightarrow> bool" where
  "ok_chunk p \<longleftrightarrow>
     (case p of None \<Rightarrow> True | Some c \<Rightarrow> list_all (\<lambda>g. g \<noteq> None) (PbStreamChunk.DataPointGroups c))"

lemma empty_groups [simp]: "toDataPointGroups [] = Inr []" "toDataPointGroupsProto [] = Inr []"
  by (simp_all add: toDataPointGroups_def toDataPointGroupsProto_def)

interpretation chunk: stable_codec toStreamChunkProto toStreamChunk good_chunk norm_chunk ok_chunk
proof
  show "toStreamChunk y = Inr (norm_chunk x)" if "toStreamChunkProto x = Inr y" "good_chunk x" for x y
    using that groups.decodes
    by (fastforce simp: good_chunk_def norm_chunk_def toStreamChunkProto_def toStreamChunk_def go_simps
        split: option.splits)
  show "good_chunk x \<and> norm_chunk x = x \<and> (\<exists>y'. toStreamChunkProto x = Inr y')"
    if "toStreamChunk y = Inr x" "ok_chunk y" for x y
  proof (cases y)
    case None
    with that show ?thesis
      by (auto simp: toStreamChunk_def toStreamChunkProto_def good_chunk_def norm_chunk_def go_simps)
  next
    case (Some w)
    with that obtain gs where gs: "toDataPointGroups (PbStreamChunk.DataPointGroups w) = Inr gs"
      and x: "x = Some \<lparr>StreamChunk.SequenceNumber = PbStreamChunk.SequenceNumber w, StreamChunk.DataPointGroups = gs\<rparr>"
      by (auto simp: toStreamChunk_def go_simps)
    from groups.stable [OF gs] that(2) Some show ?thesis
      by (auto simp: x ok_chunk_def good_chunk_def norm_chunk_def toStreamChunkProto_def go_simps)
  qed
qed

text \<open>\<open>nil\<close> filter references are dropped; of a decoded message none is \<open>nil\<close>.\<close>

definition norm_refs ::
    "DownstreamFilterReference option list list option \<Rightarrow> DownstreamFilterReference option list list option" where
  "norm_refs = map_option (map (\<lambda>group. map Some (somes group)))"

lemma toDownstreamFilterReferencesWire_Proto:
  "toDownstreamFilterReferencesWire (toDownstreamFilterReferencesProto gs) = norm_refs gs"
  by (cases gs)
    (auto simp: toDownstreamFilterReferencesWire_def toDownstreamFilterReferencesProto_def norm_refs_def)

lemma norm_refs_Wire [simp]:
  "norm_refs (toDownstreamFilterReferencesWire gs) = toDownstreamFilterReferencesWire gs"
  by (cases gs) (auto simp: toDownstreamFilterReferencesWire_def norm_refs_def)

section \<open>Parts with a UUID\<close>

lemma be_bytes16_inject [simp]: "be_bytes 16 u = be_bytes 16 v \<longleftrightarrow> u = (v :: uuid)"
  by (metis be_roundtrip128)

lemma toUUID_Inr: "uuid_lib_ok L \<Longrightarrow> toUUID L bs = Inr u \<longleftrightarrow> bs = be_bytes 16 u"
  by (auto simp: toUUID_def uuid_lib_ok_def split: option.splits)

lemma mustUUID_Inr: "uuid_lib_ok L \<Longrightarrow> mustUUID L bs = Inr u \<longleftrightarrow> bs = be_bytes 16 u"
  by (auto simp: mustUUID_def uuid_lib_ok_def split: option.splits)

lemma toUUID_be_bytes [simp]: "uuid_lib_ok L \<Longrightarrow> toUUID L (be_bytes 16 u) = Inr u"
  by (simp add: toUUID_Inr)

lemma mustUUID_be_bytes [simp]: "uuid_lib_ok L \<Longrightarrow> mustUUID L (be_bytes 16 u) = Inr u"
  by (simp add: mustUUID_Inr)

definition norm_UpstreamChunkResult :: "UpstreamChunkResult \<Rightarrow> UpstreamChunkResult" where
  "norm_UpstreamChunkResult r =
     r\<lparr>UpstreamChunkResult.ResultCode := norm_rc (UpstreamChunkResult.ResultCode r)\<rparr>"

definition norm_DownstreamChunkResult :: "DownstreamChunkResult \<Rightarrow> DownstreamChunkResult" where
  "norm_DownstreamChunkResult r =
     r\<lparr>DownstreamChunkResult.ResultCode := norm_rc (DownstreamChunkResult.ResultCode r)\<rparr>"

interpretation up_result: stable_codec toUpstreamChunkResultProto toUpstreamChunkResult
  always norm_UpstreamChunkResult always
  by unfold_locales
    (auto simp: codec_simps go_simps norm_UpstreamChunkResult_def dest: rc.decodes rc.stable)

interpretation up_results: stable_codec toUpstreamDataPointResultsProto toUpstreamDataPointResults
  always "map (map_option norm_UpstreamChunkResult)" always
  using stable_codec.list_stable [OF up_result.ptr_stable]
  by (simp add: toUpstreamDataPointResultsProto_def toUpstreamDataPointResults_def)

lemma down_result_codec:
  assumes "uuid_lib_ok L"
  shows "stable_codec toDownstreamChunkResultProto (toDownstreamChunkResult L)
    always norm_DownstreamChunkResult always"
  using assms
  by unfold_locales
    (auto simp: codec_simps go_simps mustUUID_Inr norm_DownstreamChunkResult_def dest: rc.decodes rc.stable)

lemma down_results_codec:
  assumes "uuid_lib_ok L"
  shows "stable_codec toDownstreamDataPointResultsProto (toDownstreamDataPointResults L)
    always (map (map_option norm_DownstreamChunkResult)) always"
  using stable_codec.list_stable [OF stable_codec.ptr_stable [OF down_result_codec [OF assms]]]
  by (simp add: toDownstreamDataPointResultsProto_def toDownstreamDataPointResults_def)

text \<open>A \<open>nil\<close> upstream of an alias is encoded with no stream id, on which \<open>uuid.Must\<close> panics.\<close>

lemma up_info_codec:
  assumes "uuid_lib_ok L"
  shows "stable_codec (\<lambda>v. Inr (Some (toUpstreamInfoProto v))) (toUpstreamInfo L) (\<lambda>p. p \<noteq> None) id always"
  using assms
  by unfold_locales
    (auto simp: toUpstreamInfoProto_def toUpstreamInfo_def mustUUID_Inr go_simps split: option.splits)

lemma toUpstreamAliasesProto_traverse:
  "traverse (entry (\<lambda>v. Inr (Some (toUpstreamInfoProto v)))) = (\<lambda>kvs. Inr (toUpstreamAliasesProto kvs))"
  unfolding toUpstreamAliasesProto_def by (intro ext traverse_total) auto

lemma up_aliases_codec:
  assumes "uuid_lib_ok L"
  shows "stable_codec (\<lambda>kvs. Inr (toUpstreamAliasesProto kvs)) (toUpstreamAliases L)
    (list_all (\<lambda>kv. snd kv \<noteq> None)) id always"
  unfolding toUpstreamAliasesProto_traverse [symmetric] toUpstreamAliases_def
  by (rule stable_codec.list_stable [OF stable_codec.entry_stable [OF up_info_codec [OF assms]],
        unfolded lossless_simps])

end
