(* ===== verification/Codec.thy ===== *)
theory Codec
  imports Codec_Elems
begin

text \<open>
  The round trips of whole messages: each case of \<open>WireToProto\<close> against the case of
  \<open>ProtoToWire\<close> that reads it back, then the two switches.
\<close>

lemmas part_decodes =
  rc.decodes [OF _ TrueI] qos.decodes [OF _ TrueI] data_ids.decodes [OF _ TrueI]
  data_id_aliases.decodes [OF _ TrueI] downstream_filters.decodes [OF _ TrueI] chunk.decodes
  up_results.decodes [OF _ TrueI]

lemmas part_stable =
  rc.stable [OF _ TrueI] qos.stable [OF _ TrueI] data_ids.stable [OF _ TrueI]
  data_id_aliases.stable [OF _ TrueI] downstream_filters.stable [OF _ TrueI] chunk.stable
  up_results.stable [OF _ TrueI]

lemma ucast_up_down [simp]: "(ucast (ucast (n :: u8) :: u32) :: u8) = n"
  by (simp add: ucast_up_ucast_id is_up)

section \<open>Metadata\<close>

definition norm_BaseTime :: "BaseTime \<Rightarrow> BaseTime" where
  "norm_BaseTime m = m
    \<lparr>BaseTime.BaseTime := time_Unix0 (UnixNano (BaseTime.BaseTime m))\<rparr>"

interpretation base_time: stable_codec ToBaseTimeProto ToBaseTime
    always norm_BaseTime always
  by unfold_locales
    ((auto simp: codec_simps go_simps norm_BaseTime_def)[1],
     (auto simp: codec_simps go_simps norm_BaseTime_def)[1])

lemma upstream_open_codec:
  assumes "uuid_lib_ok L"
  shows "stable_codec ToUpstreamOpenProto (ToUpstreamOpen L)
    always id always"
  using assms
  by unfold_locales
    ((auto simp: codec_simps go_simps toUUID_Inr [OF assms] toUUID_be_bytes [OF assms]
        dest!: part_decodes)[1],
     (auto simp: codec_simps go_simps toUUID_Inr [OF assms] toUUID_be_bytes [OF assms]
        dest!: part_stable)[1])

lemma upstream_abnormal_close_codec:
  assumes "uuid_lib_ok L"
  shows "stable_codec ToUpstreamAbnormalCloseProto (ToUpstreamAbnormalClose L)
    always id always"
  using assms
  by unfold_locales
    ((auto simp: codec_simps go_simps toUUID_Inr [OF assms] toUUID_be_bytes [OF assms])[1],
     (auto simp: codec_simps go_simps toUUID_Inr [OF assms] toUUID_be_bytes [OF assms])[1])

lemma upstream_resume_codec:
  assumes "uuid_lib_ok L"
  shows "stable_codec ToUpstreamResumeProto (ToUpstreamResume L)
    always id always"
  using assms
  by unfold_locales
    ((auto simp: codec_simps go_simps toUUID_Inr [OF assms] toUUID_be_bytes [OF assms]
        dest!: part_decodes)[1],
     (auto simp: codec_simps go_simps toUUID_Inr [OF assms] toUUID_be_bytes [OF assms]
        dest!: part_stable)[1])

lemma upstream_normal_close_codec:
  assumes "uuid_lib_ok L"
  shows "stable_codec ToUpstreamNormalCloseProto (ToUpstreamNormalClose L)
    always id always"
  using assms
  by unfold_locales
    ((auto simp: codec_simps go_simps toUUID_Inr [OF assms] toUUID_be_bytes [OF assms])[1],
     (auto simp: codec_simps go_simps toUUID_Inr [OF assms] toUUID_be_bytes [OF assms])[1])

lemma downstream_open_codec:
  assumes "uuid_lib_ok L"
  shows "stable_codec ToDownstreamOpenProto (ToDownstreamOpen L)
    always id always"
  using assms
  by unfold_locales
    ((auto simp: codec_simps go_simps toUUID_Inr [OF assms] toUUID_be_bytes [OF assms]
        dest!: part_decodes)[1],
     (auto simp: codec_simps go_simps toUUID_Inr [OF assms] toUUID_be_bytes [OF assms]
        dest!: part_stable)[1])

lemma downstream_abnormal_close_codec:
  assumes "uuid_lib_ok L"
  shows "stable_codec ToDownstreamAbnormalCloseProto (ToDownstreamAbnormalClose L)
    always id always"
  using assms
  by unfold_locales
    ((auto simp: codec_simps go_simps toUUID_Inr [OF assms] toUUID_be_bytes [OF assms])[1],
     (auto simp: codec_simps go_simps toUUID_Inr [OF assms] toUUID_be_bytes [OF assms])[1])

lemma downstream_resume_codec:
  assumes "uuid_lib_ok L"
  shows "stable_codec ToDownstreamResumeProto (ToDownstreamResume L)
    always id always"
  using assms
  by unfold_locales
    ((auto simp: codec_simps go_simps toUUID_Inr [OF assms] toUUID_be_bytes [OF assms]
        dest!: part_decodes)[1],
     (auto simp: codec_simps go_simps toUUID_Inr [OF assms] toUUID_be_bytes [OF assms]
        dest!: part_stable)[1])

lemma downstream_normal_close_codec:
  assumes "uuid_lib_ok L"
  shows "stable_codec ToDownstreamNormalCloseProto (ToDownstreamNormalClose L)
    always id always"
  using assms
  by unfold_locales
    ((auto simp: codec_simps go_simps toUUID_Inr [OF assms] toUUID_be_bytes [OF assms])[1],
     (auto simp: codec_simps go_simps toUUID_Inr [OF assms] toUUID_be_bytes [OF assms])[1])

fun norm_SendableMetadata :: "SendableMetadata \<Rightarrow> SendableMetadata" where
  "norm_SendableMetadata (SM_BaseTime p) = SM_BaseTime (map_option norm_BaseTime p)"
| "norm_SendableMetadata m = m"

fun norm_Metadata :: "Metadata \<Rightarrow> Metadata" where
  "norm_Metadata (MD_BaseTime p) = MD_BaseTime (map_option norm_BaseTime p)"
| "norm_Metadata m = m"

lemmas metadata_codecs =
  upstream_open_codec upstream_abnormal_close_codec upstream_resume_codec upstream_normal_close_codec
  downstream_open_codec downstream_abnormal_close_codec downstream_resume_codec downstream_normal_close_codec

lemmas metadata_decodes = metadata_codecs [THEN stable_codec.axioms(1), THEN codec.decodes]
lemmas metadata_stable = metadata_codecs [THEN stable_codec.stable]

section \<open>Messages\<close>

definition norm_ConnectRequest :: "ConnectRequest \<Rightarrow> ConnectRequest" where
  "norm_ConnectRequest m = m
    \<lparr>ConnectRequest.PingInterval := dur_seconds (Seconds_u32 (ConnectRequest.PingInterval m)),
     ConnectRequest.PingTimeout := dur_seconds (Seconds_u32 (ConnectRequest.PingTimeout m))\<rparr>"

lemma connect_request_ext:
  assumes "uuid_lib_ok L"
  shows "toConnectRequestExtensionFields L (toConnectRequestExtensionFieldsProto L e) = Inr e"
    and "toConnectRequestExtensionFields L w = Inr e \<Longrightarrow>
      toConnectRequestExtensionFields L (toConnectRequestExtensionFieldsProto L e) = Inr e"
  using assms
  by (auto simp: codec_simps toConnectRequestExtensionFields_def toIntdashExtensionFields_def uuid_lib_ok_def
      split: option.splits)

lemma connect_request_codec:
  assumes "uuid_lib_ok L"
  shows "stable_codec (WireToProto_ConnectRequest L) (ProtoToWire_ConnectRequest L)
    always norm_ConnectRequest always"
  by unfold_locales
    (auto simp: codec_simps(1-2) WireToProto_ConnectRequest_def ProtoToWire_ConnectRequest_def go_simps
      norm_ConnectRequest_def connect_request_ext [OF assms])

definition norm_ConnectResponse :: "ConnectResponse \<Rightarrow> ConnectResponse" where
  "norm_ConnectResponse m = m
    \<lparr>ConnectResponse.ResultCode := norm_rc (ConnectResponse.ResultCode m)\<rparr>"

interpretation connect_response: stable_codec WireToProto_ConnectResponse ProtoToWire_ConnectResponse
    always norm_ConnectResponse always
  by unfold_locales
    ((auto simp: codec_simps go_simps norm_ConnectResponse_def
        dest!: part_decodes)[1],
     (auto simp: codec_simps go_simps norm_ConnectResponse_def
        dest!: part_stable)[1])

definition norm_Disconnect :: "Disconnect \<Rightarrow> Disconnect" where
  "norm_Disconnect m = m
    \<lparr>Disconnect.ResultCode := norm_rc (Disconnect.ResultCode m)\<rparr>"

interpretation disconnect: stable_codec WireToProto_Disconnect ProtoToWire_Disconnect
    always norm_Disconnect always
  by unfold_locales
    ((auto simp: codec_simps go_simps norm_Disconnect_def
        dest!: part_decodes)[1],
     (auto simp: codec_simps go_simps norm_Disconnect_def
        dest!: part_stable)[1])

definition norm_UpstreamOpenRequest :: "UpstreamOpenRequest \<Rightarrow> UpstreamOpenRequest" where
  "norm_UpstreamOpenRequest m = m
    \<lparr>UpstreamOpenRequest.AckInterval := dur_millis (Milliseconds_u32 (UpstreamOpenRequest.AckInterval m)),
     UpstreamOpenRequest.ExpiryInterval := dur_seconds (Seconds_u32 (UpstreamOpenRequest.ExpiryInterval m))\<rparr>"

interpretation upstream_open_request: stable_codec WireToProto_UpstreamOpenRequest ProtoToWire_UpstreamOpenRequest
    always norm_UpstreamOpenRequest always
  by unfold_locales
    ((auto simp: codec_simps go_simps norm_UpstreamOpenRequest_def
        dest!: part_decodes
        split: option.splits)[1],
     (auto simp: codec_simps go_simps norm_UpstreamOpenRequest_def
        dest!: part_stable
        split: option.splits)[1])

definition norm_UpstreamOpenResponse :: "UpstreamOpenResponse \<Rightarrow> UpstreamOpenResponse" where
  "norm_UpstreamOpenResponse m = m
    \<lparr>UpstreamOpenResponse.ResultCode := norm_rc (UpstreamOpenResponse.ResultCode m),
     UpstreamOpenResponse.ServerTime := time_Unix0 (orUnixZero (UpstreamOpenResponse.ServerTime m))\<rparr>"

lemma upstream_open_response_codec:
  assumes "uuid_lib_ok L"
  shows "stable_codec WireToProto_UpstreamOpenResponse (ProtoToWire_UpstreamOpenResponse L)
    always norm_UpstreamOpenResponse always"
  using assms
  by unfold_locales
    ((auto simp: codec_simps go_simps norm_UpstreamOpenResponse_def toUUID_Inr [OF assms] toUUID_be_bytes [OF assms] UpstreamOpenResponse_ServerTimeOrUnixZero_def
        dest!: part_decodes)[1],
     (auto simp: codec_simps go_simps norm_UpstreamOpenResponse_def toUUID_Inr [OF assms] toUUID_be_bytes [OF assms] UpstreamOpenResponse_ServerTimeOrUnixZero_def
        dest!: part_stable)[1])

lemma upstream_resume_request_codec:
  assumes "uuid_lib_ok L"
  shows "stable_codec WireToProto_UpstreamResumeRequest (ProtoToWire_UpstreamResumeRequest L)
    always id always"
  using assms
  by unfold_locales
    ((auto simp: codec_simps go_simps toUUID_Inr [OF assms] toUUID_be_bytes [OF assms])[1],
     (auto simp: codec_simps go_simps toUUID_Inr [OF assms] toUUID_be_bytes [OF assms])[1])

definition norm_UpstreamResumeResponse :: "UpstreamResumeResponse \<Rightarrow> UpstreamResumeResponse" where
  "norm_UpstreamResumeResponse m = m
    \<lparr>UpstreamResumeResponse.ResultCode := norm_rc (UpstreamResumeResponse.ResultCode m)\<rparr>"

interpretation upstream_resume_response: stable_codec WireToProto_UpstreamResumeResponse ProtoToWire_UpstreamResumeResponse
    always norm_UpstreamResumeResponse always
  by unfold_locales
    ((auto simp: codec_simps go_simps norm_UpstreamResumeResponse_def
        dest!: part_decodes)[1],
     (auto simp: codec_simps go_simps norm_UpstreamResumeResponse_def
        dest!: part_stable)[1])

lemma upstream_close_request_codec:
  assumes "uuid_lib_ok L"
  shows "stable_codec WireToProto_UpstreamCloseRequest (ProtoToWire_UpstreamCloseRequest L)
    always id always"
  using assms
  by unfold_locales
    ((auto simp: codec_simps go_simps toUUID_Inr [OF assms] toUUID_be_bytes [OF assms]
        split: option.splits)[1],
     (auto simp: codec_simps go_simps toUUID_Inr [OF assms] toUUID_be_bytes [OF assms]
        split: option.splits)[1])

definition norm_UpstreamCloseResponse :: "UpstreamCloseResponse \<Rightarrow> UpstreamCloseResponse" where
  "norm_UpstreamCloseResponse m = m
    \<lparr>UpstreamCloseResponse.ResultCode := norm_rc (UpstreamCloseResponse.ResultCode m)\<rparr>"

interpretation upstream_close_response: stable_codec WireToProto_UpstreamCloseResponse ProtoToWire_UpstreamCloseResponse
    always norm_UpstreamCloseResponse always
  by unfold_locales
    ((auto simp: codec_simps go_simps norm_UpstreamCloseResponse_def
        dest!: part_decodes)[1],
     (auto simp: codec_simps go_simps norm_UpstreamCloseResponse_def
        dest!: part_stable)[1])

definition norm_DownstreamOpenRequest :: "DownstreamOpenRequest \<Rightarrow> DownstreamOpenRequest" where
  "norm_DownstreamOpenRequest m = m
    \<lparr>DownstreamOpenRequest.ExpiryInterval := dur_seconds (Seconds_u32 (DownstreamOpenRequest.ExpiryInterval m))\<rparr>"

interpretation downstream_open_request: stable_codec WireToProto_DownstreamOpenRequest ProtoToWire_DownstreamOpenRequest
    always norm_DownstreamOpenRequest always
  by unfold_locales
    ((auto simp: codec_simps go_simps norm_DownstreamOpenRequest_def
        dest!: part_decodes)[1],
     (auto simp: codec_simps go_simps norm_DownstreamOpenRequest_def
        dest!: part_stable)[1])

definition norm_DownstreamOpenResponse :: "DownstreamOpenResponse \<Rightarrow> DownstreamOpenResponse" where
  "norm_DownstreamOpenResponse m = m
    \<lparr>DownstreamOpenResponse.ResultCode := norm_rc (DownstreamOpenResponse.ResultCode m),
     DownstreamOpenResponse.ServerTime := time_Unix0 (orUnixZero (DownstreamOpenResponse.ServerTime m))\<rparr>"

lemma downstream_open_response_codec:
  assumes "uuid_lib_ok L"
  shows "stable_codec WireToProto_DownstreamOpenResponse (ProtoToWire_DownstreamOpenResponse L)
    always norm_DownstreamOpenResponse always"
  using assms
  by unfold_locales
    ((auto simp: codec_simps go_simps norm_DownstreamOpenResponse_def toUUID_Inr [OF assms] toUUID_be_bytes [OF assms] DownstreamOpenResponse_ServerTimeOrUnixZero_def
        dest!: part_decodes)[1],
     (auto simp: codec_simps go_simps norm_DownstreamOpenResponse_def toUUID_Inr [OF assms] toUUID_be_bytes [OF assms] DownstreamOpenResponse_ServerTimeOrUnixZero_def
        dest!: part_stable)[1])

lemma downstream_resume_request_codec:
  assumes "uuid_lib_ok L"
  shows "stable_codec WireToProto_DownstreamResumeRequest (ProtoToWire_DownstreamResumeRequest L)
    always id always"
  using assms
  by unfold_locales
    ((auto simp: codec_simps go_simps toUUID_Inr [OF assms] toUUID_be_bytes [OF assms])[1],
     (auto simp: codec_simps go_simps toUUID_Inr [OF assms] toUUID_be_bytes [OF assms])[1])

definition norm_DownstreamResumeResponse :: "DownstreamResumeResponse \<Rightarrow> DownstreamResumeResponse" where
  "norm_DownstreamResumeResponse m = m
    \<lparr>DownstreamResumeResponse.ResultCode := norm_rc (DownstreamResumeResponse.ResultCode m)\<rparr>"

interpretation downstream_resume_response: stable_codec WireToProto_DownstreamResumeResponse ProtoToWire_DownstreamResumeResponse
    always norm_DownstreamResumeResponse always
  by unfold_locales
    ((auto simp: codec_simps go_simps norm_DownstreamResumeResponse_def
        dest!: part_decodes)[1],
     (auto simp: codec_simps go_simps norm_DownstreamResumeResponse_def
        dest!: part_stable)[1])

lemma downstream_close_request_codec:
  assumes "uuid_lib_ok L"
  shows "stable_codec WireToProto_DownstreamCloseRequest (ProtoToWire_DownstreamCloseRequest L)
    always id always"
  using assms
  by unfold_locales
    ((auto simp: codec_simps go_simps toUUID_Inr [OF assms] toUUID_be_bytes [OF assms])[1],
     (auto simp: codec_simps go_simps toUUID_Inr [OF assms] toUUID_be_bytes [OF assms])[1])

definition norm_DownstreamCloseResponse :: "DownstreamCloseResponse \<Rightarrow> DownstreamCloseResponse" where
  "norm_DownstreamCloseResponse m = m
    \<lparr>DownstreamCloseResponse.ResultCode := norm_rc (DownstreamCloseResponse.ResultCode m)\<rparr>"

interpretation downstream_close_response: stable_codec WireToProto_DownstreamCloseResponse ProtoToWire_DownstreamCloseResponse
    always norm_DownstreamCloseResponse always
  by unfold_locales
    ((auto simp: codec_simps go_simps norm_DownstreamCloseResponse_def
        dest!: part_decodes)[1],
     (auto simp: codec_simps go_simps norm_DownstreamCloseResponse_def
        dest!: part_stable)[1])

interpretation upstream_call: stable_codec WireToProto_UpstreamCall ProtoToWire_UpstreamCall
    always id always
  by unfold_locales
    ((auto simp: codec_simps go_simps)[1],
     (auto simp: codec_simps go_simps)[1])

definition norm_UpstreamCallAck :: "UpstreamCallAck \<Rightarrow> UpstreamCallAck" where
  "norm_UpstreamCallAck m = m
    \<lparr>UpstreamCallAck.ResultCode := norm_rc (UpstreamCallAck.ResultCode m)\<rparr>"

interpretation upstream_call_ack: stable_codec WireToProto_UpstreamCallAck ProtoToWire_UpstreamCallAck
    always norm_UpstreamCallAck always
  by unfold_locales
    ((auto simp: codec_simps go_simps norm_UpstreamCallAck_def
        dest!: part_decodes)[1],
     (auto simp: codec_simps go_simps norm_UpstreamCallAck_def
        dest!: part_stable)[1])

interpretation downstream_call: stable_codec WireToProto_DownstreamCall ProtoToWire_DownstreamCall
    always id always
  by unfold_locales
    ((auto simp: codec_simps go_simps)[1],
     (auto simp: codec_simps go_simps)[1])

interpretation ping: stable_codec WireToProto_Ping ProtoToWire_Ping
    always id always
  by unfold_locales
    ((auto simp: codec_simps go_simps)[1],
     (auto simp: codec_simps go_simps)[1])

interpretation pong: stable_codec WireToProto_Pong ProtoToWire_Pong
    always id always
  by unfold_locales
    ((auto simp: codec_simps go_simps)[1],
     (auto simp: codec_simps go_simps)[1])

definition norm_UpstreamChunk :: "UpstreamChunk \<Rightarrow> UpstreamChunk" where
  "norm_UpstreamChunk m = m
    \<lparr>UpstreamChunk.StreamChunk := norm_chunk (UpstreamChunk.StreamChunk m)\<rparr>"

interpretation upstream_chunk: stable_codec WireToProto_UpstreamChunk ProtoToWire_UpstreamChunk
    "\<lambda>m. good_chunk (UpstreamChunk.StreamChunk m)" norm_UpstreamChunk "\<lambda>p. ok_chunk (PbUpstreamChunk.StreamChunk p)"
  by unfold_locales
    ((auto simp: codec_simps go_simps norm_UpstreamChunk_def
        dest!: part_decodes)[1],
     (auto simp: codec_simps go_simps norm_UpstreamChunk_def
        dest!: part_stable)[1])

definition norm_UpstreamChunkAck :: "UpstreamChunkAck \<Rightarrow> UpstreamChunkAck" where
  "norm_UpstreamChunkAck m = m
    \<lparr>UpstreamChunkAck.Results := map (map_option norm_UpstreamChunkResult) (UpstreamChunkAck.Results m)\<rparr>"

interpretation upstream_chunk_ack: stable_codec WireToProto_UpstreamChunkAck ProtoToWire_UpstreamChunkAck
    always norm_UpstreamChunkAck always
  by unfold_locales
    ((auto simp: codec_simps go_simps norm_UpstreamChunkAck_def
        dest!: part_decodes)[1],
     (auto simp: codec_simps go_simps norm_UpstreamChunkAck_def
        dest!: part_stable)[1])

definition norm_DownstreamChunk :: "DownstreamChunk \<Rightarrow> DownstreamChunk" where
  "norm_DownstreamChunk m = m
    \<lparr>DownstreamChunk.StreamChunk := norm_chunk (DownstreamChunk.StreamChunk m),
     DownstreamChunk.DownstreamFilterReferences := norm_refs (DownstreamChunk.DownstreamFilterReferences m)\<rparr>"

definition good_DownstreamChunk :: "DownstreamChunk \<Rightarrow> bool" where
  "good_DownstreamChunk m \<longleftrightarrow> good_chunk (DownstreamChunk.StreamChunk m)"

lemma downstream_chunk_codec:
  assumes "uuid_lib_ok L"
  shows "stable_codec (\<lambda>m. toDownstreamChunkProto (Some m)) (ProtoToWire_DownstreamChunk L)
    good_DownstreamChunk norm_DownstreamChunk (\<lambda>p. ok_chunk (PbDownstreamChunk.StreamChunk p))"
proof
  show "ProtoToWire_DownstreamChunk L p = Inr (norm_DownstreamChunk m)"
    if "toDownstreamChunkProto (Some m) = Inr p" "good_DownstreamChunk m" for m p
    using that chunk.decodes
    by (fastforce simp: toDownstreamChunkProto_def ProtoToWire_DownstreamChunk_def toUpstreamOrAlias_def
        good_DownstreamChunk_def norm_DownstreamChunk_def go_simps codec_simps toUUID_be_bytes [OF assms]
        toDownstreamFilterReferencesWire_Proto split: UpstreamOrAlias.splits)
  show "good_DownstreamChunk m \<and> norm_DownstreamChunk m = m \<and> (\<exists>p'. toDownstreamChunkProto (Some m) = Inr p')"
    if "ProtoToWire_DownstreamChunk L p = Inr m" "ok_chunk (PbDownstreamChunk.StreamChunk p)" for m p
    using that chunk.stable
    by (fastforce simp: toDownstreamChunkProto_def ProtoToWire_DownstreamChunk_def toUpstreamOrAlias_def
        good_DownstreamChunk_def norm_DownstreamChunk_def go_simps codec_simps
        split: PbUpstreamOrAlias.splits)
qed

definition norm_DownstreamChunkAck :: "DownstreamChunkAck \<Rightarrow> DownstreamChunkAck" where
  "norm_DownstreamChunkAck m = m
    \<lparr>DownstreamChunkAck.Results := map (map_option norm_DownstreamChunkResult) (DownstreamChunkAck.Results m)\<rparr>"

definition good_DownstreamChunkAck :: "DownstreamChunkAck \<Rightarrow> bool" where
  "good_DownstreamChunkAck m \<longleftrightarrow> list_all (\<lambda>kv. snd kv \<noteq> None) (DownstreamChunkAck.UpstreamAliases m)"

lemmas down_results_decodes = down_results_codec [THEN stable_codec.axioms(1), THEN codec.decodes]
lemmas down_results_stable = down_results_codec [THEN stable_codec.stable]
lemmas up_aliases_decodes =
  up_aliases_codec [THEN stable_codec.axioms(1), THEN codec.decodes, OF _ refl]
lemmas up_aliases_stable = up_aliases_codec [THEN stable_codec.stable]

lemma downstream_chunk_ack_codec:
  assumes "uuid_lib_ok L"
  shows "stable_codec WireToProto_DownstreamChunkAck (ProtoToWire_DownstreamChunkAck L)
    good_DownstreamChunkAck norm_DownstreamChunkAck always"
proof
  show "ProtoToWire_DownstreamChunkAck L p = Inr (norm_DownstreamChunkAck m)"
    if "WireToProto_DownstreamChunkAck m = Inr p" "good_DownstreamChunkAck m" for m p
    using that up_aliases_decodes [OF assms]
    by (auto simp: codec_simps go_simps norm_DownstreamChunkAck_def good_DownstreamChunkAck_def
        dest!: down_results_decodes [OF assms _ TrueI] part_decodes)
  show "good_DownstreamChunkAck m \<and> norm_DownstreamChunkAck m = m \<and>
      (\<exists>p'. WireToProto_DownstreamChunkAck m = Inr p')"
    if "ProtoToWire_DownstreamChunkAck L p = Inr m" for m p
    using that
    by (auto simp: codec_simps go_simps norm_DownstreamChunkAck_def good_DownstreamChunkAck_def
        dest!: down_results_stable [OF assms _ TrueI] up_aliases_stable [OF assms _ TrueI] part_stable)
qed

definition norm_DownstreamChunkAckComplete :: "DownstreamChunkAckComplete \<Rightarrow> DownstreamChunkAckComplete" where
  "norm_DownstreamChunkAckComplete m = m
    \<lparr>DownstreamChunkAckComplete.ResultCode := norm_rc (DownstreamChunkAckComplete.ResultCode m)\<rparr>"

interpretation downstream_chunk_ack_complete: stable_codec WireToProto_DownstreamChunkAckComplete ProtoToWire_DownstreamChunkAckComplete
    always norm_DownstreamChunkAckComplete always
  by unfold_locales
    ((auto simp: codec_simps go_simps norm_DownstreamChunkAckComplete_def
        dest!: part_decodes)[1],
     (auto simp: codec_simps go_simps norm_DownstreamChunkAckComplete_def
        dest!: part_stable)[1])

definition norm_UpstreamMetadata :: "UpstreamMetadata \<Rightarrow> UpstreamMetadata" where
  "norm_UpstreamMetadata m = m
    \<lparr>UpstreamMetadata.Metadata := norm_SendableMetadata (UpstreamMetadata.Metadata m)\<rparr>"

interpretation upstream_metadata: stable_codec "\<lambda>m. toUpstreamMetadataProto (Some m)" ProtoToWire_UpstreamMetadata
    always norm_UpstreamMetadata always
proof
  show "ProtoToWire_UpstreamMetadata p = Inr (norm_UpstreamMetadata m)"
    if "toUpstreamMetadataProto (Some m) = Inr p" for m p
    using that base_time.decodes
    by (fastforce simp: toUpstreamMetadataProto_def ProtoToWire_UpstreamMetadata_def toMetadataUpstream_def
        norm_UpstreamMetadata_def go_simps codec_simps split: SendableMetadata.splits option.splits)
  show "always m \<and> norm_UpstreamMetadata m = m \<and> (\<exists>p'. toUpstreamMetadataProto (Some m) = Inr p')"
    if "ProtoToWire_UpstreamMetadata p = Inr m" for m p
    using that base_time.stable
    by (fastforce simp: toUpstreamMetadataProto_def ProtoToWire_UpstreamMetadata_def toMetadataUpstream_def
        norm_UpstreamMetadata_def oneof_def go_simps codec_simps
        split: PbUpstreamMetadata_Metadata.splits option.splits)
qed

definition norm_UpstreamMetadataAck :: "UpstreamMetadataAck \<Rightarrow> UpstreamMetadataAck" where
  "norm_UpstreamMetadataAck m = m
    \<lparr>UpstreamMetadataAck.ResultCode := norm_rc (UpstreamMetadataAck.ResultCode m)\<rparr>"

interpretation upstream_metadata_ack: stable_codec WireToProto_UpstreamMetadataAck ProtoToWire_UpstreamMetadataAck
    always norm_UpstreamMetadataAck always
  by unfold_locales
    ((auto simp: codec_simps go_simps norm_UpstreamMetadataAck_def
        dest!: part_decodes)[1],
     (auto simp: codec_simps go_simps norm_UpstreamMetadataAck_def
        dest!: part_stable)[1])

definition norm_DownstreamMetadata :: "DownstreamMetadata \<Rightarrow> DownstreamMetadata" where
  "norm_DownstreamMetadata m = m
    \<lparr>DownstreamMetadata.Metadata := norm_Metadata (DownstreamMetadata.Metadata m)\<rparr>"

lemma downstream_metadata_codec:
  assumes "uuid_lib_ok L"
  shows "stable_codec toDownstreamMetadataProto (ProtoToWire_DownstreamMetadata L)
    always norm_DownstreamMetadata always"
proof
  show "ProtoToWire_DownstreamMetadata L p = Inr (norm_DownstreamMetadata m)"
    if "toDownstreamMetadataProto m = Inr p" for m p
    using that
    by (cases "DownstreamMetadata.Metadata m")
      (auto simp: toDownstreamMetadataProto_def ProtoToWire_DownstreamMetadata_def toDownstreamMetadata_def
        norm_DownstreamMetadata_def go_simps toDownstreamMetadataExtensionFields_def
        toDownstreamMetadataExtensionFieldsProto_def
        dest: base_time.decodes metadata_decodes [OF assms])
  show "always m \<and> norm_DownstreamMetadata m = m \<and> (\<exists>p'. toDownstreamMetadataProto m = Inr p')"
    if "ProtoToWire_DownstreamMetadata L p = Inr m" for m p
    using that
    by (cases "PbDownstreamMetadata.Metadata p")
      (auto simp: toDownstreamMetadataProto_def ProtoToWire_DownstreamMetadata_def toDownstreamMetadata_def
        norm_DownstreamMetadata_def go_simps toDownstreamMetadataExtensionFields_def
        toDownstreamMetadataExtensionFieldsProto_def
        dest: base_time.stable metadata_stable [OF assms])
qed

definition norm_DownstreamMetadataAck :: "DownstreamMetadataAck \<Rightarrow> DownstreamMetadataAck" where
  "norm_DownstreamMetadataAck m = m
    \<lparr>DownstreamMetadataAck.ResultCode := norm_rc (DownstreamMetadataAck.ResultCode m)\<rparr>"

interpretation downstream_metadata_ack: stable_codec WireToProto_DownstreamMetadataAck ProtoToWire_DownstreamMetadataAck
    always norm_DownstreamMetadataAck always
  by unfold_locales
    ((auto simp: codec_simps go_simps norm_DownstreamMetadataAck_def
        dest!: part_decodes)[1],
     (auto simp: codec_simps go_simps norm_DownstreamMetadataAck_def
        dest!: part_stable)[1])

section \<open>The two switches\<close>

lemmas uuid_message_codecs =
  connect_request_codec upstream_open_response_codec upstream_resume_request_codec
  upstream_close_request_codec downstream_open_response_codec downstream_resume_request_codec
  downstream_close_request_codec downstream_chunk_codec downstream_chunk_ack_codec
  downstream_metadata_codec

lemmas uuid_message_decodes = uuid_message_codecs [THEN stable_codec.axioms(1), THEN codec.decodes]
lemmas uuid_message_stable = uuid_message_codecs [THEN stable_codec.stable]

lemmas message_decodes =
  connect_response.decodes disconnect.decodes upstream_open_request.decodes
  upstream_resume_response.decodes upstream_close_response.decodes downstream_open_request.decodes
  downstream_resume_response.decodes downstream_close_response.decodes upstream_call.decodes
  upstream_call_ack.decodes downstream_call.decodes ping.decodes pong.decodes
  upstream_chunk.decodes upstream_chunk_ack.decodes downstream_chunk_ack_complete.decodes
  upstream_metadata.decodes upstream_metadata_ack.decodes downstream_metadata_ack.decodes

lemmas message_stable =
  connect_response.stable disconnect.stable upstream_open_request.stable
  upstream_resume_response.stable upstream_close_response.stable downstream_open_request.stable
  downstream_resume_response.stable downstream_close_response.stable upstream_call.stable
  upstream_call_ack.stable downstream_call.stable ping.stable pong.stable upstream_chunk.stable
  upstream_chunk_ack.stable downstream_chunk_ack_complete.stable upstream_metadata.stable
  upstream_metadata_ack.stable downstream_metadata_ack.stable

text \<open>
  \<open>decodable m\<close>: the encoding of \<open>m\<close> is accepted by the decoder. What is not: a data point group that
  is \<open>nil\<close> or has no data ID, a \<open>nil\<close> upstream in an alias table, and the two \<open>nil\<close> messages that
  the encoder turns into empty ones. \<open>normalize m\<close> is the message that arrives.
\<close>

fun decodable :: "Message \<Rightarrow> bool" where
  "decodable (M_UpstreamChunk (Some m)) = good_chunk (UpstreamChunk.StreamChunk m)"
| "decodable (M_DownstreamChunk None) = False"
| "decodable (M_DownstreamChunk (Some m)) = good_DownstreamChunk m"
| "decodable (M_DownstreamChunkAck (Some m)) = good_DownstreamChunkAck m"
| "decodable (M_UpstreamMetadata None) = False"
| "decodable m = True"

fun normalize :: "Message \<Rightarrow> Message" where
  "normalize (M_ConnectRequest p) = M_ConnectRequest (map_option norm_ConnectRequest p)"
| "normalize (M_ConnectResponse p) = M_ConnectResponse (map_option norm_ConnectResponse p)"
| "normalize (M_Disconnect p) = M_Disconnect (map_option norm_Disconnect p)"
| "normalize (M_UpstreamOpenRequest p) = M_UpstreamOpenRequest (map_option norm_UpstreamOpenRequest p)"
| "normalize (M_UpstreamOpenResponse p) = M_UpstreamOpenResponse (map_option norm_UpstreamOpenResponse p)"
| "normalize (M_UpstreamResumeResponse p) = M_UpstreamResumeResponse (map_option norm_UpstreamResumeResponse p)"
| "normalize (M_UpstreamCloseResponse p) = M_UpstreamCloseResponse (map_option norm_UpstreamCloseResponse p)"
| "normalize (M_DownstreamOpenRequest p) = M_DownstreamOpenRequest (map_option norm_DownstreamOpenRequest p)"
| "normalize (M_DownstreamOpenResponse p) = M_DownstreamOpenResponse (map_option norm_DownstreamOpenResponse p)"
| "normalize (M_DownstreamResumeResponse p) = M_DownstreamResumeResponse (map_option norm_DownstreamResumeResponse p)"
| "normalize (M_DownstreamCloseResponse p) = M_DownstreamCloseResponse (map_option norm_DownstreamCloseResponse p)"
| "normalize (M_UpstreamCallAck p) = M_UpstreamCallAck (map_option norm_UpstreamCallAck p)"
| "normalize (M_UpstreamChunk p) = M_UpstreamChunk (map_option norm_UpstreamChunk p)"
| "normalize (M_UpstreamChunkAck p) = M_UpstreamChunkAck (map_option norm_UpstreamChunkAck p)"
| "normalize (M_DownstreamChunk p) = M_DownstreamChunk (map_option norm_DownstreamChunk p)"
| "normalize (M_DownstreamChunkAck p) = M_DownstreamChunkAck (map_option norm_DownstreamChunkAck p)"
| "normalize (M_DownstreamChunkAckComplete p) = M_DownstreamChunkAckComplete (map_option norm_DownstreamChunkAckComplete p)"
| "normalize (M_UpstreamMetadata p) = M_UpstreamMetadata (map_option norm_UpstreamMetadata p)"
| "normalize (M_UpstreamMetadataAck p) = M_UpstreamMetadataAck (map_option norm_UpstreamMetadataAck p)"
| "normalize (M_DownstreamMetadata p) = M_DownstreamMetadata (map_option norm_DownstreamMetadata p)"
| "normalize (M_DownstreamMetadataAck p) = M_DownstreamMetadataAck (map_option norm_DownstreamMetadataAck p)"
| "normalize m = m"

text \<open>Messages from the network: the protobuf decoder never produces a \<open>nil\<close> group.\<close>

fun no_nil_group :: "PbMessage \<Rightarrow> bool" where
  "no_nil_group (Message_UpstreamChunk (Some p)) = ok_chunk (PbUpstreamChunk.StreamChunk p)"
| "no_nil_group (Message_DownstreamChunk (Some p)) = ok_chunk (PbDownstreamChunk.StreamChunk p)"
| "no_nil_group p = True"

lemma ProtoToWire_WireToProto:
  assumes L: "uuid_lib_ok L" and "WireToProto L m = Inr p" and "decodable m"
  shows "ProtoToWire L p = Inr (normalize m)"
proof (cases m)
  case (M_DownstreamChunk q)
  with assms show ?thesis
    by (cases q) (auto simp: go_simps dest: uuid_message_decodes [OF L])
next
  case (M_UpstreamMetadata q)
  with assms show ?thesis
    by (cases q) (auto simp: go_simps dest: message_decodes)
qed (use assms(2-3) in \<open>auto simp: go_simps id_def
  dest: uuid_message_decodes [OF L] message_decodes\<close>)

lemma ProtoToWire_stable:
  assumes L: "uuid_lib_ok L" and "ProtoToWire L p = Inr m" and "no_nil_group p"
  shows "decodable m \<and> normalize m = m \<and> (\<exists>p'. WireToProto L m = Inr p')"
proof (cases p)
qed (use assms(2-3) in \<open>auto simp: go_simps oneof_def
  dest!: uuid_message_stable [OF L] message_stable\<close>)

end
