(* ===== verification/Codec_Safety.thy ===== *)
theory Codec_Safety
  imports Codec
begin

text \<open>
  What can go wrong in the converter: on values without \<open>nil\<close> pointers no case dereferences one,
  and each function fails only with the errors its part of the message explains.
\<close>

section \<open>Functions that fail in known ways\<close>

text \<open>On an input that is \<open>given\<close>, \<open>f\<close> fails with an error of \<open>errs\<close> or not at all.\<close>

locale fallible =
  fixes f :: "'a \<Rightarrow> conv_error + 'b"
    and given :: "'a \<Rightarrow> bool"
    and errs :: "conv_error set"
  assumes fails: "f x = Inl e \<Longrightarrow> given x \<Longrightarrow> e \<in> errs"
begin

lemma total: "given x \<Longrightarrow> errs = {} \<Longrightarrow> \<exists>y. f x = Inr y"
  using fails by (cases "f x") auto

lemma list_fallible: "fallible (traverse f) (list_all given) errs"
  by unfold_locales (auto simp: list_all_iff dest!: traverse_error dest: fails)

lemma ptr_fallible: "fallible (ptr f) (\<lambda>p. \<exists>v. p = Some v \<and> given v) errs"
  by unfold_locales (auto simp: go_simps dest: fails)

lemma entry_fallible: "fallible (entry f) (\<lambda>kv. given (snd kv)) errs"
  by unfold_locales (auto simp: go_simps dest: fails)

end

definition given :: "('a \<Rightarrow> bool) \<Rightarrow> 'a option \<Rightarrow> bool" where
  "given P p \<longleftrightarrow> (\<exists>v. p = Some v \<and> P v)"

definition nonnil :: "'a option list \<Rightarrow> bool" where
  "nonnil ps \<longleftrightarrow> list_all (\<lambda>p. \<exists>v. p = Some v) ps"

definition nonnil_map :: "('k \<times> 'a option) list \<Rightarrow> bool" where
  "nonnil_map kvs \<longleftrightarrow> list_all (\<lambda>kv. \<exists>v. snd kv = Some v) kvs"

section \<open>Values without nil pointers\<close>

definition filters_ok :: "DownstreamFilter option list \<Rightarrow> bool" where
  "filters_ok = list_all (given (\<lambda>v. nonnil (DownstreamFilter.DataFilters v)))"

definition pb_filters_ok :: "PbDownstreamFilter option list \<Rightarrow> bool" where
  "pb_filters_ok = list_all (given (\<lambda>v. nonnil (PbDownstreamFilter.DataFilters v)))"

fun doa_ok :: "DataIDOrAlias \<Rightarrow> bool" where
  "doa_ok (DOA_DataID p) = (p \<noteq> None)"
| "doa_ok (DOA_AliasPtr p) = (p \<noteq> None)"
| "doa_ok d = True"

definition group_ok :: "DataPointGroup option \<Rightarrow> bool" where
  "group_ok p \<longleftrightarrow>
     (case p of None \<Rightarrow> True
      | Some g \<Rightarrow> doa_ok (DataPointGroup.DataIDOrAlias g) \<and> nonnil (DataPointGroup.DataPoints g))"

definition pb_group_ok :: "PbDataPointGroup option \<Rightarrow> bool" where
  "pb_group_ok p \<longleftrightarrow>
     (case p of None \<Rightarrow> True
      | Some g \<Rightarrow> PbDataPointGroup.DataIdOrAlias g \<noteq> DataPointGroup_DataId None \<and>
          nonnil (PbDataPointGroup.DataPoints g))"

definition chunk_ok :: "StreamChunk option \<Rightarrow> bool" where
  "chunk_ok p \<longleftrightarrow> (case p of None \<Rightarrow> True | Some c \<Rightarrow> list_all group_ok (StreamChunk.DataPointGroups c))"

definition pb_chunk_ok :: "PbStreamChunk option \<Rightarrow> bool" where
  "pb_chunk_ok p \<longleftrightarrow>
     (case p of None \<Rightarrow> True | Some c \<Rightarrow> list_all pb_group_ok (PbStreamChunk.DataPointGroups c))"

definition uoa_ok :: "UpstreamOrAlias \<Rightarrow> bool" where
  "uoa_ok u \<longleftrightarrow> u \<noteq> UOA_Info None"

definition pb_uoa_ok :: "PbUpstreamOrAlias \<Rightarrow> bool" where
  "pb_uoa_ok u \<longleftrightarrow> u \<noteq> DownstreamChunk_UpstreamInfo None"

definition upmeta_ok :: "SendableMetadata \<Rightarrow> bool" where
  "upmeta_ok m \<longleftrightarrow> m \<noteq> SM_BaseTime None"

definition pb_upmeta_ok :: "PbUpstreamMetadata_Metadata \<Rightarrow> bool" where
  "pb_upmeta_ok m \<longleftrightarrow> m \<noteq> UpstreamMetadata_BaseTime None"

fun downmeta_ok :: "Metadata \<Rightarrow> bool" where
  "downmeta_ok MD_nil = True"
| "downmeta_ok (MD_BaseTime p) = given (\<lambda>m. True) p"
| "downmeta_ok (MD_UpstreamOpen p) = given (\<lambda>m. True) p"
| "downmeta_ok (MD_UpstreamAbnormalClose p) = given (\<lambda>m. True) p"
| "downmeta_ok (MD_UpstreamResume p) = given (\<lambda>m. True) p"
| "downmeta_ok (MD_UpstreamNormalClose p) = given (\<lambda>m. True) p"
| "downmeta_ok (MD_DownstreamOpen p) = given (\<lambda>m. filters_ok (DownstreamOpen.DownstreamFilters m)) p"
| "downmeta_ok (MD_DownstreamAbnormalClose p) = given (\<lambda>m. True) p"
| "downmeta_ok (MD_DownstreamResume p) = given (\<lambda>m. filters_ok (DownstreamResume.DownstreamFilters m)) p"
| "downmeta_ok (MD_DownstreamNormalClose p) = given (\<lambda>m. True) p"

fun pb_downmeta_ok :: "PbDownstreamMetadata_Metadata \<Rightarrow> bool" where
  "pb_downmeta_ok DownstreamMetadata_nil = True"
| "pb_downmeta_ok (DownstreamMetadata_BaseTime p) = given (\<lambda>m. True) p"
| "pb_downmeta_ok (DownstreamMetadata_UpstreamOpen p) = given (\<lambda>m. True) p"
| "pb_downmeta_ok (DownstreamMetadata_UpstreamAbnormalClose p) = given (\<lambda>m. True) p"
| "pb_downmeta_ok (DownstreamMetadata_UpstreamResume p) = given (\<lambda>m. True) p"
| "pb_downmeta_ok (DownstreamMetadata_UpstreamNormalClose p) = given (\<lambda>m. True) p"
| "pb_downmeta_ok (DownstreamMetadata_DownstreamOpen p) =
     given (\<lambda>m. pb_filters_ok (PbDownstreamOpen.DownstreamFilters m)) p"
| "pb_downmeta_ok (DownstreamMetadata_DownstreamAbnormalClose p) = given (\<lambda>m. True) p"
| "pb_downmeta_ok (DownstreamMetadata_DownstreamResume p) =
     given (\<lambda>m. pb_filters_ok (PbDownstreamResume.DownstreamFilters m)) p"
| "pb_downmeta_ok (DownstreamMetadata_DownstreamNormalClose p) = given (\<lambda>m. True) p"

text \<open>Whole messages: the pointer is given, and so is every pointer the converter follows.\<close>

fun nil_free :: "Message \<Rightarrow> bool" where
  "nil_free M_nil = True"
| "nil_free (M_ConnectRequest p) = (p \<noteq> None)"
| "nil_free (M_ConnectResponse p) = (p \<noteq> None)"
| "nil_free (M_Disconnect p) = (p \<noteq> None)"
| "nil_free (M_UpstreamOpenRequest p) = given (\<lambda>m. nonnil (UpstreamOpenRequest.DataIDs m)) p"
| "nil_free (M_UpstreamOpenResponse p) = given (\<lambda>m. nonnil_map (UpstreamOpenResponse.DataIDAliases m)) p"
| "nil_free (M_UpstreamResumeRequest p) = (p \<noteq> None)"
| "nil_free (M_UpstreamResumeResponse p) = (p \<noteq> None)"
| "nil_free (M_UpstreamCloseRequest p) = (p \<noteq> None)"
| "nil_free (M_UpstreamCloseResponse p) = (p \<noteq> None)"
| "nil_free (M_DownstreamOpenRequest p) = given (\<lambda>m. filters_ok (DownstreamOpenRequest.DownstreamFilters m) \<and> nonnil_map (DownstreamOpenRequest.DataIDAliases m)) p"
| "nil_free (M_DownstreamOpenResponse p) = (p \<noteq> None)"
| "nil_free (M_DownstreamResumeRequest p) = (p \<noteq> None)"
| "nil_free (M_DownstreamResumeResponse p) = (p \<noteq> None)"
| "nil_free (M_DownstreamCloseRequest p) = (p \<noteq> None)"
| "nil_free (M_DownstreamCloseResponse p) = (p \<noteq> None)"
| "nil_free (M_UpstreamCall p) = (p \<noteq> None)"
| "nil_free (M_UpstreamCallAck p) = (p \<noteq> None)"
| "nil_free (M_DownstreamCall p) = (p \<noteq> None)"
| "nil_free (M_Ping p) = (p \<noteq> None)"
| "nil_free (M_Pong p) = (p \<noteq> None)"
| "nil_free (M_UpstreamChunk p) = given (\<lambda>m. nonnil (UpstreamChunk.DataIDs m) \<and> chunk_ok (UpstreamChunk.StreamChunk m)) p"
| "nil_free (M_UpstreamChunkAck p) = given (\<lambda>m. nonnil (UpstreamChunkAck.Results m) \<and> nonnil_map (UpstreamChunkAck.DataIDAliases m)) p"
| "nil_free (M_DownstreamChunk p) = given (\<lambda>m. uoa_ok (DownstreamChunk.UpstreamOrAlias m) \<and> chunk_ok (DownstreamChunk.StreamChunk m)) p"
| "nil_free (M_DownstreamChunkAck p) = given (\<lambda>m. nonnil (DownstreamChunkAck.Results m) \<and> nonnil_map (DownstreamChunkAck.DataIDAliases m)) p"
| "nil_free (M_DownstreamChunkAckComplete p) = (p \<noteq> None)"
| "nil_free (M_UpstreamMetadata p) = given (\<lambda>m. upmeta_ok (UpstreamMetadata.Metadata m)) p"
| "nil_free (M_UpstreamMetadataAck p) = (p \<noteq> None)"
| "nil_free (M_DownstreamMetadata p) = given (\<lambda>m. downmeta_ok (DownstreamMetadata.Metadata m)) p"
| "nil_free (M_DownstreamMetadataAck p) = (p \<noteq> None)"

fun pb_nil_free :: "PbMessage \<Rightarrow> bool" where
  "pb_nil_free Message_nil = True"
| "pb_nil_free (Message_ConnectRequest p) = (p \<noteq> None)"
| "pb_nil_free (Message_ConnectResponse p) = (p \<noteq> None)"
| "pb_nil_free (Message_Disconnect p) = (p \<noteq> None)"
| "pb_nil_free (Message_UpstreamOpenRequest p) = given (\<lambda>m. nonnil (PbUpstreamOpenRequest.DataIds m)) p"
| "pb_nil_free (Message_UpstreamOpenResponse p) = given (\<lambda>m. nonnil_map (PbUpstreamOpenResponse.DataIdAliases m)) p"
| "pb_nil_free (Message_UpstreamResumeRequest p) = (p \<noteq> None)"
| "pb_nil_free (Message_UpstreamResumeResponse p) = (p \<noteq> None)"
| "pb_nil_free (Message_UpstreamCloseRequest p) = (p \<noteq> None)"
| "pb_nil_free (Message_UpstreamCloseResponse p) = (p \<noteq> None)"
| "pb_nil_free (Message_DownstreamOpenRequest p) = given (\<lambda>m. pb_filters_ok (PbDownstreamOpenRequest.DownstreamFilters m) \<and> nonnil_map (PbDownstreamOpenRequest.DataIdAliases m)) p"
| "pb_nil_free (Message_DownstreamOpenResponse p) = (p \<noteq> None)"
| "pb_nil_free (Message_DownstreamResumeRequest p) = (p \<noteq> None)"
| "pb_nil_free (Message_DownstreamResumeResponse p) = (p \<noteq> None)"
| "pb_nil_free (Message_DownstreamCloseRequest p) = (p \<noteq> None)"
| "pb_nil_free (Message_DownstreamCloseResponse p) = (p \<noteq> None)"
| "pb_nil_free (Message_UpstreamCall p) = (p \<noteq> None)"
| "pb_nil_free (Message_UpstreamCallAck p) = (p \<noteq> None)"
| "pb_nil_free (Message_DownstreamCall p) = (p \<noteq> None)"
| "pb_nil_free (Message_Ping p) = (p \<noteq> None)"
| "pb_nil_free (Message_Pong p) = (p \<noteq> None)"
| "pb_nil_free (Message_UpstreamChunk p) = given (\<lambda>m. nonnil (PbUpstreamChunk.DataIds m) \<and> pb_chunk_ok (PbUpstreamChunk.StreamChunk m)) p"
| "pb_nil_free (Message_UpstreamChunkAck p) = given (\<lambda>m. nonnil (PbUpstreamChunkAck.Results m) \<and> nonnil_map (PbUpstreamChunkAck.DataIdAliases m)) p"
| "pb_nil_free (Message_DownstreamChunk p) = given (\<lambda>m. pb_uoa_ok (PbDownstreamChunk.UpstreamOrAlias m) \<and> pb_chunk_ok (PbDownstreamChunk.StreamChunk m)) p"
| "pb_nil_free (Message_DownstreamChunkAck p) = given (\<lambda>m. nonnil (PbDownstreamChunkAck.Results m) \<and> nonnil_map (PbDownstreamChunkAck.DataIdAliases m)) p"
| "pb_nil_free (Message_DownstreamChunkAckComplete p) = (p \<noteq> None)"
| "pb_nil_free (Message_UpstreamMetadata p) = given (\<lambda>m. pb_upmeta_ok (PbUpstreamMetadata.Metadata m)) p"
| "pb_nil_free (Message_UpstreamMetadataAck p) = (p \<noteq> None)"
| "pb_nil_free (Message_DownstreamMetadata p) = given (\<lambda>m. pb_downmeta_ok (PbDownstreamMetadata.Metadata m)) p"
| "pb_nil_free (Message_DownstreamMetadataAck p) = (p \<noteq> None)"

section \<open>What the encoder accepts\<close>

definition known_rc :: "ResultCode \<Rightarrow> bool" where
  "known_rc c \<longleftrightarrow> (case c of ResultCodeOther n \<Rightarrow> False | _ \<Rightarrow> True)"

definition known_qos :: "QoS \<Rightarrow> bool" where
  "known_qos q \<longleftrightarrow> (case q of QoSOther n \<Rightarrow> False | _ \<Rightarrow> True)"

lemma known_simps [simp]:
  "known_qos QoSReliable" "known_qos QoSUnreliable" "known_qos QoSPartial" "\<not> known_qos (QoSOther n)"
  "\<not> known_rc (ResultCodeOther c)" "known_rc ResultCodeSucceeded" "known_rc ResultCodeNormalClosure"
  by (simp_all add: known_qos_def known_rc_def)

definition known_up_results :: "UpstreamChunkResult option list \<Rightarrow> bool" where
  "known_up_results = list_all (\<lambda>p. \<forall>r\<in>set_option p. known_rc (UpstreamChunkResult.ResultCode r))"

definition known_down_results :: "DownstreamChunkResult option list \<Rightarrow> bool" where
  "known_down_results = list_all (\<lambda>p. \<forall>r\<in>set_option p. known_rc (DownstreamChunkResult.ResultCode r))"

fun set_uoa :: "UpstreamOrAlias \<Rightarrow> bool" where
  "set_uoa (UOA_Info i) = True"
| "set_uoa (UOA_Alias a) = True"
| "set_uoa u = False"

definition set_upmeta :: "SendableMetadata \<Rightarrow> bool" where
  "set_upmeta m \<longleftrightarrow> m \<noteq> SM_nil"

fun set_downmeta :: "Metadata \<Rightarrow> bool" where
  "set_downmeta MD_nil = False"
| "set_downmeta (MD_UpstreamOpen p) = given (\<lambda>m. known_qos (UpstreamOpen.QoS m)) p"
| "set_downmeta (MD_UpstreamResume p) = given (\<lambda>m. known_qos (UpstreamResume.QoS m)) p"
| "set_downmeta (MD_DownstreamOpen p) = given (\<lambda>m. known_qos (DownstreamOpen.QoS m)) p"
| "set_downmeta (MD_DownstreamResume p) = given (\<lambda>m. known_qos (DownstreamResume.QoS m)) p"
| "set_downmeta m = True"

text \<open>
  \<open>encodable m\<close>: every result code and QoS is one of the constants, every interface that becomes a
  oneof holds a value the protocol has.
\<close>

fun encodable :: "Message \<Rightarrow> bool" where
  "encodable M_nil = False"
| "encodable (M_ConnectResponse p) = given (\<lambda>m. known_rc (ConnectResponse.ResultCode m)) p"
| "encodable (M_Disconnect p) = given (\<lambda>m. known_rc (Disconnect.ResultCode m)) p"
| "encodable (M_UpstreamOpenRequest p) = given (\<lambda>m. known_qos (UpstreamOpenRequest.QoS m)) p"
| "encodable (M_UpstreamOpenResponse p) = given (\<lambda>m. known_rc (UpstreamOpenResponse.ResultCode m)) p"
| "encodable (M_UpstreamResumeResponse p) = given (\<lambda>m. known_rc (UpstreamResumeResponse.ResultCode m)) p"
| "encodable (M_UpstreamCloseResponse p) = given (\<lambda>m. known_rc (UpstreamCloseResponse.ResultCode m)) p"
| "encodable (M_DownstreamOpenRequest p) = given (\<lambda>m. known_qos (DownstreamOpenRequest.QoS m)) p"
| "encodable (M_DownstreamOpenResponse p) = given (\<lambda>m. known_rc (DownstreamOpenResponse.ResultCode m)) p"
| "encodable (M_DownstreamResumeResponse p) = given (\<lambda>m. known_rc (DownstreamResumeResponse.ResultCode m)) p"
| "encodable (M_DownstreamCloseResponse p) = given (\<lambda>m. known_rc (DownstreamCloseResponse.ResultCode m)) p"
| "encodable (M_UpstreamCallAck p) = given (\<lambda>m. known_rc (UpstreamCallAck.ResultCode m)) p"
| "encodable (M_UpstreamChunkAck p) = given (\<lambda>m. known_up_results (UpstreamChunkAck.Results m)) p"
| "encodable (M_DownstreamChunk None) = True"
| "encodable (M_DownstreamChunk (Some m)) = (set_uoa (DownstreamChunk.UpstreamOrAlias m))"
| "encodable (M_DownstreamChunkAck p) = given (\<lambda>m. known_down_results (DownstreamChunkAck.Results m)) p"
| "encodable (M_DownstreamChunkAckComplete p) = given (\<lambda>m. known_rc (DownstreamChunkAckComplete.ResultCode m)) p"
| "encodable (M_UpstreamMetadata None) = True"
| "encodable (M_UpstreamMetadata (Some m)) = (set_upmeta (UpstreamMetadata.Metadata m))"
| "encodable (M_UpstreamMetadataAck p) = given (\<lambda>m. known_rc (UpstreamMetadataAck.ResultCode m)) p"
| "encodable (M_DownstreamMetadata p) = given (\<lambda>m. set_downmeta (DownstreamMetadata.Metadata m)) p"
| "encodable (M_DownstreamMetadataAck p) = given (\<lambda>m. known_rc (DownstreamMetadataAck.ResultCode m)) p"
| "encodable m = True"

section \<open>The parts\<close>

interpretation rc_enc: fallible toResultCodeProto always "{Malformed}"
proof
  show "e \<in> {Malformed}" if "toResultCodeProto c = Inl e" for c e
    using that by (cases c) auto
qed

interpretation rc_dec: fallible toResultCode always "{Malformed}"
proof
  show "e \<in> {Malformed}" if "toResultCode c = Inl e" for c e
    using that by (cases c) auto
qed

interpretation qos_enc: fallible toQoSProto always "{Malformed}"
proof
  show "e \<in> {Malformed}" if "toQoSProto c = Inl e" for c e
    using that by (cases c) auto
qed

interpretation qos_dec: fallible toQoS always "{Malformed}"
proof
  show "e \<in> {Malformed}" if "toQoS c = Inl e" for c e
    using that by (cases c) auto
qed

interpretation data_id_enc: fallible toDataIDProto always "{}" by unfold_locales (simp add: codec_simps)
interpretation data_id_dec: fallible toDataID always "{}" by unfold_locales (simp add: codec_simps)
interpretation data_point_enc: fallible toDataPointProto always "{}" by unfold_locales (simp add: codec_simps)
interpretation data_point_dec: fallible toDataPoint always "{}" by unfold_locales (simp add: codec_simps)
interpretation data_filter_enc: fallible toDataFilterProto always "{}" by unfold_locales (simp add: codec_simps)
interpretation data_filter_dec: fallible toDataFilter always "{}" by unfold_locales (simp add: codec_simps)

interpretation data_ids_enc: fallible toDataIDsProto nonnil "{}"
  using fallible.list_fallible [OF data_id_enc.ptr_fallible]
  by (simp add: toDataIDsProto_def nonnil_def [abs_def])

interpretation data_ids_dec: fallible toDataIDs nonnil "{}"
  using fallible.list_fallible [OF data_id_dec.ptr_fallible]
  by (simp add: toDataIDs_def nonnil_def [abs_def])

interpretation data_id_aliases_enc: fallible toDataIDAliasesProto nonnil_map "{}"
  unfolding toDataIDAliasesProto_def nonnil_map_def [abs_def]
  by (rule fallible.list_fallible [OF fallible.entry_fallible [OF data_id_enc.ptr_fallible], simplified])

interpretation data_id_aliases_dec: fallible toDataIDAliases nonnil_map "{}"
  unfolding toDataIDAliases_def nonnil_map_def [abs_def]
  by (rule fallible.list_fallible [OF fallible.entry_fallible [OF data_id_dec.ptr_fallible], simplified])

interpretation data_points_enc: fallible toDataPointsProto nonnil "{}"
  using fallible.list_fallible [OF data_point_enc.ptr_fallible]
  by (simp add: toDataPointsProto_def nonnil_def [abs_def])

interpretation data_points_dec: fallible toDataPoints nonnil "{}"
  using fallible.list_fallible [OF data_point_dec.ptr_fallible]
  by (simp add: toDataPoints_def nonnil_def [abs_def])

interpretation data_filters_enc: fallible toDataFiltersProto nonnil "{}"
  using fallible.list_fallible [OF data_filter_enc.ptr_fallible]
  by (simp add: toDataFiltersProto_def nonnil_def [abs_def])

interpretation data_filters_dec: fallible toDataFilters nonnil "{}"
  using fallible.list_fallible [OF data_filter_dec.ptr_fallible]
  by (simp add: toDataFilters_def nonnil_def [abs_def])

interpretation filter_enc: fallible toDownstreamFilterProto "\<lambda>v. nonnil (DownstreamFilter.DataFilters v)" "{}"
  by unfold_locales (auto simp: codec_simps go_simps dest: data_filters_enc.fails)

interpretation filter_dec: fallible toDownstreamFilter "\<lambda>v. nonnil (PbDownstreamFilter.DataFilters v)" "{}"
  by unfold_locales (auto simp: codec_simps go_simps dest: data_filters_dec.fails)

interpretation filters_enc: fallible toDownstreamFiltersProto filters_ok "{}"
  using fallible.list_fallible [OF filter_enc.ptr_fallible]
  by (simp add: toDownstreamFiltersProto_def filters_ok_def given_def [abs_def])

interpretation filters_dec: fallible toDownstreamFilters pb_filters_ok "{}"
  using fallible.list_fallible [OF filter_dec.ptr_fallible]
  by (simp add: toDownstreamFilters_def pb_filters_ok_def given_def [abs_def])

interpretation up_results_enc: fallible toUpstreamDataPointResultsProto nonnil "{Malformed}"
proof -
  have "fallible toUpstreamChunkResultProto always {Malformed}"
    by unfold_locales (auto simp: codec_simps go_simps dest: rc_enc.fails)
  from fallible.list_fallible [OF fallible.ptr_fallible [OF this]]
  show "fallible toUpstreamDataPointResultsProto nonnil {Malformed}"
    by (simp add: toUpstreamDataPointResultsProto_def nonnil_def [abs_def])
qed

interpretation up_results_dec: fallible toUpstreamDataPointResults nonnil "{Malformed}"
proof -
  have "fallible toUpstreamChunkResult always {Malformed}"
    by unfold_locales (auto simp: codec_simps go_simps dest: rc_dec.fails)
  from fallible.list_fallible [OF fallible.ptr_fallible [OF this]]
  show "fallible toUpstreamDataPointResults nonnil {Malformed}"
    by (simp add: toUpstreamDataPointResults_def nonnil_def [abs_def])
qed

interpretation down_results_enc: fallible toDownstreamDataPointResultsProto nonnil "{Malformed}"
proof -
  have "fallible toDownstreamChunkResultProto always {Malformed}"
    by unfold_locales (auto simp: codec_simps go_simps dest: rc_enc.fails)
  from fallible.list_fallible [OF fallible.ptr_fallible [OF this]]
  show "fallible toDownstreamDataPointResultsProto nonnil {Malformed}"
    by (simp add: toDownstreamDataPointResultsProto_def nonnil_def [abs_def])
qed

interpretation must_uuid: fallible "mustUUID L" always "{UUIDMust}"
  by unfold_locales (auto simp: mustUUID_def split: option.splits)

interpretation to_uuid: fallible "toUUID L" always "{Malformed}"
  by unfold_locales (auto simp: toUUID_def split: option.splits)

interpretation down_results_dec: fallible "toDownstreamDataPointResults L" nonnil "{Malformed, UUIDMust}"
proof -
  have "fallible (toDownstreamChunkResult L) always {Malformed, UUIDMust}"
    by unfold_locales (auto simp: codec_simps go_simps dest: rc_dec.fails must_uuid.fails)
  from fallible.list_fallible [OF fallible.ptr_fallible [OF this]]
  show "fallible (toDownstreamDataPointResults L) nonnil {Malformed, UUIDMust}"
    by (simp add: toDownstreamDataPointResults_def nonnil_def [abs_def])
qed

interpretation up_aliases_dec: fallible "toUpstreamAliases L" "list_all (\<lambda>kv. True)" "{UUIDMust}"
proof -
  have "fallible (toUpstreamInfo L) always {UUIDMust}"
    by unfold_locales (auto simp: toUpstreamInfo_def go_simps split: option.splits dest: must_uuid.fails)
  from fallible.list_fallible [OF fallible.entry_fallible [OF this]]
  show "fallible (toUpstreamAliases L) (list_all (\<lambda>kv. True)) {UUIDMust}"
    by (simp add: toUpstreamAliases_def)
qed

interpretation chunk_enc: fallible toStreamChunkProto chunk_ok "{}"
proof -
  have doa: "fallible toDataIDOrAliasProto doa_ok {}"
  proof
    show "e \<in> {}" if "toDataIDOrAliasProto d = Inl e" "doa_ok d" for d e
      using that by (cases d) (auto simp: toDataIDOrAliasProto_def go_simps codec_simps)
  qed
  have "fallible (\<lambda>v. bindE (toDataPointGroupProto v) (\<lambda>dpg. Inr (Some dpg))) group_ok {}"
    by unfold_locales (auto simp: toDataPointGroupProto_def group_ok_def go_simps split: option.splits
        dest: data_points_enc.fails fallible.fails [OF doa])
  from fallible.list_fallible [OF this] show "fallible toStreamChunkProto chunk_ok {}"
    by (auto simp: fallible_def toStreamChunkProto_def chunk_ok_def toDataPointGroupsProto_def go_simps
        split: option.splits)
qed

interpretation chunk_dec: fallible toStreamChunk pb_chunk_ok "{InvalidDataIDOrAlias}"
proof -
  have doa: "fallible toDataIDOrAlias (\<lambda>d. d \<noteq> DataPointGroup_DataId None) {InvalidDataIDOrAlias}"
  proof
    show "e \<in> {InvalidDataIDOrAlias}"
      if "toDataIDOrAlias d = Inl e" "d \<noteq> DataPointGroup_DataId None" for d e
      using that by (cases d) (auto simp: toDataIDOrAlias_def go_simps codec_simps)
  qed
  have "fallible (\<lambda>v. bindE (toDataPointGroup v) (\<lambda>dpg. Inr (Some dpg))) pb_group_ok {InvalidDataIDOrAlias}"
    by unfold_locales (auto simp: toDataPointGroup_def pb_group_ok_def go_simps split: option.splits
        dest: data_points_dec.fails fallible.fails [OF doa])
  from fallible.list_fallible [OF this] show "fallible toStreamChunk pb_chunk_ok {InvalidDataIDOrAlias}"
    by (auto simp: fallible_def toStreamChunk_def pb_chunk_ok_def toDataPointGroups_def go_simps
        split: option.splits)
qed

lemmas enc_fails =
  rc_enc.fails qos_enc.fails data_ids_enc.fails data_id_aliases_enc.fails filters_enc.fails
  up_results_enc.fails down_results_enc.fails chunk_enc.fails

lemmas dec_fails =
  rc_dec.fails qos_dec.fails data_ids_dec.fails data_id_aliases_dec.fails filters_dec.fails
  up_results_dec.fails down_results_dec.fails chunk_dec.fails to_uuid.fails

section \<open>The two switches\<close>

lemma toDownstreamMetadataProto_fails:
  "toDownstreamMetadataProto m = Inl e \<Longrightarrow> downmeta_ok (DownstreamMetadata.Metadata m) \<Longrightarrow> e = Malformed"
  by (cases "DownstreamMetadata.Metadata m")
    (auto simp: given_def go_simps codec_simps toDownstreamMetadataProto_def dest: enc_fails)

lemma toDownstreamMetadata_fails:
  "toDownstreamMetadata L p = Inl e \<Longrightarrow> pb_downmeta_ok (PbDownstreamMetadata.Metadata p) \<Longrightarrow> e = Malformed"
  by (cases "PbDownstreamMetadata.Metadata p")
    (auto simp: given_def go_simps codec_simps toDownstreamMetadata_def dest: dec_fails)

lemma toMetadataUpstream_fails:
  "toMetadataUpstream p = Inl e \<Longrightarrow> pb_upmeta_ok (PbUpstreamMetadata.Metadata p) \<Longrightarrow> e = Malformed"
  by (cases "PbUpstreamMetadata.Metadata p")
    (auto simp: go_simps codec_simps toMetadataUpstream_def pb_upmeta_ok_def)

lemma toUpstreamOrAlias_fails:
  "toUpstreamOrAlias L p = Inl e \<Longrightarrow> pb_uoa_ok (PbDownstreamChunk.UpstreamOrAlias p) \<Longrightarrow> e = Malformed"
  by (cases "PbDownstreamChunk.UpstreamOrAlias p")
    (auto simp: go_simps toUpstreamOrAlias_def pb_uoa_ok_def dest: to_uuid.fails)

lemma connect_ext_fails: "toConnectRequestExtensionFields L p = Inl e \<Longrightarrow> e = Malformed"
  by (auto simp: toConnectRequestExtensionFields_def toIntdashExtensionFields_def go_simps
      split: option.splits)

lemma WireToProto_fails: "WireToProto L m = Inl e \<Longrightarrow> nil_free m \<Longrightarrow> e = Malformed"
  by (cases m)
    (auto simp: given_def go_simps codec_simps toDownstreamChunkProto_def toUpstreamMetadataProto_def
        uoa_ok_def upmeta_ok_def
      split: UpstreamOrAlias.splits SendableMetadata.splits
      dest: enc_fails toDownstreamMetadataProto_fails)

lemma data_ids_enc_total: "nonnil x \<Longrightarrow> \<exists>y. toDataIDsProto x = Inr y"
  by (rule data_ids_enc.total) simp_all

lemma data_id_aliases_enc_total: "nonnil_map x \<Longrightarrow> \<exists>y. toDataIDAliasesProto x = Inr y"
  by (rule data_id_aliases_enc.total) simp_all

lemma filters_enc_total: "filters_ok x \<Longrightarrow> \<exists>y. toDownstreamFiltersProto x = Inr y"
  by (rule filters_enc.total) simp_all

lemma chunk_enc_total: "chunk_ok x \<Longrightarrow> \<exists>y. toStreamChunkProto x = Inr y"
  by (rule chunk_enc.total) simp_all

lemmas enc_total =
  data_ids_enc_total data_id_aliases_enc_total filters_enc_total chunk_enc_total

lemma known_rc_iff: "(\<exists>p. toResultCodeProto c = Inr p) \<longleftrightarrow> known_rc c"
  by (cases c) (auto simp: known_rc_def)

lemma known_qos_iff: "(\<exists>p. toQoSProto c = Inr p) \<longleftrightarrow> known_qos c"
  by (cases c) auto

lemma up_results_iff:
  "nonnil rs \<Longrightarrow> (\<exists>ps. toUpstreamDataPointResultsProto rs = Inr ps) \<longleftrightarrow> known_up_results rs"
  by (induction rs)
    (auto simp: toUpstreamDataPointResultsProto_def known_up_results_def nonnil_def go_simps codec_simps
      known_rc_iff [symmetric])

lemma down_results_iff:
  "nonnil rs \<Longrightarrow> (\<exists>ps. toDownstreamDataPointResultsProto rs = Inr ps) \<longleftrightarrow> known_down_results rs"
  by (induction rs)
    (auto simp: toDownstreamDataPointResultsProto_def known_down_results_def nonnil_def go_simps codec_simps
      known_rc_iff [symmetric])

lemma upmeta_enc_iff:
  "upmeta_ok (UpstreamMetadata.Metadata m) \<Longrightarrow>
    (\<exists>p. toUpstreamMetadataProto (Some m) = Inr p) \<longleftrightarrow> set_upmeta (UpstreamMetadata.Metadata m)"
  by (auto simp: toUpstreamMetadataProto_def upmeta_ok_def set_upmeta_def go_simps codec_simps
      split: SendableMetadata.splits)

lemma downmeta_enc_iff:
  "downmeta_ok (DownstreamMetadata.Metadata m) \<Longrightarrow>
    (\<exists>p. toDownstreamMetadataProto m = Inr p) \<longleftrightarrow> set_downmeta (DownstreamMetadata.Metadata m)"
  by (cases "DownstreamMetadata.Metadata m")
    (auto simp: toDownstreamMetadataProto_def given_def go_simps codec_simps known_qos_iff [symmetric]
      dest: enc_total)

lemma downchunk_enc_iff:
  "chunk_ok (DownstreamChunk.StreamChunk m) \<Longrightarrow> uoa_ok (DownstreamChunk.UpstreamOrAlias m) \<Longrightarrow>
    (\<exists>p. toDownstreamChunkProto (Some m) = Inr p) \<longleftrightarrow> set_uoa (DownstreamChunk.UpstreamOrAlias m)"
  by (cases "DownstreamChunk.UpstreamOrAlias m")
    (auto simp: toDownstreamChunkProto_def uoa_ok_def go_simps dest: enc_total)

lemma nil_downchunk_enc: "\<exists>p. toDownstreamChunkProto None = Inr p"
  by (simp add: toDownstreamChunkProto_def)

lemma nil_upmeta_enc: "\<exists>p. toUpstreamMetadataProto None = Inr p"
  by (simp add: toUpstreamMetadataProto_def)

lemma WireToProto_succeeds:
  assumes "nil_free m"
  shows "(\<exists>p. WireToProto L m = Inr p) \<longleftrightarrow> encodable m"
proof (cases m)
  case (M_DownstreamChunk q)
  with assms show ?thesis
    by (auto simp: given_def go_simps downchunk_enc_iff [symmetric] nil_downchunk_enc)
next
  case (M_UpstreamMetadata q)
  with assms show ?thesis
    by (auto simp: given_def go_simps upmeta_enc_iff [symmetric] nil_upmeta_enc)
next
  case (M_DownstreamMetadata q)
  with assms show ?thesis
    by (auto simp: given_def go_simps downmeta_enc_iff [symmetric])
next
  case (M_UpstreamChunkAck q)
  with assms show ?thesis
    by (auto simp: given_def go_simps codec_simps up_results_iff [symmetric] dest!: enc_total)
next
  case (M_DownstreamChunkAck q)
  with assms show ?thesis
    by (auto simp: given_def go_simps codec_simps down_results_iff [symmetric] dest!: enc_total)
qed (use assms in \<open>auto simp: given_def go_simps codec_simps known_rc_iff [symmetric] known_qos_iff [symmetric]
  dest!: enc_total\<close>)

fun chunk_message :: "PbMessage \<Rightarrow> bool" where
  "chunk_message (Message_UpstreamChunk p) = True"
| "chunk_message (Message_DownstreamChunk p) = True"
| "chunk_message p = False"

fun ack_message :: "PbMessage \<Rightarrow> bool" where
  "ack_message (Message_DownstreamChunkAck p) = True"
| "ack_message p = False"

lemma ProtoToWire_fails:
  "ProtoToWire L p = Inl e \<Longrightarrow> pb_nil_free p \<Longrightarrow>
    e = Malformed \<or> e = InvalidDataIDOrAlias \<and> chunk_message p \<or> e = UUIDMust \<and> ack_message p"
  by (cases p)
    (auto simp: given_def go_simps codec_simps
      dest: dec_fails toDownstreamMetadata_fails toMetadataUpstream_fails toUpstreamOrAlias_fails
        connect_ext_fails down_results_dec.fails up_aliases_dec.fails)

end
