(* ===== verification/Convert_Properties.thy ===== *)
theory Convert_Properties
  imports Codec_Safety
begin

text \<open>
  The properties of the converter (\<open>src/encoding/convert\<close>) and, for their witnesses, a concrete
  instance of the package \<open>uuid\<close> that meets \<open>uuid_lib_ok\<close>.
\<close>

definition sample_uuid_lib :: uuid_lib where
  "sample_uuid_lib =
     \<lparr>FromBytes = (\<lambda>bs. if bs = be_bytes 16 (be_word bs :: uuid) then Some (be_word bs) else None),
      Parse = (\<lambda>s. Some (be_word (map (\<lambda>c. of_nat (of_char c)) s))),
      String = (\<lambda>u. map (\<lambda>b. char_of (unat b)) (be_bytes 16 u))\<rparr>"

lemma sample_uuid_lib_ok: "uuid_lib_ok sample_uuid_lib"
proof -
  have "of_nat (of_char (char_of (unat (b :: u8)) :: char)) = b" for b
    using unsigned_less [of b, where 'a = nat] by simp
  then have "map (\<lambda>c. of_nat (of_char c)) (map (\<lambda>b. char_of (unat b) :: char) bs) = bs" for bs :: bytes
    by (simp add: map_idI)
  then show ?thesis
    by (simp add: uuid_lib_ok_def sample_uuid_lib_def)
qed

definition sample_chunk :: Message where
  "sample_chunk = M_UpstreamChunk (Some
     \<lparr>UpstreamChunk.StreamIDAlias = 1,
      UpstreamChunk.DataIDs = [Some \<lparr>DataID.Name = ''speed'', DataID.Type = ''float64''\<rparr>],
      UpstreamChunk.StreamChunk = Some
        \<lparr>StreamChunk.SequenceNumber = 7,
         StreamChunk.DataPointGroups =
           [Some \<lparr>DataPointGroup.DataIDOrAlias = DOA_AliasPtr (Some 3),
                  DataPointGroup.DataPoints = [Some \<lparr>DataPoint.ElapsedTime = 5, DataPoint.Payload = [1, 2]\<rparr>]\<rparr>]\<rparr>,
      UpstreamChunk.ExtensionFields = Some ()\<rparr>)"

definition sample_pb_chunk :: PbMessage where
  "sample_pb_chunk = Message_UpstreamChunk (Some
     \<lparr>PbUpstreamChunk.StreamIdAlias = 1,
      PbUpstreamChunk.DataIds = [Some \<lparr>PbDataID.Name = ''speed'', PbDataID.Type = ''float64''\<rparr>],
      PbUpstreamChunk.StreamChunk = Some
        \<lparr>PbStreamChunk.SequenceNumber = 7,
         PbStreamChunk.DataPointGroups =
           [Some \<lparr>PbDataPointGroup.DataIdOrAlias = DataPointGroup_DataIdAlias 3,
                  PbDataPointGroup.DataPoints = [Some \<lparr>PbDataPoint.ElapsedTime = 5, PbDataPoint.Payload = [1, 2]\<rparr>]\<rparr>]\<rparr>,
      PbUpstreamChunk.ExtensionFields = Some ()\<rparr>)"

lemma sample_chunk_encoded: "WireToProto L sample_chunk = Inr sample_pb_chunk"
  by (simp add: sample_chunk_def sample_pb_chunk_def codec_simps oneof_def ptr_def toDataIDsProto_def
      toStreamChunkProto_def toDataPointGroupsProto_def toDataPointGroupProto_def toDataIDOrAliasProto_def
      toDataPointsProto_def)

lemma sample_chunk_good: "decodable sample_chunk" "nil_free sample_chunk"
  by (simp_all add: sample_chunk_def good_chunk_def good_group_def given_def nonnil_def chunk_ok_def group_ok_def)







text \<open>
  C28: On a protobuf message without \<open>nil\<close> pointers the decoder's failures are these: an error that
  wraps \<open>ErrMalformedMessage\<close>; for the two chunk messages the data ID error that wraps nothing; and,
  for \<open>DownstreamChunkAck\<close> alone, the panic of \<open>uuid.Must\<close>.
\<close>

theorem decoder_failures:
  assumes "pb_nil_free p" and "ProtoToWire L p = Inl e"
  shows "e = Malformed \<or> e = InvalidDataIDOrAlias \<and> chunk_message p \<or> e = UUIDMust \<and> ack_message p"
  by (rule ProtoToWire_fails [OF assms(2,1)])

definition sample_bad_ack :: "bytes \<Rightarrow> PbMessage" where
  "sample_bad_ack bs = Message_DownstreamChunkAck (Some
     \<lparr>PbDownstreamChunkAck.StreamIdAlias = 1, PbDownstreamChunkAck.AckId = 1,
      PbDownstreamChunkAck.Results =
        [Some \<lparr>PbDownstreamChunkResult.StreamIdOfUpstream = bs,
               PbDownstreamChunkResult.SequenceNumberInUpstream = 1,
               PbDownstreamChunkResult.ResultCode = ResultCode_SUCCEEDED,
               PbDownstreamChunkResult.ResultString = [],
               PbDownstreamChunkResult.ExtensionFields = None\<rparr>],
      PbDownstreamChunkAck.UpstreamAliases = [], PbDownstreamChunkAck.DataIdAliases = [],
      PbDownstreamChunkAck.ExtensionFields = None\<rparr>)"

text \<open>
  A \<open>DownstreamChunkAck\<close> whose result carries a stream id that is not a UUID does not give the
  decoding error the same bytes give everywhere else: it panics in \<open>uuid.Must\<close>. So the panic of
  the previous property does happen.
\<close>

theorem bad_stream_id_panics_in_ack:
  assumes "FromBytes L bs = None"
  shows "ProtoToWire L (sample_bad_ack bs) = Inl UUIDMust \<and> toUUID L bs = Inl Malformed"
  using assms
  by (simp_all add: sample_bad_ack_def codec_simps oneof_def ptr_def toDownstreamDataPointResults_def
      mustUUID_def toUUID_def)

theorem bad_stream_id_panics_in_ack_witness:
  "ProtoToWire sample_uuid_lib (sample_bad_ack [1]) = Inl UUIDMust \<and> toUUID sample_uuid_lib [1] = Inl Malformed"
  by (rule bad_stream_id_panics_in_ack) (simp add: sample_uuid_lib_def numeral_eq_Suc)

theorem decoder_failures_witness: "ack_message (sample_bad_ack [1])"
proof -
  have "pb_nil_free (sample_bad_ack [1])"
    by (simp add: sample_bad_ack_def given_def nonnil_def nonnil_map_def)
  moreover have "ProtoToWire (sample_uuid_lib\<lparr>FromBytes := \<lambda>bs. None\<rparr>) (sample_bad_ack [1]) = Inl UUIDMust"
    by (simp add: sample_bad_ack_def codec_simps oneof_def ptr_def toDownstreamDataPointResults_def mustUUID_def)
  ultimately show ?thesis
    using decoder_failures by blast
qed

end
