(* ===== verification/Negotiation.thy ===== *)
theory Negotiation
  imports Prelude "HOL-Library.List_Lexorder" "HOL-Library.Char_ord" "HOL-Library.Multiset" "HOL-Library.Sublist"
begin

text \<open>
  Negotiation of a transport's parameters: the parameters and their validation
  (\<open>src/transport/negotiation.go\<close>, \<open>dialer.go\<close>), the configuration of the compression they lead to
  (\<open>src/transport/compress\<close>), and the two forms they travel in, the length-prefixed strings of QUIC
  (\<open>src/transport/quic/negotiation.go\<close>) and URL values
  (\<open>src/transport/websocket/negotiation.go\<close>; \<open>webtransport/negotiation.go\<close> has the same text). Of
  \<open>encoding/json\<close> and \<open>unicode/utf8\<close> the model has what these functions use.
\<close>

section \<open>Configuration of the compression\<close>

definition TypePerMessage :: string where "TypePerMessage = ''per-message''"
definition TypeContextTakeOver :: string where "TypeContextTakeOver = ''context-takeover''"

record Config =
  Enable :: bool
  Level :: i64
  DisableContextTakeover :: bool
  WindowBits :: i64

definition Config_Type :: "Config \<Rightarrow> string" where
  "Config_Type c = (if DisableContextTakeover c then TypePerMessage else TypeContextTakeOver)"

datatype go_panic = NegativeShift | SliceBounds

text \<open>\<open>1 << c.WindowBits\<close> on a 64-bit \<open>int\<close>: a negative count panics, a large one gives 0.\<close>

definition WindowSize :: "Config \<Rightarrow> go_panic + i64" where
  "WindowSize c = (if sint (WindowBits c) < 0 then Inl NegativeShift else Inr (push_bit (nat (sint (WindowBits c))) 1))"

section \<open>Parameters\<close>

definition EncodingNameJSON :: string where "EncodingNameJSON = ''json''"
definition EncodingNameProtobuf :: string where "EncodingNameProtobuf = ''proto''"
definition DefaultCompressionLevel :: i64 where "DefaultCompressionLevel = 6"

record NegotiationParams =
  Encoding :: string
  Compress :: string
  CompressLevel :: "i64 option"
  CompressWindowBits :: "i64 option"
  TransportID :: string
  TransportGroupID :: string
  PingInterval :: "i64 option"
  ReadTimeout :: "i64 option"

datatype validate_error =
    UnknownEncoding string
  | UnknownLevel
  | InvalidWindowBits
  | UnknownCompress string
  | PingIntervalNotPositive i64
  | ReadTimeoutNotPositive i64

text \<open>The part of \<open>Validate\<close> that looks at the compression; it fills in the default level.\<close>

definition validate_compress :: "NegotiationParams \<Rightarrow> NegotiationParams \<times> validate_error option" where
  "validate_compress p =
     (if Compress p = [] then (p, None)
      else if Compress p = TypePerMessage \<or> Compress p = TypeContextTakeOver then
        (case CompressLevel p of
           Some l \<Rightarrow>
             if sint l < 0 \<or> 9 < sint l then (p, Some UnknownLevel)
             else (p, (case CompressWindowBits p of
                         Some b \<Rightarrow> if sint b < 0 \<or> 32 < sint b then Some InvalidWindowBits else None
                       | None \<Rightarrow> None))
         | None \<Rightarrow>
             (p\<lparr>CompressLevel := Some DefaultCompressionLevel\<rparr>,
              (case CompressWindowBits p of
                 Some b \<Rightarrow> if sint b < 0 \<or> 32 < sint b then Some InvalidWindowBits else None
               | None \<Rightarrow> None)))
      else (p, Some (UnknownCompress (Compress p))))"

definition Validate :: "NegotiationParams \<Rightarrow> NegotiationParams \<times> validate_error option" where
  "Validate p =
     (if Encoding p \<noteq> [] \<and> Encoding p \<noteq> EncodingNameJSON \<and> Encoding p \<noteq> EncodingNameProtobuf
      then (p, Some (UnknownEncoding (Encoding p)))
      else
        case validate_compress p of
          (p, Some err) \<Rightarrow> (p, Some err)
        | (p, None) \<Rightarrow>
            (case PingInterval p of
               Some i \<Rightarrow>
                 if sint i \<le> 0 then (p, Some (PingIntervalNotPositive i))
                 else (case ReadTimeout p of
                         Some t \<Rightarrow> if sint t \<le> 0 then (p, Some (ReadTimeoutNotPositive t)) else (p, None)
                       | None \<Rightarrow> (p, None))
             | None \<Rightarrow>
                 (case ReadTimeout p of
                    Some t \<Rightarrow> if sint t \<le> 0 then (p, Some (ReadTimeoutNotPositive t)) else (p, None)
                  | None \<Rightarrow> (p, None))))"

definition CompressConfig :: "NegotiationParams \<Rightarrow> Config \<Rightarrow> Config" where
  "CompressConfig p base =
     (case CompressLevel p of
        None \<Rightarrow> base\<lparr>Enable := False\<rparr>
      | Some l \<Rightarrow>
          if l = 0 then base\<lparr>Enable := False\<rparr>
          else
            let base = base\<lparr>Enable := True, Level := l\<rparr>;
                base = (case CompressWindowBits p of None \<Rightarrow> base | Some b \<Rightarrow> base\<lparr>WindowBits := b\<rparr>)
            in if Compress p = TypePerMessage then base\<lparr>DisableContextTakeover := True\<rparr>
               else if Compress p = TypeContextTakeOver then base\<lparr>DisableContextTakeover := False\<rparr>
               else base)"

record DialConfig =
  Address :: string
  DialCompressConfig :: Config  \<comment> \<open>the field \<open>CompressConfig\<close>\<close>
  EncodingName :: string
  DialTransportID :: string
  DialTransportGroupID :: string
  DialPingInterval :: "i64 option"
  DialReadTimeout :: "i64 option"

definition DialConfig_NegotiationParams :: "DialConfig \<Rightarrow> NegotiationParams" where
  "DialConfig_NegotiationParams c =
     \<lparr>Encoding = EncodingName c,
      Compress = Config_Type (DialCompressConfig c),
      CompressLevel = Some (Level (DialCompressConfig c)),
      CompressWindowBits = Some (WindowBits (DialCompressConfig c)),
      TransportID = DialTransportID c,
      TransportGroupID = DialTransportGroupID c,
      PingInterval = DialPingInterval c,
      ReadTimeout = DialReadTimeout c\<rparr>"

section \<open>UTF-8\<close>

text \<open>
  The length of the first well-formed character, 0 if there is none (\<open>utf8.DecodeRune\<close>), the test
  \<open>utf8.Valid\<close>, and the replacement of every ill-formed byte by U+FFFD, which \<open>json.Marshal\<close> does.
\<close>

definition byte_in :: "u8 \<Rightarrow> u8 \<Rightarrow> u8 \<Rightarrow> bool" where
  "byte_in lo hi b \<longleftrightarrow> lo \<le> b \<and> b \<le> hi"

text \<open>The bounds of the second byte, and the length, by the first byte.\<close>

definition rune_start :: "u8 \<Rightarrow> nat \<times> u8 \<times> u8" where
  "rune_start a =
     (if a < 0x80 then (1, 0, 0)
      else if byte_in 0xC2 0xDF a then (2, 0x80, 0xBF)
      else if a = 0xE0 then (3, 0xA0, 0xBF)
      else if a = 0xED then (3, 0x80, 0x9F)
      else if byte_in 0xE1 0xEF a then (3, 0x80, 0xBF)
      else if a = 0xF0 then (4, 0x90, 0xBF)
      else if a = 0xF4 then (4, 0x80, 0x8F)
      else if byte_in 0xF1 0xF3 a then (4, 0x80, 0xBF)
      else (0, 0, 0))"

fun rune_len :: "bytes \<Rightarrow> nat" where
  "rune_len [] = 0"
| "rune_len (a # bs) =
     (case rune_start a of
        (n, lo, hi) \<Rightarrow>
          if n \<le> 1 then n
          else if length bs < n - 1 \<or> \<not> byte_in lo hi (hd bs)
            \<or> \<not> list_all (byte_in 0x80 0xBF) (take (n - 2) (tl bs)) then 0
          else n)"

function utf8_Valid :: "bytes \<Rightarrow> bool" where
  "utf8_Valid bs =
     (if bs = [] then True else if rune_len bs = 0 then False else utf8_Valid (drop (rune_len bs) bs))"
  by auto
termination
  by (relation "measure length") auto

function to_valid :: "bytes \<Rightarrow> bytes" where
  "to_valid bs =
     (if bs = [] then []
      else if rune_len bs = 0 then [0xEF, 0xBF, 0xBD] @ to_valid (tl bs)
      else take (rune_len bs) bs @ to_valid (drop (rune_len bs) bs))"
  by auto
termination
  by (relation "measure length") auto

declare utf8_Valid.simps [simp del] to_valid.simps [simp del]

lemma to_valid_valid: "utf8_Valid bs \<Longrightarrow> to_valid bs = bs"
proof (induction bs rule: utf8_Valid.induct)
  case (1 bs)
  then show ?case
    by (subst to_valid.simps) (auto simp: utf8_Valid.simps [of bs] split: if_splits)
qed

text \<open>Strings and their bytes.\<close>

definition byte_of :: "char \<Rightarrow> u8" where "byte_of c = of_nat (of_char c)"
definition char_of_byte :: "u8 \<Rightarrow> char" where "char_of_byte b = char_of (unat b)"
definition str_bytes :: "string \<Rightarrow> bytes" where "str_bytes s = map byte_of s"
definition bytes_str :: "bytes \<Rightarrow> string" where "bytes_str bs = map char_of_byte bs"

lemma char_of_byte_of [simp]: "char_of_byte (byte_of c) = c"
  by (simp add: char_of_byte_def byte_of_def unsigned_of_nat take_bit_eq_mod)

lemma bytes_str_bytes [simp]: "bytes_str (str_bytes s) = s"
  by (simp add: bytes_str_def str_bytes_def comp_def)

lemma length_str_bytes [simp]: "length (str_bytes s) = length s"
  by (simp add: str_bytes_def)

definition json_string :: "string \<Rightarrow> string" where
  "json_string s = bytes_str (to_valid (str_bytes s))"

lemma json_string_valid: "utf8_Valid (str_bytes s) \<Longrightarrow> json_string s = s"
  by (simp add: json_string_def to_valid_valid)

section \<open>Decimal numbers\<close>

text \<open>\<open>strconv.Itoa\<close>, and \<open>strconv.ParseInt(s, 10, 64)\<close>, which fails out of range.\<close>

definition digit :: "nat \<Rightarrow> char" where "digit n = char_of (48 + n)"

definition digit_value :: "char \<Rightarrow> nat option" where
  "digit_value c = (let k = of_char c in if 48 \<le> k \<and> k \<le> 57 then Some (k - 48) else None)"

function nat_digits :: "nat \<Rightarrow> string" where
  "nat_digits n = (if n < 10 then [digit n] else nat_digits (n div 10) @ [digit (n mod 10)])"
  by auto
termination
  by (relation "measure id") auto

declare nat_digits.simps [simp del]

definition Itoa :: "int \<Rightarrow> string" where
  "Itoa i = (if i < 0 then CHR ''-'' # nat_digits (nat (- i)) else nat_digits (nat i))"

fun parse_digits :: "nat \<Rightarrow> string \<Rightarrow> nat option" where
  "parse_digits n [] = Some n"
| "parse_digits n (c # cs) =
     (case digit_value c of None \<Rightarrow> None | Some d \<Rightarrow> parse_digits (n * 10 + d) cs)"

definition parse_nat :: "string \<Rightarrow> nat option" where
  "parse_nat s = (if s = [] then None else parse_digits 0 s)"

definition ParseInt :: "string \<Rightarrow> i64 option" where
  "ParseInt s =
     (let neg = (s \<noteq> [] \<and> hd s = CHR ''-'');
          body = (if s \<noteq> [] \<and> (hd s = CHR ''-'' \<or> hd s = CHR ''+'') then tl s else s)
      in case parse_nat body of
           None \<Rightarrow> None
         | Some n \<Rightarrow>
             if neg then (if n \<le> 2 ^ 63 then Some (word_of_int (- int n)) else None)
             else if n < 2 ^ 63 then Some (word_of_int (int n)) else None)"

lemma digit_value_digit [simp]: "n < 10 \<Longrightarrow> digit_value (digit n) = Some n"
  by (simp add: digit_value_def digit_def)

lemma parse_digits_append:
  "parse_digits n (cs @ ds) = (case parse_digits n cs of None \<Rightarrow> None | Some m \<Rightarrow> parse_digits m ds)"
  by (induction cs arbitrary: n) (auto split: option.split)

lemma nat_digits_nonempty [simp]: "nat_digits n \<noteq> []"
  by (subst nat_digits.simps) simp

lemma parse_digits_nat_digits: "parse_digits 0 (nat_digits n) = Some n"
proof (induction n rule: nat_digits.induct)
  case (1 n)
  then show ?case
    by (subst nat_digits.simps) (auto simp: parse_digits_append)
qed

lemma hd_nat_digits: "digit_value (hd (nat_digits n)) \<noteq> None"
proof (induction n rule: nat_digits.induct)
  case (1 n)
  then show ?case
    by (subst nat_digits.simps) (auto simp: hd_append)
qed

lemma nat_digits_unsigned: "hd (nat_digits n) \<noteq> CHR ''-''" "hd (nat_digits n) \<noteq> CHR ''+''"
  "hd (nat_digits n) \<noteq> CHR ''n''"
  using hd_nat_digits [of n] by (auto simp: digit_value_def)

lemma ParseInt_Itoa [simp]: "ParseInt (Itoa (sint w)) = Some w"
proof -
  have "- (2 ^ 63) \<le> sint w" "sint w < 2 ^ 63"
    using sint_greater_eq [of w] sint_less [of w] by simp_all
  then have "nat (- sint w) \<le> 2 ^ 63" "nat (sint w) < 2 ^ 63"
    by (simp_all add: nat_le_iff nat_less_iff)
  then show ?thesis
    by (auto simp: ParseInt_def Itoa_def parse_nat_def parse_digits_nat_digits nat_digits_unsigned Let_def)
qed

section \<open>The map of keys and values\<close>

text \<open>
  \<open>MarshalKeyValues\<close>: the entries of the map, one for each field that is not empty. The texts of
  the numbers and of the encodings are plain ASCII; the identifiers are the application's.
\<close>

definition string_entry :: "string \<Rightarrow> string \<Rightarrow> (string \<times> string) list" where
  "string_entry k v = (if v = [] then [] else [(k, json_string v)])"

definition int_entry :: "string \<Rightarrow> i64 option \<Rightarrow> (string \<times> string) list" where
  "int_entry k v = (case v of None \<Rightarrow> [] | Some i \<Rightarrow> [(k, Itoa (sint i))])"

definition MarshalKeyValues :: "NegotiationParams \<Rightarrow> (string \<times> string) list" where
  "MarshalKeyValues p =
     string_entry ''enc'' (Encoding p) @ string_entry ''comp'' (Compress p)
     @ int_entry ''clevel'' (CompressLevel p) @ int_entry ''cwinbits'' (CompressWindowBits p)
     @ string_entry ''tid'' (TransportID p) @ string_entry ''tgid'' (TransportGroupID p)
     @ int_entry ''pinterval'' (PingInterval p) @ int_entry ''rtimeout'' (ReadTimeout p)"

text \<open>
  \<open>json.Unmarshal\<close> finds the field of a key by its exact name, otherwise by its name in folded case:
  ASCII letters without their case, and the two characters U+017F and U+212A, which fold to S and K.
\<close>

function fold_name :: "bytes \<Rightarrow> bytes" where
  "fold_name bs =
     (if bs = [] then []
      else if take 2 bs = [0xC5, 0xBF] then 0x53 # fold_name (drop 2 bs)
      else if take 3 bs = [0xE2, 0x84, 0xAA] then 0x4B # fold_name (drop 3 bs)
      else (if byte_in 0x61 0x7A (hd bs) then hd bs - 0x20 else hd bs) # fold_name (tl bs))"
  by auto
termination
  by (relation "measure length") auto

declare fold_name.simps [simp del]

definition field_names :: "string list" where
  "field_names = [''enc'', ''comp'', ''clevel'', ''cwinbits'', ''tid'', ''tgid'', ''pinterval'', ''rtimeout'']"

definition field_of :: "string \<Rightarrow> string option" where
  "field_of k =
     (if k \<in> set field_names then Some k
      else List.find (\<lambda>f. fold_name (str_bytes f) = fold_name (str_bytes k)) field_names)"

text \<open>
  A number written as a string, the option \<open>string\<close> of the field's tag. An error is kept and
  returned when the whole object has been read; what is left in the parameters then is not modelled.
\<close>

datatype json_error = InvalidNumber

definition quoted_int :: "string \<Rightarrow> json_error + i64 option" where
  "quoted_int s =
     (if s = ''null'' then Inr None
      else if s \<noteq> [] \<and> hd s = CHR ''+'' then Inl InvalidNumber
      else case ParseInt s of None \<Rightarrow> Inl InvalidNumber | Some i \<Rightarrow> Inr (Some i))"

definition store_field :: "string \<Rightarrow> string \<Rightarrow> NegotiationParams \<Rightarrow> json_error + NegotiationParams" where
  "store_field f v p =
     (if f = ''enc'' then Inr (p\<lparr>Encoding := v\<rparr>)
      else if f = ''comp'' then Inr (p\<lparr>Compress := v\<rparr>)
      else if f = ''clevel'' then bindE (quoted_int v) (\<lambda>i. Inr (p\<lparr>CompressLevel := i\<rparr>))
      else if f = ''cwinbits'' then bindE (quoted_int v) (\<lambda>i. Inr (p\<lparr>CompressWindowBits := i\<rparr>))
      else if f = ''tid'' then Inr (p\<lparr>TransportID := v\<rparr>)
      else if f = ''tgid'' then Inr (p\<lparr>TransportGroupID := v\<rparr>)
      else if f = ''pinterval'' then bindE (quoted_int v) (\<lambda>i. Inr (p\<lparr>PingInterval := i\<rparr>))
      else if f = ''rtimeout'' then bindE (quoted_int v) (\<lambda>i. Inr (p\<lparr>ReadTimeout := i\<rparr>))
      else Inr p)"

fun store_all :: "(string \<times> string) list \<Rightarrow> NegotiationParams \<Rightarrow> json_error + NegotiationParams" where
  "store_all [] p = Inr p"
| "store_all ((k, v) # kvs) p =
     bindE (case field_of (json_string k) of None \<Rightarrow> Inr p | Some f \<Rightarrow> store_field f (json_string v) p)
       (store_all kvs)"

text \<open>\<open>json.Marshal\<close> writes the entries of a map in the order of their keys.\<close>

definition UnmarshalKeyValues :: "(string \<times> string) list \<Rightarrow> NegotiationParams \<Rightarrow> json_error + NegotiationParams" where
  "UnmarshalKeyValues keyvals p = store_all (sort_key fst keyvals) p"

section \<open>The binary form of QUIC\<close>

text \<open>
  \<open>Marshal\<close> walks over the entries of the map, in any order; the lengths are cut to 16 bits.
\<close>

definition length_prefixed :: "string \<Rightarrow> bytes" where
  "length_prefixed s = be_bytes 2 (of_nat (length s) :: u16) @ str_bytes s"

definition Marshal :: "(string \<times> string) list \<Rightarrow> bytes" where
  "Marshal keyvals = concat (map (\<lambda>(k, v). length_prefixed k @ length_prefixed v) keyvals)"

text \<open>\<open>io.ReadFull\<close> on a \<open>bytes.Reader\<close>.\<close>

datatype eof_error = EOF | UnexpectedEOF

definition ReadFull :: "nat \<Rightarrow> bytes \<Rightarrow> eof_error + bytes \<times> bytes" where
  "ReadFull n bs =
     (if n \<le> length bs then Inr (take n bs, drop n bs)
      else if bs = [] then Inl EOF else Inl UnexpectedEOF)"

datatype read_error =
    LengthUnread eof_error
  | EmptyKey
  | KeyUnread u16 eof_error
  | KeyNotUTF8
  | ValueUnread u16 eof_error
  | ValueNotUTF8
  | DuplicatedKey string

text \<open>One key or value with its length.\<close>

definition read_key :: "u16 \<Rightarrow> bytes \<Rightarrow> read_error + string \<times> bytes" where
  "read_key keyLen bs =
     (if keyLen = 0 then Inl EmptyKey
      else case ReadFull (unat keyLen) bs of
          Inl err \<Rightarrow> Inl (KeyUnread keyLen err)
        | Inr (keyBuf, bs) \<Rightarrow> if \<not> utf8_Valid keyBuf then Inl KeyNotUTF8 else Inr (bytes_str keyBuf, bs))"

definition read_value :: "bytes \<Rightarrow> read_error + string \<times> bytes" where
  "read_value bs =
     (case ReadFull 2 bs of
        Inl err \<Rightarrow> Inl (LengthUnread err)
      | Inr (lenBuf, bs) \<Rightarrow>
          let valLen = be_word lenBuf :: u16
          in case ReadFull (unat valLen) bs of
               Inl err \<Rightarrow> Inl (ValueUnread valLen err)
             | Inr (valBuf, bs) \<Rightarrow>
                 if \<not> utf8_Valid valBuf then Inl ValueNotUTF8 else Inr (bytes_str valBuf, bs))"

lemma ReadFull_shorter: "ReadFull n bs = Inr (x, bs') \<Longrightarrow> bs' = drop n bs \<and> n \<le> length bs"
  by (auto simp: ReadFull_def split: if_splits)

lemma read_key_shorter: "read_key n bs = Inr (k, bs') \<Longrightarrow> length bs' \<le> length bs"
  by (auto simp: read_key_def dest!: ReadFull_shorter split: if_splits sum.splits)

lemma read_value_shorter: "read_value bs = Inr (v, bs') \<Longrightarrow> length bs' < length bs"
  by (auto simp: read_value_def Let_def dest!: ReadFull_shorter split: if_splits sum.splits) linarith

function readKeyValues_from :: "bytes \<Rightarrow> (string \<times> string) list \<Rightarrow> read_error + (string \<times> string) list" where
  "readKeyValues_from bs keyvals =
     (case ReadFull 2 bs of
        Inl EOF \<Rightarrow> Inr keyvals
      | Inl UnexpectedEOF \<Rightarrow> Inl (LengthUnread UnexpectedEOF)
      | Inr (lenBuf, bs) \<Rightarrow>
          (case read_key (be_word lenBuf) bs of
             Inl err \<Rightarrow> Inl err
           | Inr (key, bs) \<Rightarrow>
               (case read_value bs of
                  Inl err \<Rightarrow> Inl err
                | Inr (val, bs) \<Rightarrow>
                    if map_of keyvals key \<noteq> None then Inl (DuplicatedKey key)
                    else readKeyValues_from bs (keyvals @ [(key, val)]))))"
  by pat_completeness auto
termination
  by (relation "measure (\<lambda>(bs, _). length bs)")
    (auto dest!: ReadFull_shorter read_key_shorter read_value_shorter)

declare readKeyValues_from.simps [simp del]

definition readKeyValues :: "bytes \<Rightarrow> read_error + (string \<times> string) list" where
  "readKeyValues bs = readKeyValues_from bs []"

datatype unmarshal_error = ReadFailed read_error | JSONFailed json_error | EmptyKeyName | NotOneValue string

definition Unmarshal :: "bytes \<Rightarrow> NegotiationParams \<Rightarrow> unmarshal_error + NegotiationParams" where
  "Unmarshal b p =
     (case readKeyValues b of
        Inl err \<Rightarrow> Inl (ReadFailed err)
      | Inr keyvals \<Rightarrow> (case UnmarshalKeyValues keyvals p of Inl err \<Rightarrow> Inl (JSONFailed err) | Inr p \<Rightarrow> Inr p))"

section \<open>URL values\<close>

definition MarshalURLValues :: "(string \<times> string) list \<Rightarrow> (string \<times> string list) list" where
  "MarshalURLValues keyvals = map (\<lambda>(k, v). (k, [v])) keyvals"

fun url_keyvals :: "(string \<times> string list) list \<Rightarrow> unmarshal_error + (string \<times> string) list" where
  "url_keyvals [] = Inr []"
| "url_keyvals ((k, v) # values) =
     (if k = [] then Inl EmptyKeyName
      else if length v \<noteq> 1 then Inl (NotOneValue k)
      else bindE (url_keyvals values) (\<lambda>keyvals. Inr ((k, hd v) # keyvals)))"

definition UnmarshalURLValues :: "(string \<times> string list) list \<Rightarrow> NegotiationParams \<Rightarrow> unmarshal_error + NegotiationParams" where
  "UnmarshalURLValues values p =
     bindE (url_keyvals values)
       (\<lambda>keyvals. case UnmarshalKeyValues keyvals p of Inl err \<Rightarrow> Inl (JSONFailed err) | Inr p \<Rightarrow> Inr p)"

section \<open>Round trips\<close>

definition ascii :: "string \<Rightarrow> bool" where
  "ascii s \<longleftrightarrow> list_all (\<lambda>c. of_char c < (128 :: nat)) s"

lemma utf8_Valid_ascii: "list_all (\<lambda>b. b < 0x80) bs \<Longrightarrow> utf8_Valid bs"
proof (induction bs)
  case (Cons b bs)
  then have "rune_len (b # bs) = 1"
    by (simp add: rune_start_def)
  with Cons show ?case
    by (subst utf8_Valid.simps) simp
qed (simp add: utf8_Valid.simps)

lemma ascii_valid: "ascii s \<Longrightarrow> utf8_Valid (str_bytes s)"
proof (rule utf8_Valid_ascii)
  assume "ascii s"
  then show "list_all (\<lambda>b. b < 0x80) (str_bytes s)"
    by (auto simp: ascii_def str_bytes_def list_all_iff byte_of_def word_less_nat_alt unsigned_of_nat take_bit_eq_mod)
qed

lemma ascii_digits: "ascii (nat_digits n)"
proof (induction n rule: nat_digits.induct)
  case (1 n)
  then show ?case
    by (subst nat_digits.simps) (auto simp: ascii_def digit_def)
qed

lemma Itoa_valid [simp]: "utf8_Valid (str_bytes (Itoa i))"
  using ascii_digits by (intro ascii_valid) (auto simp: Itoa_def ascii_def)

lemma field_names_valid: "k \<in> set field_names \<Longrightarrow> utf8_Valid (str_bytes k) \<and> k \<noteq> [] \<and> length k < 65536"
  by (rule conjI, rule ascii_valid) (auto simp: field_names_def ascii_def)

lemma quoted_int_Itoa [simp]: "quoted_int (Itoa (sint w)) = Inr (Some w)"
proof -
  have "Itoa (sint w) \<noteq> ''null''" "hd (Itoa (sint w)) \<noteq> CHR ''+''"
    using nat_digits_unsigned by (auto simp: Itoa_def dest: arg_cong [of _ _ hd])
  then show ?thesis
    by (simp add: quoted_int_def)
qed

text \<open>An entry the parameters themselves produce, and what it stores.\<close>

definition int_fields :: "string list" where
  "int_fields = [''clevel'', ''cwinbits'', ''pinterval'', ''rtimeout'']"

definition good_entry :: "string \<times> string \<Rightarrow> bool" where
  "good_entry e \<longleftrightarrow> fst e \<in> set field_names \<and> utf8_Valid (str_bytes (snd e)) \<and>
     (fst e \<in> set int_fields \<longrightarrow> (\<exists>i. quoted_int (snd e) = Inr i))"

definition stored :: "string \<times> string \<Rightarrow> NegotiationParams \<Rightarrow> NegotiationParams" where
  "stored e p =
     (let v = snd e; i = projr (quoted_int v)
      in if fst e = ''enc'' then p\<lparr>Encoding := v\<rparr>
         else if fst e = ''comp'' then p\<lparr>Compress := v\<rparr>
         else if fst e = ''clevel'' then p\<lparr>CompressLevel := i\<rparr>
         else if fst e = ''cwinbits'' then p\<lparr>CompressWindowBits := i\<rparr>
         else if fst e = ''tid'' then p\<lparr>TransportID := v\<rparr>
         else if fst e = ''tgid'' then p\<lparr>TransportGroupID := v\<rparr>
         else if fst e = ''pinterval'' then p\<lparr>PingInterval := i\<rparr>
         else p\<lparr>ReadTimeout := i\<rparr>)"

lemma store_field_stored: "good_entry e \<Longrightarrow> store_field (fst e) (snd e) p = Inr (stored e p)"
  by (auto simp: good_entry_def stored_def store_field_def field_names_def int_fields_def)

lemma stored_simps:
  "stored (''enc'', v) p = p\<lparr>Encoding := v\<rparr>"
  "stored (''comp'', v) p = p\<lparr>Compress := v\<rparr>"
  "stored (''clevel'', v) p = p\<lparr>CompressLevel := projr (quoted_int v)\<rparr>"
  "stored (''cwinbits'', v) p = p\<lparr>CompressWindowBits := projr (quoted_int v)\<rparr>"
  "stored (''tid'', v) p = p\<lparr>TransportID := v\<rparr>"
  "stored (''tgid'', v) p = p\<lparr>TransportGroupID := v\<rparr>"
  "stored (''pinterval'', v) p = p\<lparr>PingInterval := projr (quoted_int v)\<rparr>"
  "stored (''rtimeout'', v) p = p\<lparr>ReadTimeout := projr (quoted_int v)\<rparr>"
  by (simp_all add: stored_def)

lemma field_cases:
  "k \<in> set field_names \<Longrightarrow> k = ''enc'' \<or> k = ''comp'' \<or> k = ''clevel'' \<or> k = ''cwinbits'' \<or> k = ''tid'' \<or>
     k = ''tgid'' \<or> k = ''pinterval'' \<or> k = ''rtimeout''"
  by (simp add: field_names_def)

lemma stored_commute:
  assumes "fst e \<in> set field_names" "fst e' \<in> set field_names" "fst e \<noteq> fst e'"
  shows "stored e \<circ> stored e' = stored e' \<circ> stored e"
proof -
  obtain k v k' v' where e: "e = (k, v)" "e' = (k', v')"
    by (cases e; cases e')
  have "stored (k, v) (stored (k', v') p) = stored (k', v') (stored (k, v) p)" for p
    using field_cases [OF assms(1)] field_cases [OF assms(2)] assms(3) unfolding e fst_conv
    by (elim disjE) (simp_all add: stored_simps)
  then show ?thesis
    by (simp add: e fun_eq_iff)
qed

lemma stored_commutes:
  assumes "fst e \<in> set field_names" "fst e' \<in> set field_names" "fst e = fst e' \<Longrightarrow> e = e'"
  shows "stored e \<circ> stored e' = stored e' \<circ> stored e"
proof (cases "e = e'")
  case False
  with assms show ?thesis
    by (intro stored_commute) auto
qed simp

lemma store_all_stored: "list_all good_entry kvs \<Longrightarrow> store_all kvs p = Inr (fold stored kvs p)"
proof (induction kvs arbitrary: p)
  case (Cons e kvs)
  obtain k v where e: "e = (k, v)" by force
  have "k \<in> set field_names" "json_string k = k" "json_string v = v"
    using Cons.prems field_names_valid by (auto simp: e good_entry_def json_string_valid)
  with Cons store_field_stored [of e p] show ?case
    by (simp add: e field_of_def)
qed simp


text \<open>The zero value of the struct.\<close>

definition zero_params :: NegotiationParams where
  "zero_params =
     \<lparr>Encoding = [], Compress = [], CompressLevel = None, CompressWindowBits = None, TransportID = [],
      TransportGroupID = [], PingInterval = None, ReadTimeout = None\<rparr>"

definition valid_strings :: "NegotiationParams \<Rightarrow> bool" where
  "valid_strings p \<longleftrightarrow>
     utf8_Valid (str_bytes (Encoding p)) \<and> utf8_Valid (str_bytes (Compress p)) \<and>
     utf8_Valid (str_bytes (TransportID p)) \<and> utf8_Valid (str_bytes (TransportGroupID p))"

lemma good_string_entry:
  "k \<in> set field_names \<Longrightarrow> k \<notin> set int_fields \<Longrightarrow> utf8_Valid (str_bytes v) \<Longrightarrow> list_all good_entry (string_entry k v)"
  by (simp add: string_entry_def good_entry_def json_string_valid)

lemma good_int_entry: "k \<in> set field_names \<Longrightarrow> list_all good_entry (int_entry k v)"
  by (simp add: int_entry_def good_entry_def split: option.split)

lemma good_entries:
  assumes "valid_strings p"
  shows "list_all good_entry (MarshalKeyValues p)"
proof -
  have names: "''enc'' \<in> set field_names" "''comp'' \<in> set field_names" "''tid'' \<in> set field_names" "''tgid'' \<in> set field_names"
      "''clevel'' \<in> set field_names" "''cwinbits'' \<in> set field_names" "''pinterval'' \<in> set field_names"
      "''rtimeout'' \<in> set field_names"
    by (simp_all add: field_names_def)
  have "''enc'' \<notin> set int_fields" "''comp'' \<notin> set int_fields" "''tid'' \<notin> set int_fields" "''tgid'' \<notin> set int_fields"
    by (simp_all add: int_fields_def)
  with assms names show ?thesis
    unfolding MarshalKeyValues_def valid_strings_def list_all_append
    by (intro conjI good_string_entry good_int_entry) simp_all
qed

lemma distinct_entries: "distinct (map fst (MarshalKeyValues p))"
proof -
  have keys: "subseq (map fst (string_entry k v)) [k]" "subseq (map fst (int_entry k i)) [k]" for k v i
    by (simp_all add: string_entry_def int_entry_def split: option.split)
  have "subseq (map fst (MarshalKeyValues p))
      ([''enc''] @ [''comp''] @ [''clevel''] @ [''cwinbits''] @ [''tid''] @ [''tgid''] @ [''pinterval''] @ [''rtimeout''])"
    unfolding MarshalKeyValues_def map_append by (intro list_emb_append_mono keys)
  then obtain N where N: "map fst (MarshalKeyValues p) =
      nths ([''enc''] @ [''comp''] @ [''clevel''] @ [''cwinbits''] @ [''tid''] @ [''tgid''] @ [''pinterval''] @ [''rtimeout'']) N"
    unfolding subseq_conv_nths by blast
  show ?thesis
    unfolding N by (rule distinct_nthsI) simp
qed

lemma stored_string_entry:
  "valid_strings p \<Longrightarrow> fold stored (string_entry ''enc'' (Encoding p)) q = (if Encoding p = [] then q else q\<lparr>Encoding := Encoding p\<rparr>)"
  "valid_strings p \<Longrightarrow> fold stored (string_entry ''comp'' (Compress p)) q = (if Compress p = [] then q else q\<lparr>Compress := Compress p\<rparr>)"
  "valid_strings p \<Longrightarrow> fold stored (string_entry ''tid'' (TransportID p)) q = (if TransportID p = [] then q else q\<lparr>TransportID := TransportID p\<rparr>)"
  "valid_strings p \<Longrightarrow> fold stored (string_entry ''tgid'' (TransportGroupID p)) q = (if TransportGroupID p = [] then q else q\<lparr>TransportGroupID := TransportGroupID p\<rparr>)"
  by (simp_all add: string_entry_def valid_strings_def json_string_valid stored_simps)

lemma stored_int_entry:
  "fold stored (int_entry ''clevel'' v) q = (if v = None then q else q\<lparr>CompressLevel := v\<rparr>)"
  "fold stored (int_entry ''cwinbits'' v) q = (if v = None then q else q\<lparr>CompressWindowBits := v\<rparr>)"
  "fold stored (int_entry ''pinterval'' v) q = (if v = None then q else q\<lparr>PingInterval := v\<rparr>)"
  "fold stored (int_entry ''rtimeout'' v) q = (if v = None then q else q\<lparr>ReadTimeout := v\<rparr>)"
  by (simp_all add: int_entry_def stored_simps split: option.split)

lemma stored_all_entries:
  assumes "valid_strings p"
  shows "fold stored (MarshalKeyValues p) zero_params = p"
  by (rule NegotiationParams.equality)
    (simp_all add: MarshalKeyValues_def stored_string_entry [OF assms] stored_int_entry zero_params_def)

text \<open>The order in which the entries are met does not matter.\<close>

lemma UnmarshalKeyValues_entries:
  assumes "valid_strings p" and "mset kvs = mset (MarshalKeyValues p)"
  shows "UnmarshalKeyValues kvs zero_params = Inr p"
proof -
  let ?s = "sort_key fst kvs"
  have m: "mset ?s = mset (MarshalKeyValues p)"
    using assms(2) by simp
  have good: "list_all good_entry ?s"
    using good_entries [OF assms(1)] mset_eq_setD [OF m] by (simp add: list_all_iff)
  have "distinct (map fst ?s)"
    using distinct_entries [of p] mset_eq_imp_distinct_iff [of "map fst ?s" "map fst (MarshalKeyValues p)"] m
    by (metis mset_map)
  then have "inj_on fst (set ?s)"
    by (simp add: distinct_map)
  then have "fold stored ?s = fold stored (MarshalKeyValues p)"
    by (intro fold_multiset_equiv m stored_commutes) (use good in \<open>auto simp: list_all_iff good_entry_def dest: inj_onD\<close>)
  then show ?thesis
    using store_all_stored [OF good] stored_all_entries [OF assms(1)] by (simp add: UnmarshalKeyValues_def)
qed

lemma take_length_prefixed:
  "take 2 (length_prefixed s @ rest) = be_bytes 2 (of_nat (length s) :: u16)"
  "drop 2 (length_prefixed s @ rest) = str_bytes s @ rest"
  by (simp_all add: length_prefixed_def)

lemma unat_length: "length s < 65536 \<Longrightarrow> unat (of_nat (length s) :: u16) = length s"
  by (simp add: unsigned_of_nat take_bit_nat_eq_self)

lemma ReadFull_length:
  "ReadFull 2 (length_prefixed s @ rest) = Inr (be_bytes 2 (of_nat (length s) :: u16), str_bytes s @ rest)"
proof -
  have "2 \<le> length (length_prefixed s @ rest)"
    by (simp add: length_prefixed_def)
  then show ?thesis
    by (simp only: ReadFull_def take_length_prefixed if_True)
qed

lemma ReadFull_str: "ReadFull (length s) (str_bytes s @ rest) = Inr (str_bytes s, rest)"
  by (simp add: ReadFull_def)

lemma read_key_back:
  assumes "utf8_Valid (str_bytes k)" "k \<noteq> []" "length k < 65536"
  shows "read_key (of_nat (length k)) (str_bytes k @ rest) = Inr (k, rest)"
proof -
  have "of_nat (length k) \<noteq> (0 :: u16)"
    using unat_length [OF assms(3)] assms(2) by fastforce
  with assms show ?thesis
    by (simp add: read_key_def unat_length ReadFull_str)
qed

lemma read_value_back:
  assumes "utf8_Valid (str_bytes v)" "length v < 65536"
  shows "read_value (length_prefixed v @ rest) = Inr (v, rest)"
  using assms by (simp add: read_value_def ReadFull_length unat_length ReadFull_str)

definition sendable :: "string \<times> string \<Rightarrow> bool" where
  "sendable e \<longleftrightarrow> utf8_Valid (str_bytes (fst e)) \<and> fst e \<noteq> [] \<and> length (fst e) < 65536 \<and>
     utf8_Valid (str_bytes (snd e)) \<and> length (snd e) < 65536"

lemma readKeyValues_back:
  assumes "list_all sendable kvs" and "distinct (map fst (acc @ kvs))"
  shows "readKeyValues_from (Marshal kvs) acc = Inr (acc @ kvs)"
  using assms
proof (induction kvs arbitrary: acc)
  case Nil
  then show ?case
    by (subst readKeyValues_from.simps) (simp add: Marshal_def ReadFull_def)
next
  case (Cons e kvs)
  obtain k v where e: "e = (k, v)" by force
  have m: "Marshal (e # kvs) = length_prefixed k @ length_prefixed v @ Marshal kvs"
    by (simp add: Marshal_def e)
  have "map_of acc k = None"
    using Cons.prems(2) by (simp add: e map_of_eq_None_iff)
  moreover have "readKeyValues_from (Marshal kvs) (acc @ [(k, v)]) = Inr ((acc @ [(k, v)]) @ kvs)"
    using Cons.prems by (intro Cons.IH) (simp_all add: e)
  ultimately show ?case
    using Cons.prems(1)
    by (subst readKeyValues_from.simps)
      (simp add: m [unfolded e] e sendable_def ReadFull_length read_key_back read_value_back)
qed

lemma url_keyvals_back: "list_all (\<lambda>e. fst e \<noteq> []) kvs \<Longrightarrow> url_keyvals (MarshalURLValues kvs) = Inr kvs"
  by (induction kvs) (auto simp: MarshalURLValues_def)

section \<open>Properties\<close>

lemma entries_keys: "e \<in> set (MarshalKeyValues p) \<Longrightarrow> fst e \<in> set field_names"
  by (auto simp: MarshalKeyValues_def string_entry_def int_entry_def field_names_def split: option.splits if_splits)

text \<open>
  C40: The parameters a client writes are the parameters the server reads, whatever the order in which
  the map is walked, through the length-prefixed form of QUIC and through URL values, when their strings are
  valid UTF-8 and shorter than 65536 bytes (the length field is cut to 16 bits without a check).
\<close>

theorem negotiated_params_read_back:
  assumes "valid_strings p" and "mset keyvals = mset (MarshalKeyValues p)"
    and "list_all (\<lambda>e. length (snd e) < 65536) keyvals"
  shows "Unmarshal (Marshal keyvals) zero_params = Inr p \<and>
    UnmarshalURLValues (MarshalURLValues keyvals) zero_params = Inr p"
proof -
  have set: "set keyvals = set (MarshalKeyValues p)"
    using assms(2) by (rule mset_eq_setD)
  have good: "list_all sendable keyvals"
    using good_entries [OF assms(1)] assms(3) field_names_valid
    by (auto simp: list_all_iff sendable_def good_entry_def set)
  moreover have "distinct (map fst keyvals)"
    using distinct_entries [of p] assms(2) by (metis mset_map mset_eq_imp_distinct_iff)
  ultimately have "readKeyValues (Marshal keyvals) = Inr keyvals"
    using readKeyValues_back [of keyvals "[]"] by (simp add: readKeyValues_def)
  moreover have "url_keyvals (MarshalURLValues keyvals) = Inr keyvals"
    using good by (intro url_keyvals_back) (simp add: list_all_iff sendable_def)
  ultimately show ?thesis
    using UnmarshalKeyValues_entries [OF assms(1,2)] by (simp add: Unmarshal_def UnmarshalURLValues_def)
qed

definition sample_dial :: DialConfig where
  "sample_dial =
     \<lparr>Address = ''localhost'', DialCompressConfig = \<lparr>Enable = True, Level = 6, DisableContextTakeover = False, WindowBits = 15\<rparr>,
      EncodingName = EncodingNameProtobuf, DialTransportID = ''a'', DialTransportGroupID = [],
      DialPingInterval = Some 5000, DialReadTimeout = None\<rparr>"

definition sample_params :: NegotiationParams where
  "sample_params = DialConfig_NegotiationParams sample_dial"

lemmas sample_params_defs =
  sample_params_def DialConfig_NegotiationParams_def sample_dial_def Config_Type_def TypeContextTakeOver_def
  EncodingNameProtobuf_def

lemma sample_params_valid: "valid_strings sample_params"
  unfolding valid_strings_def by (intro conjI ascii_valid) (simp_all add: sample_params_defs ascii_def)

lemma sample_entries:
  "mset (rev (MarshalKeyValues sample_params)) = mset (MarshalKeyValues sample_params)"
  "list_all (\<lambda>e. length (snd e) < 65536) (rev (MarshalKeyValues sample_params))"
proof -
  have "json_string ''proto'' = ''proto''" "json_string ''context-takeover'' = ''context-takeover''" "json_string ''a'' = ''a''"
    by (intro json_string_valid ascii_valid; simp add: ascii_def)+
  moreover have "length (Itoa 6) = 1" "length (Itoa 15) = 2" "length (Itoa 5000) = 4"
    by (simp_all add: Itoa_def nat_digits.simps)
  ultimately show "list_all (\<lambda>e. length (snd e) < 65536) (rev (MarshalKeyValues sample_params))"
    by (simp add: MarshalKeyValues_def string_entry_def int_entry_def sample_params_defs)
qed simp

theorem negotiated_params_read_back_witness:
  "Unmarshal (Marshal (rev (MarshalKeyValues sample_params))) zero_params = Inr sample_params \<and>
   UnmarshalURLValues (MarshalURLValues (rev (MarshalKeyValues sample_params))) zero_params = Inr sample_params"
  by (rule negotiated_params_read_back [OF sample_params_valid sample_entries])

text \<open>
  C37: The compression the ends of a transport use. Validated parameters that name a compression determine
  its configuration whatever the two ends configured themselves: level 0 switches it off, any other level is
  between 1 and 9, 6 when none was given, and the context is taken over exactly for that type; the bits of the
  window, between 0 and 32, are each end's own when they were not negotiated.
\<close>

theorem negotiated_compression:
  assumes "Validate p = (p', None)" and "Compress p \<noteq> []"
  shows "\<exists>l. CompressLevel p' = Some l \<and> l = (case CompressLevel p of None \<Rightarrow> 6 | Some l \<Rightarrow> l) \<and>
    0 \<le> sint l \<and> sint l \<le> 9 \<and>
    list_all (\<lambda>b. 0 \<le> sint b \<and> sint b \<le> 32) (case CompressWindowBits p of None \<Rightarrow> [] | Some b \<Rightarrow> [b]) \<and>
    CompressConfig p' base =
      (if l = 0 then base\<lparr>Enable := False\<rparr>
       else \<lparr>Enable = True, Level = l, DisableContextTakeover = (Compress p = TypePerMessage),
             WindowBits = (case CompressWindowBits p of None \<Rightarrow> WindowBits base | Some b \<Rightarrow> b)\<rparr>)"
proof -
  have v: "validate_compress p = (p', None)"
    using assms(1) by (auto simp: Validate_def split: if_splits option.splits prod.splits)
  have t: "TypePerMessage \<noteq> TypeContextTakeOver"
    by (simp add: TypePerMessage_def TypeContextTakeOver_def)
  show ?thesis
    using v assms(2) t
    by (cases "CompressLevel p"; cases "CompressWindowBits p")
      (auto simp: validate_compress_def CompressConfig_def DefaultCompressionLevel_def Let_def split: if_splits)
qed

theorem negotiated_compression_witness:
  "\<exists>l. CompressLevel sample_params = Some l \<and> l = (case CompressLevel sample_params of None \<Rightarrow> 6 | Some l \<Rightarrow> l) \<and>
    0 \<le> sint l \<and> sint l \<le> 9 \<and>
    list_all (\<lambda>b. 0 \<le> sint b \<and> sint b \<le> 32) (case CompressWindowBits sample_params of None \<Rightarrow> [] | Some b \<Rightarrow> [b]) \<and>
    CompressConfig sample_params (DialCompressConfig sample_dial) =
      (if l = 0 then (DialCompressConfig sample_dial)\<lparr>Enable := False\<rparr>
       else \<lparr>Enable = True, Level = l, DisableContextTakeover = (Compress sample_params = TypePerMessage),
             WindowBits = (case CompressWindowBits sample_params of None \<Rightarrow> WindowBits (DialCompressConfig sample_dial) | Some b \<Rightarrow> b)\<rparr>)"
proof (rule negotiated_compression)
  show "Validate sample_params = (sample_params, None)" "Compress sample_params \<noteq> []"
    by (simp_all add: Validate_def validate_compress_def sample_params_defs TypePerMessage_def)
qed

text \<open>
  Without a named compression the level is not checked, and \<open>CompressConfig\<close> switches the compression on
  all the same.
\<close>

theorem unchecked_level:
  assumes "Encoding p = EncodingNameProtobuf" "Compress p = []" "CompressLevel p = Some l" "l \<noteq> 0"
    "PingInterval p = None" "ReadTimeout p = None"
  shows "Validate p = (p, None) \<and> Enable (CompressConfig p base) \<and> Level (CompressConfig p base) = l"
  using assms
  by (auto simp: Validate_def validate_compress_def CompressConfig_def Let_def TypePerMessage_def TypeContextTakeOver_def
      split: option.split)

end
