(* ===== verification/Segment.thy ===== *)
theory Segment
  imports Prelude "HOL-Library.Multiset"
begin

text \<open>
  Segmentation of messages over unreliable datagrams (\<open>src/internal/segment\<close>): \<open>SendTo\<close> cuts a
  message into numbered datagrams, \<open>ReadBuffers\<close> puts them together again. The mutex makes each
  \<open>Receive\<close> and \<open>RemoveExpired\<close> one step; a run is the sequence of these steps, each with the
  time its \<open>timeNow\<close> returned.
\<close>

section \<open>Sending\<close>

definition maxDatagramFrameSize :: nat where "maxDatagramFrameSize = 1196"
definition maxPayloadSize :: nat where "maxPayloadSize = maxDatagramFrameSize - 8"

lemma maxPayloadSize_eq [simp]: "maxPayloadSize = 1188"
  by (simp add: maxPayloadSize_def maxDatagramFrameSize_def)

text \<open>The header (sequence number, largest index, index), then the payload.\<close>

definition datagram :: "u32 \<Rightarrow> u16 \<Rightarrow> u16 \<Rightarrow> bytes \<Rightarrow> bytes" where
  "datagram seqNum segIdx maxIdx msgPayload =
     be_bytes 4 seqNum @ be_bytes 2 maxIdx @ be_bytes 2 segIdx @ msgPayload"

text \<open>
  The interface \<open>Sender\<close> is a function on its own state: \<open>SendDatagram\<close> returns the new state
  and an error, if any. \<open>InvalidMessage\<close> is an error that wraps \<open>transport.ErrInvalidMessage\<close>.
\<close>

datatype 'e send_error = InvalidMessage | SenderError 'e

type_synonym ('w, 'e) sender = "'w \<Rightarrow> bytes \<Rightarrow> 'w \<times> 'e option"

definition send :: "('w, 'e) sender \<Rightarrow> u32 \<Rightarrow> u16 \<Rightarrow> u16 \<Rightarrow> bytes \<Rightarrow> 'w \<Rightarrow> 'w \<times> ('e send_error + nat)" where
  "send wr seqNum segIdx maxIdx msgPayload w =
     (let bs = datagram seqNum segIdx maxIdx msgPayload
      in case wr w bs of
           (w', Some err) \<Rightarrow> (w', Inl (SenderError err))
         | (w', None) \<Rightarrow> (w', Inr (length bs)))"

text \<open>The loop over the segment indices; \<open>sz\<close> is its accumulator \<open>size\<close>.\<close>

fun send_loop ::
    "('w, 'e) sender \<Rightarrow> u32 \<Rightarrow> nat \<Rightarrow> bytes \<Rightarrow> nat list \<Rightarrow> nat \<Rightarrow> 'w \<Rightarrow> 'w \<times> ('e send_error + nat)" where
  "send_loop wr seqNum maxSegIdx msgPayload [] sz w = (w, Inr sz)"
| "send_loop wr seqNum maxSegIdx msgPayload (segIdx # idxs) sz w =
     (let offset = segIdx * maxPayloadSize;
          payload = (if segIdx = maxSegIdx then drop offset msgPayload
                     else take maxPayloadSize (drop offset msgPayload))
      in case send wr seqNum (of_nat segIdx) (of_nat maxSegIdx) payload w of
           (w', Inl err) \<Rightarrow> (w', Inl err)
         | (w', Inr n) \<Rightarrow> send_loop wr seqNum maxSegIdx msgPayload idxs (sz + n) w')"

definition SendTo :: "('w, 'e) sender \<Rightarrow> u32 \<Rightarrow> bytes \<Rightarrow> 'w \<Rightarrow> 'w \<times> ('e send_error + nat)" where
  "SendTo wr seqNum msgPayload w =
     (if length msgPayload \<le> maxPayloadSize then send wr seqNum 0 0 msgPayload w
      else
        let maxSegIdx = length msgPayload div maxPayloadSize
        in if 65535 < maxSegIdx then (w, Inl InvalidMessage)
           else send_loop wr seqNum maxSegIdx msgPayload [0..<Suc maxSegIdx] 0 w)"

section \<open>Receiving\<close>

record ReadBuffer =
  SegCount :: nat
  MsgSize :: nat
  Msgs :: "bytes list"
  ExpiredAt :: time

record ReadBuffers =
  Buffers :: "u32 \<rightharpoonup> ReadBuffer"  \<comment> \<open>the field \<open>ReadBuffer\<close>\<close>
  ReadBufferExpiry :: duration

datatype seg_panic = SliceBounds

definition build :: "ReadBuffer \<Rightarrow> bytes" where
  "build b = concat (Msgs b)"

definition add :: "nat \<Rightarrow> bytes \<Rightarrow> ReadBuffer \<Rightarrow> ReadBuffer \<times> bytes option" where
  "add segIdx bs b =
     (if length (Msgs b) \<le> segIdx then (b, None)
      else
        let b' = b\<lparr>SegCount := SegCount b + 1, MsgSize := MsgSize b + length bs,
                   Msgs := (Msgs b)[segIdx := bs]\<rparr>
        in if length (Msgs b') = SegCount b' then (b', Some (build b')) else (b', None))"

text \<open>The fields of the header.\<close>

definition seq_of :: "bytes \<Rightarrow> u32" where "seq_of bs = be_word (take 4 bs)"
definition max_of :: "bytes \<Rightarrow> u16" where "max_of bs = be_word (take 2 (drop 4 bs))"
definition idx_of :: "bytes \<Rightarrow> u16" where "idx_of bs = be_word (take 2 (drop 6 bs))"

text \<open>
  \<open>make([][]byte, maxSegIdx+1)\<close> adds in \<open>uint16\<close>. \<open>bs[8:]\<close> panics on fewer than 8 bytes. The
  error result is always \<open>nil\<close> and left out.
\<close>

definition Receive :: "time \<Rightarrow> bytes \<Rightarrow> ReadBuffers \<Rightarrow> seg_panic + ReadBuffers \<times> bytes option" where
  "Receive now bs t =
     (if length bs < 8 then Inl SliceBounds
      else
        let seqNum = seq_of bs;
            buf = (case Buffers t seqNum of
                     Some buf \<Rightarrow> buf
                   | None \<Rightarrow> \<lparr>SegCount = 0, MsgSize = 0, Msgs = replicate (unat (max_of bs + 1)) [],
                              ExpiredAt = zero_time\<rparr>);
            buf = buf\<lparr>ExpiredAt := now + sint (ReadBufferExpiry t)\<rparr>
        in case add (unat (idx_of bs)) (drop 8 bs) buf of
             (buf, None) \<Rightarrow> Inr (t\<lparr>Buffers := (Buffers t)(seqNum \<mapsto> buf)\<rparr>, None)
           | (buf, Some m) \<Rightarrow> Inr (t\<lparr>Buffers := (Buffers t)(seqNum := None)\<rparr>, Some m))"

definition RemoveExpired :: "time \<Rightarrow> ReadBuffers \<Rightarrow> ReadBuffers" where
  "RemoveExpired now b =
     b\<lparr>Buffers := (\<lambda>k. case Buffers b k of
          None \<Rightarrow> None
        | Some v \<Rightarrow> if ExpiredAt v < now then None else Some v)\<rparr>"

text \<open>A run of the receiver: what each received datagram delivered, in order.\<close>

datatype seg_step = Recv time bytes | Tick time

fun seg_run :: "seg_step list \<Rightarrow> ReadBuffers \<Rightarrow> seg_panic + ReadBuffers \<times> (u32 \<times> bytes option) list" where
  "seg_run [] t = Inr (t, [])"
| "seg_run (Recv now bs # es) t =
     bindE (Receive now bs t) (\<lambda>(t', m).
     bindE (seg_run es t') (\<lambda>(t'', ms). Inr (t'', (seq_of bs, m) # ms)))"
| "seg_run (Tick now # es) t = seg_run es (RemoveExpired now t)"

text \<open>What was delivered for one sequence number.\<close>

definition delivered :: "u32 \<Rightarrow> (u32 \<times> bytes option) list \<Rightarrow> bytes option list" where
  "delivered k ms = map snd (filter (\<lambda>d. fst d = k) ms)"

section \<open>What the sender sends\<close>

text \<open>The segments of a message, as the receiver will see them.\<close>

definition seg_count :: "bytes \<Rightarrow> nat" where
  "seg_count p = (if length p \<le> 1188 then 1 else length p div 1188 + 1)"

definition seg_payload :: "bytes \<Rightarrow> nat \<Rightarrow> bytes" where
  "seg_payload p i = take 1188 (drop (i * 1188) p)"

definition segments :: "u32 \<Rightarrow> bytes \<Rightarrow> bytes list" where
  "segments k p =
     map (\<lambda>i. datagram k (of_nat i) (of_nat (seg_count p - 1)) (seg_payload p i)) [0..<seg_count p]"

lemma concat_chunks: "concat (map (\<lambda>i. take n (drop (i * n) p)) [0..<k]) = take (k * n) p"
proof (induction k)
  case (Suc k)
  then show ?case by (simp add: take_add add.commute [of n])
qed simp

lemma last_bound: "length p \<le> length p div 1188 * 1188 + 1188"
proof -
  have "length p = length p div 1188 * 1188 + length p mod 1188"
    by (rule div_mult_mod_eq [symmetric])
  moreover have "length p mod 1188 < 1188"
    by simp
  ultimately show ?thesis
    by linarith
qed

lemma concat_segments: "concat (map (seg_payload p) [0..<seg_count p]) = p"
proof -
  have "length p \<le> seg_count p * 1188"
    using last_bound [of p] by (simp add: seg_count_def)
  then show ?thesis
    by (simp add: seg_payload_def [abs_def] concat_chunks)
qed

lemma last_payload: "1188 < length p \<Longrightarrow> drop (length p div 1188 * 1188) p = seg_payload p (length p div 1188)"
proof -
  have "length p - length p div 1188 * 1188 \<le> 1188"
    using last_bound [of p] by simp
  then show ?thesis
    by (simp add: seg_payload_def)
qed

lemma length_datagram [simp]: "length (datagram k i m bs) = length bs + 8"
  by (simp add: datagram_def)

lemma header_datagram [simp]:
  "seq_of (datagram k i m bs) = k" "max_of (datagram k i m bs) = m" "idx_of (datagram k i m bs) = i"
  "drop 8 (datagram k i m bs) = bs"
  by (simp_all add: datagram_def seq_of_def max_of_def idx_of_def)

text \<open>A sender that takes every datagram and remembers it.\<close>

definition collect :: "(bytes list, 'e) sender" where
  "collect w bs = (w @ [bs], None)"

lemma send_loop_collect:
  assumes "1188 < length p" and m: "m = length p div 1188" and "m < 65536"
  shows "i \<le> Suc m \<Longrightarrow>
    send_loop (collect :: (bytes list, 'e) sender) k m p [i..<Suc m] n w =
      (w @ map (\<lambda>i. datagram k (of_nat i) (of_nat m) (seg_payload p i)) [i..<Suc m],
       Inr (n + sum_list (map (\<lambda>i. length (seg_payload p i) + 8) [i..<Suc m])))"
proof (induction "Suc m - i" arbitrary: i n w)
  case 0
  then show ?case by simp
next
  case (Suc j)
  then have i: "i \<le> m" and step: "[i..<Suc m] = i # [Suc i..<Suc m]"
    by (auto simp: upt_conv_Cons)
  have pay: "(if i = m then drop (i * 1188) p else take 1188 (drop (i * 1188) p)) = seg_payload p i"
    using last_payload [OF assms(1)] m by (simp add: seg_payload_def)
  have ih: "send_loop (collect :: (bytes list, 'e) sender) k m p [Suc i..<Suc m] n' w' =
      (w' @ map (\<lambda>i. datagram k (of_nat i) (of_nat m) (seg_payload p i)) [Suc i..<Suc m],
       Inr (n' + sum_list (map (\<lambda>i. length (seg_payload p i) + 8) [Suc i..<Suc m])))" for n' and w' :: "bytes list"
    using Suc.hyps(2) i by (intro Suc.hyps(1)) auto
  show ?case
    unfolding step send_loop.simps Let_def maxPayloadSize_eq pay
    by (simp add: send_def collect_def ih del: upt_Suc)
qed

lemma sum_payloads: "sum_list (map (\<lambda>i. length (seg_payload p i) + 8) [0..<seg_count p]) = length p + 8 * seg_count p"
proof -
  have "length p = sum_list (map (\<lambda>i. length (seg_payload p i)) [0..<seg_count p])"
    using arg_cong [OF concat_segments [of p], of length] by (simp add: length_concat comp_def)
  then show ?thesis
    by (simp add: sum_list_addf sum_list_triv)
qed

lemma SendTo_collect:
  assumes "length p div 1188 < 65536"
  shows "SendTo (collect :: (bytes list, 'e) sender) k p w = (w @ segments k p, Inr (length p + 8 * seg_count p))"
proof (cases "length p \<le> 1188")
  case True
  then show ?thesis
    by (simp add: SendTo_def send_def collect_def segments_def seg_count_def seg_payload_def)
next
  case False
  then have c: "seg_count p = Suc (length p div 1188)"
    by (simp add: seg_count_def)
  show ?thesis
    using False assms send_loop_collect [of p "length p div 1188" 0 k 0 w] sum_payloads [of p]
    by (simp add: SendTo_def segments_def c Let_def del: upt_Suc)
qed

section \<open>One message at the receiver\<close>

text \<open>
  The slot of one sequence number. \<open>Receive\<close> reads and writes the slot of its datagram's number
  and no other; a step on the slot alone is \<open>slot_step\<close>.
\<close>

definition slot_step ::
    "duration \<Rightarrow> time \<Rightarrow> bytes \<Rightarrow> ReadBuffer option \<Rightarrow> ReadBuffer option \<times> bytes option" where
  "slot_step expiry now bs slot =
     (let buf = (case slot of
                   Some buf \<Rightarrow> buf
                 | None \<Rightarrow> \<lparr>SegCount = 0, MsgSize = 0, Msgs = replicate (unat (max_of bs + 1)) [],
                            ExpiredAt = zero_time\<rparr>)\<lparr>ExpiredAt := now + sint expiry\<rparr>
      in case add (unat (idx_of bs)) (drop 8 bs) buf of
           (buf, None) \<Rightarrow> (Some buf, None)
         | (buf, Some m) \<Rightarrow> (None, Some m))"

definition expire :: "time \<Rightarrow> ReadBuffer option \<Rightarrow> ReadBuffer option" where
  "expire now slot = (case slot of None \<Rightarrow> None | Some v \<Rightarrow> if ExpiredAt v < now then None else Some v)"

lemma Receive_slot:
  assumes "8 \<le> length bs"
  shows "Receive now bs t =
    (case slot_step (ReadBufferExpiry t) now bs (Buffers t (seq_of bs)) of
       (slot, m) \<Rightarrow> Inr (t\<lparr>Buffers := (Buffers t)(seq_of bs := slot)\<rparr>, m))"
  using assms by (auto simp: Receive_def slot_step_def Let_def split: prod.splits option.splits)

lemma RemoveExpired_slot: "Buffers (RemoveExpired now t) k = expire now (Buffers t k)"
  by (simp add: RemoveExpired_def expire_def)

text \<open>The run as one sequence number sees it.\<close>

fun slot_run ::
    "u32 \<Rightarrow> duration \<Rightarrow> seg_step list \<Rightarrow> ReadBuffer option \<Rightarrow> ReadBuffer option \<times> bytes option list" where
  "slot_run k d [] slot = (slot, [])"
| "slot_run k d (Recv now bs # es) slot =
     (if seq_of bs = k then
        case slot_step d now bs slot of
          (slot', m) \<Rightarrow> (case slot_run k d es slot' of (slot'', ms) \<Rightarrow> (slot'', m # ms))
      else slot_run k d es slot)"
| "slot_run k d (Tick now # es) slot = slot_run k d es (expire now slot)"

fun well_sized :: "seg_step \<Rightarrow> bool" where
  "well_sized (Recv now bs) = (8 \<le> length bs)"
| "well_sized (Tick now) = True"

text \<open>Runs never fail on datagrams of at least 8 bytes, and sequence numbers do not interfere.\<close>

lemma seg_run_slot:
  assumes "list_all well_sized es"
  shows "\<exists>t' ms. seg_run es t = Inr (t', ms) \<and> ReadBufferExpiry t' = ReadBufferExpiry t \<and>
    (Buffers t' k, delivered k ms) = slot_run k (ReadBufferExpiry t) es (Buffers t k)"
  using assms
proof (induction es arbitrary: t)
  case Nil
  then show ?case by (simp add: delivered_def)
next
  case (Cons e es)
  show ?case
  proof (cases e)
    case (Tick now)
    with Cons.IH [of "RemoveExpired now t"] Cons.prems show ?thesis
      by (auto simp: RemoveExpired_def expire_def)
  next
    case (Recv now bs)
    obtain slot m where s: "slot_step (ReadBufferExpiry t) now bs (Buffers t (seq_of bs)) = (slot, m)"
      by force
    define t' where "t' = t\<lparr>Buffers := (Buffers t)(seq_of bs := slot)\<rparr>"
    have r: "Receive now bs t = Inr (t', m)"
      using Cons.prems Recv s by (simp add: Receive_slot t'_def)
    from Cons.IH [of t'] Cons.prems obtain t'' ms where
      "seg_run es t' = Inr (t'', ms)" "ReadBufferExpiry t'' = ReadBufferExpiry t"
      "(Buffers t'' k, delivered k ms) = slot_run k (ReadBufferExpiry t) es (Buffers t' k)"
      by (auto simp: t'_def)
    with r s show ?thesis
      by (cases "seq_of bs = k") (auto simp: Recv delivered_def t'_def split: prod.splits)
  qed
qed


section \<open>Reassembly\<close>

text \<open>The datagrams of one sequence number in a run, and the times of its steps.\<close>

fun own :: "u32 \<Rightarrow> seg_step list \<Rightarrow> bytes list" where
  "own k [] = []"
| "own k (Recv now bs # es) = (if seq_of bs = k then bs # own k es else own k es)"
| "own k (Tick now # es) = own k es"

text \<open>No tick is later than \<open>T\<close>, which no datagram of \<open>k\<close> has expired by.\<close>

fun in_time :: "u32 \<Rightarrow> duration \<Rightarrow> time \<Rightarrow> seg_step \<Rightarrow> bool" where
  "in_time k d T (Recv now bs) = (seq_of bs = k \<longrightarrow> T \<le> now + sint d)"
| "in_time k d T (Tick now) = (now \<le> T)"

definition idx :: "bytes \<Rightarrow> nat" where "idx bs = unat (idx_of bs)"

text \<open>The slot when the segments with indices in \<open>S\<close> have arrived.\<close>

definition slot_inv :: "bytes \<Rightarrow> time \<Rightarrow> nat set \<Rightarrow> ReadBuffer option \<Rightarrow> bool" where
  "slot_inv p T S slot \<longleftrightarrow>
     (if S = {} \<or> S = {..<seg_count p} then slot = None
      else \<exists>b. slot = Some b \<and> T \<le> ExpiredAt b \<and> SegCount b = card S \<and>
        Msgs b = map (\<lambda>i. if i \<in> S then seg_payload p i else []) [0..<seg_count p])"

lemma unat_u16: "i < 65536 \<Longrightarrow> unat (of_nat i :: u16) = i"
  by (simp add: unsigned_of_nat take_bit_nat_eq_self)

lemma seg_count_pos [simp]: "0 < seg_count p" "seg_count p \<noteq> 0"
  by (simp_all add: seg_count_def)

lemma in_segments:
  assumes "bs \<in> set (segments k p)" and "seg_count p \<le> 65536"
  shows "seq_of bs = k" "max_of bs = of_nat (seg_count p - 1)" "idx bs < seg_count p"
    "drop 8 bs = seg_payload p (idx bs)" "8 \<le> length bs"
  using assms by (auto simp: segments_def idx_def unat_u16)

lemma idx_segments: "seg_count p \<le> 65536 \<Longrightarrow> map idx (segments k p) = [0..<seg_count p]"
  by (intro nth_equalityI) (auto simp: segments_def idx_def unat_u16)

lemma slot_inv_step:
  assumes inv: "slot_inv p T S slot" and sub: "S \<subset> {..<seg_count p}"
    and bs: "bs \<in> set (segments k p)" and new: "idx bs \<notin> S"
    and small: "seg_count p \<le> 65535" and T: "T \<le> now + sint d"
    and step: "slot_step d now bs slot = (slot', m)"
  shows "slot_inv p T (insert (idx bs) S) slot' \<and> m = (if insert (idx bs) S = {..<seg_count p} then Some p else None)"
proof -
  let ?N = "seg_count p" and ?i = "idx bs"
  note seg = in_segments [OF bs]
  have fin: "finite S"
    using sub finite_subset by blast
  have i: "?i < ?N"
    using seg(3) small by simp
  have make: "unat (max_of bs + 1) = ?N"
  proof -
    have "(of_nat (?N - 1) + 1 :: u16) = of_nat ?N"
      by (metis Suc_pred' add.commute of_nat_Suc seg_count_pos(1))
    with seg(2) small show ?thesis
      by (simp add: unat_u16)
  qed
  define b0 where "b0 = (case slot of Some buf \<Rightarrow> buf
    | None \<Rightarrow> \<lparr>SegCount = 0, MsgSize = 0, Msgs = replicate (unat (max_of bs + 1)) [], ExpiredAt = zero_time\<rparr>)
      \<lparr>ExpiredAt := now + sint d\<rparr>"
  have b0: "SegCount b0 = card S" "Msgs b0 = map (\<lambda>i. if i \<in> S then seg_payload p i else []) [0..<?N]"
      "T \<le> ExpiredAt b0"
    using inv sub T by (auto simp: b0_def slot_inv_def make map_replicate_const split: if_splits)
  have msgs: "(Msgs b0)[?i := drop 8 bs] = map (\<lambda>i. if i \<in> insert ?i S then seg_payload p i else []) [0..<?N]"
    using i seg(4) small by (intro nth_equalityI) (auto simp: b0 nth_list_update)
  have card: "card (insert ?i S) = SegCount b0 + 1"
    using new fin by (simp add: b0)
  have full: "insert ?i S = {..<?N} \<longleftrightarrow> ?N = SegCount b0 + 1"
    using card_seteq [of "{..<?N}" "insert ?i S"] sub i card by auto
  define b1 where "b1 = b0\<lparr>SegCount := SegCount b0 + 1, MsgSize := MsgSize b0 + length (drop 8 bs),
      Msgs := (Msgs b0)[?i := drop 8 bs]\<rparr>"
  have add: "add ?i (drop 8 bs) b0 = (b1, if insert ?i S = {..<?N} then Some (build b1) else None)"
    using i full by (simp add: add_def b0 b1_def Let_def)
  have "slot_step d now bs slot =
      (if insert ?i S = {..<?N} then None else Some b1, if insert ?i S = {..<?N} then Some (build b1) else None)"
    using add by (simp add: slot_step_def b0_def idx_def Let_def split: if_split)
  moreover have "build b1 = p" if "insert ?i S = {..<?N}"
  proof -
    have "map (\<lambda>i. if i \<in> insert ?i S then seg_payload p i else []) [0..<?N] = map (seg_payload p) [0..<?N]"
      unfolding that by (rule map_cong) auto
    moreover have "Msgs b1 = (Msgs b0)[?i := drop 8 bs]"
      by (simp add: b1_def)
    ultimately show ?thesis
      by (simp only: build_def msgs concat_segments)
  qed
  ultimately show ?thesis
    using step b0 card msgs by (auto simp: slot_inv_def b1_def split: if_splits)
qed

lemma slot_run_reassembles:
  assumes "slot_inv p T S slot" and "S \<subseteq> {..<seg_count p}"
    and "set (own k es) \<subseteq> set (segments k p)" and "distinct (map idx (own k es))"
    and "idx ` set (own k es) = {..<seg_count p} - S"
    and "seg_count p \<le> 65535" and "list_all (in_time k d T) es"
  shows "slot_run k d es slot =
    (None, if own k es = [] then [] else replicate (length (own k es) - 1) None @ [Some p])"
  using assms
proof (induction es arbitrary: S slot)
  case Nil
  then have "S = {..<seg_count p}" by auto
  with Nil show ?case by (simp add: slot_inv_def)
next
  case (Cons e es)
  show ?case
  proof (cases e)
    case (Tick now)
    with Cons.prems have "slot_inv p T S (expire now slot)"
      by (auto simp: slot_inv_def expire_def split: if_splits)
    with Cons.prems Cons.IH [of S "expire now slot"] Tick show ?thesis
      by simp
  next
    case (Recv now bs)
    show ?thesis
    proof (cases "seq_of bs = k")
      case False
      with Cons.prems Cons.IH [of S slot] Recv show ?thesis
        by simp
    next
      case True
      obtain slot' m where step: "slot_step d now bs slot = (slot', m)"
        by force
      have bs: "bs \<in> set (segments k p)" "idx bs \<notin> S" "S \<subset> {..<seg_count p}" "T \<le> now + sint d"
        using Cons.prems True Recv by auto
      let ?S = "insert (idx bs) S"
      from slot_inv_step [OF Cons.prems(1) bs(3,1,2) Cons.prems(6) bs(4) step]
      have inv: "slot_inv p T ?S slot'" and m: "m = (if ?S = {..<seg_count p} then Some p else None)"
        by auto
      have rest: "idx ` set (own k es) = {..<seg_count p} - ?S"
      proof -
        have "idx bs \<notin> idx ` set (own k es)" "insert (idx bs) (idx ` set (own k es)) = {..<seg_count p} - S"
          using Cons.prems(4,5) True Recv by auto
        then show ?thesis by blast
      qed
      have sub: "?S \<subseteq> {..<seg_count p}"
        using Cons.prems(2,5) True Recv by auto
      have ih: "slot_run k d es slot' =
          (None, if own k es = [] then [] else replicate (length (own k es) - 1) None @ [Some p])"
        using Cons.prems True Recv by (intro Cons.IH [OF inv sub _ _ rest]) auto
      have "own k es = [] \<longleftrightarrow> ?S = {..<seg_count p}"
        using rest sub by auto
      with ih m step True Recv show ?thesis
        by (cases "own k es") auto
    qed
  qed
qed

lemma seg_reassembles:
  assumes "length p div 1188 < 65535" and "Buffers t k = None" and "list_all well_sized es"
    and "mset (own k es) = mset (fst (SendTo (collect :: (bytes list, 'e) sender) k p []))"
    and "list_all (in_time k (ReadBufferExpiry t) T) es"
  shows "\<exists>t' ms. seg_run es t = Inr (t', ms) \<and> Buffers t' k = None \<and>
    delivered k ms = replicate (seg_count p - 1) None @ [Some p]"
proof -
  have n: "seg_count p \<le> 65535"
    using assms(1) by (simp add: seg_count_def)
  have perm: "mset (own k es) = mset (segments k p)"
    using assms(1,4) by (simp add: SendTo_collect)
  have idxs: "mset (map idx (own k es)) = mset [0..<seg_count p]"
    using arg_cong [OF perm, of "image_mset idx"] n by (simp add: idx_segments [symmetric, of p k])
  then have "distinct (map idx (own k es))" "idx ` set (own k es) = {..<seg_count p} - {}"
    using mset_eq_imp_distinct_iff [OF idxs] mset_eq_setD [OF idxs] by auto
  moreover have "set (own k es) \<subseteq> set (segments k p)" "length (own k es) = seg_count p"
    using mset_eq_setD [OF perm] mset_eq_length [OF perm] by (auto simp: segments_def)
  ultimately have "slot_run k (ReadBufferExpiry t) es None = (None, replicate (seg_count p - 1) None @ [Some p])"
    using slot_run_reassembles [of p T "{}" None k es] n assms(5) by (auto simp: slot_inv_def)
  with seg_run_slot [OF assms(3), of t k] assms(2) show ?thesis
    by auto
qed


section \<open>Properties\<close>

text \<open>
  C18: Every message of fewer than 65535 * 1188 bytes is delivered, exactly once and unchanged, when
  all its datagrams arrive, in any order and mixed with any datagrams of other messages, provided
  no expiry sweep runs later than a datagram's expiry. Every earlier datagram delivers nothing,
  and the message leaves no buffer behind.
\<close>

theorem datagrams_reassemble:
  assumes "length p div 1188 < 65535" and "Buffers t k = None" and "list_all well_sized es"
    and "mset (own k es) = mset (fst (SendTo (collect :: (bytes list, 'e) sender) k p []))"
    and "list_all (in_time k (ReadBufferExpiry t) T) es"
  shows "\<exists>t' ms. seg_run es t = Inr (t', ms) \<and> Buffers t' k = None \<and>
    delivered k ms = replicate (seg_count p - 1) None @ [Some p]"
  using assms by (rule seg_reassembles)

definition sample_state :: ReadBuffers where
  "sample_state = \<lparr>Buffers = (\<lambda>k. None), ReadBufferExpiry = 100\<rparr>"

theorem datagrams_reassemble_witness:
  "\<exists>t' ms. seg_run
      [Recv 10 (datagram 5 1 1 (replicate 12 7)), Recv 20 (datagram 6 0 0 [9]), Tick 30,
       Recv 40 (datagram 5 0 1 (replicate 1188 7))] sample_state = Inr (t', ms) \<and>
    Buffers t' 5 = None \<and>
    delivered 5 ms = replicate (seg_count (replicate 1200 7) - 1) None @ [Some (replicate 1200 7)]"
  by (rule datagrams_reassemble [where T = 30 and 'e = unit])
    (simp_all add: sample_state_def SendTo_collect segments_def seg_count_def seg_payload_def upt_rec numeral_eq_Suc [of num.One])

text \<open>
  What \<open>SendTo\<close> hands to a sender that takes everything: the segments in order, none larger
  than the datagram frame of 1196 bytes, whose payloads are the message; the size it reports is the
  message plus 8 bytes per datagram. A message of more than 65535 full payloads is refused before
  anything is sent.
\<close>

theorem SendTo_outcome:
  "SendTo (collect :: (bytes list, 'e) sender) k p w =
     (if length p div 1188 \<le> 65535 then (w @ segments k p, Inr (length p + 8 * seg_count p))
      else (w, Inl InvalidMessage)) \<and>
   list_all (\<lambda>d. length d \<le> maxDatagramFrameSize) (segments k p) \<and>
   concat (map (drop 8) (segments k p)) = p"
proof (intro conjI)
  show "SendTo (collect :: (bytes list, 'e) sender) k p w =
     (if length p div 1188 \<le> 65535 then (w @ segments k p, Inr (length p + 8 * seg_count p))
      else (w, Inl InvalidMessage))"
    using SendTo_collect [of p k w] by (auto simp: SendTo_def Let_def)
  show "list_all (\<lambda>d. length d \<le> maxDatagramFrameSize) (segments k p)"
    by (auto simp: list_all_iff segments_def seg_payload_def maxDatagramFrameSize_def)
  show "concat (map (drop 8) (segments k p)) = p"
    using concat_segments [of p] by (simp add: segments_def comp_def)
qed

lemma slot_run_overflow:
  assumes "length p div 1188 = 65535" and "set (own k es) \<subseteq> set (segments k p)"
    and "\<forall>b. slot = Some b \<longrightarrow> Msgs b = []"
  shows "list_all (\<lambda>m. m = None) (snd (slot_run k d es slot))"
  using assms
proof (induction es arbitrary: slot)
  case (Cons e es)
  show ?case
  proof (cases e)
    case (Tick now)
    with Cons.IH [of "expire now slot"] Cons.prems show ?thesis
      by (auto simp: expire_def split: option.splits)
  next
    case (Recv now bs)
    have "max_of bs + 1 = 0" if "seq_of bs = k"
    proof -
      have "seg_count p = 65536" "bs \<in> set (segments k p)"
        using Cons.prems that Recv by (auto simp: seg_count_def)
      then show ?thesis
        using in_segments(2) [of bs k p] by simp
    qed
    moreover obtain slot' m where s: "slot_step d now bs slot = (slot', m)"
      by force
    ultimately have "m = None" "\<forall>b. slot' = Some b \<longrightarrow> Msgs b = []" if "seq_of bs = k"
      using that Cons.prems(3) by (auto simp: slot_step_def add_def Let_def split: option.splits)
    with Cons.IH [of slot'] Cons.IH [of slot] Cons.prems Recv s show ?thesis
      by (auto simp: case_prod_beta)
  qed
qed simp

text \<open>
  A message of exactly 65535 full payloads and a rest is sent, but never delivered: the
  receiver's \<open>maxSegIdx+1\<close> wraps to 0 in \<open>uint16\<close>, so it allocates no slot for any segment.
\<close>
theorem largest_message_never_delivered:
  assumes "length p div 1188 = 65535" and "Buffers t k = None" and "list_all well_sized es"
    and "set (own k es) \<subseteq> set (fst (SendTo (collect :: (bytes list, 'e) sender) k p []))"
  shows "\<exists>t' ms. seg_run es t = Inr (t', ms) \<and> list_all (\<lambda>m. m = None) (delivered k ms)"
proof -
  have "set (own k es) \<subseteq> set (segments k p)"
    using assms(1,4) by (simp add: SendTo_collect)
  from slot_run_overflow [OF assms(1) this, of None "ReadBufferExpiry t"]
    seg_run_slot [OF assms(3), of t k] assms(2) show ?thesis
    by (metis option.distinct(1) snd_conv)
qed

lemma own_segments [simp]: "own k (map (Recv now) (segments k p)) = segments k p"
proof -
  have "list_all (\<lambda>bs. seq_of bs = k) bss \<Longrightarrow> own k (map (Recv now) bss) = bss" for bss
    by (induction bss) auto
  from this [of "segments k p"] show ?thesis
    by (auto simp: list_all_iff segments_def)
qed

theorem largest_message_never_delivered_witness:
  "\<exists>t' ms. seg_run (map (Recv 0) (segments 5 (replicate (1188 * 65535) 0))) sample_state = Inr (t', ms) \<and>
    list_all (\<lambda>m. m = None) (delivered 5 ms)"
proof (rule largest_message_never_delivered [where 'e = unit and p = "replicate (1188 * 65535) 0"])
  show "list_all well_sized (map (Recv 0) (segments 5 (replicate (1188 * 65535) 0)))"
    by (auto simp: list_all_iff segments_def)
qed (simp_all only: own_segments, simp_all add: sample_state_def SendTo_collect)

text \<open>
  A datagram that the network duplicates counts twice: of a message of two segments the first
  one, received twice, delivers the first 1188 bytes as the whole message.
\<close>

theorem duplicate_delivers_truncated:
  assumes "1188 < length p" and "length p < 2 * 1188" and "Buffers t k = None"
  shows "\<exists>t'. seg_run [Recv now (segments k p ! 0), Recv now' (segments k p ! 0)] t =
      Inr (t', [(k, None), (k, Some (take 1188 p))]) \<and> take 1188 p \<noteq> p"
proof -
  have n: "seg_count p = 2"
    using assms by (simp add: seg_count_def div_nat_eqI)
  have d: "segments k p ! 0 = datagram k 0 1 (take 1188 p)"
    by (simp add: segments_def n seg_payload_def)
  have "length (take 1188 p) \<noteq> length p"
    using assms by simp
  then have "take 1188 p \<noteq> p"
    by metis
  moreover have "replicate 2 [] = [[] :: bytes, []]"
    by (simp add: numeral_2_eq_2)
  ultimately show ?thesis
    using assms(3) by (simp add: d Receive_def Let_def add_def build_def)
qed

theorem duplicate_delivers_truncated_witness:
  "\<exists>t'. seg_run [Recv 1 (segments 5 (replicate 1200 7) ! 0), Recv 2 (segments 5 (replicate 1200 7) ! 0)] sample_state =
      Inr (t', [(5, None), (5, Some (take 1188 (replicate 1200 7)))]) \<and>
    take 1188 (replicate 1200 (7 :: u8)) \<noteq> replicate 1200 7"
  by (rule duplicate_delivers_truncated) (simp_all add: sample_state_def)

lemma slot_run_expiry:
  assumes "\<forall>b. slot = Some b \<longrightarrow> ExpiredAt b \<le> T + sint d"
    and "list_all (\<lambda>e. case e of Recv now bs \<Rightarrow> seq_of bs = k \<longrightarrow> now \<le> T | Tick now \<Rightarrow> True) es"
  shows "\<forall>b. fst (slot_run k d es slot) = Some b \<longrightarrow> ExpiredAt b \<le> T + sint d"
  using assms
proof (induction es arbitrary: slot)
  case (Cons e es)
  show ?case
  proof (cases e)
    case (Tick now)
    have "\<forall>b. expire now slot = Some b \<longrightarrow> ExpiredAt b \<le> T + sint d"
      using Cons.prems(1) by (simp add: expire_def split: option.split)
    from Cons.IH [OF this] Cons.prems(2) Tick show ?thesis
      by simp
  next
    case (Recv now bs)
    obtain slot' m where s: "slot_step d now bs slot = (slot', m)"
      by force
    have "\<forall>b. slot' = Some b \<longrightarrow> ExpiredAt b \<le> T + sint d" if "seq_of bs = k"
      using that s Cons.prems(2) Recv
      by (auto simp: slot_step_def add_def Let_def split: option.splits if_splits)
    then have "\<forall>b. fst (slot_run k d es slot') = Some b \<longrightarrow> ExpiredAt b \<le> T + sint d" if "seq_of bs = k"
      using that Cons.prems(2) by (intro Cons.IH) simp_all
    moreover have "\<forall>b. fst (slot_run k d es slot) = Some b \<longrightarrow> ExpiredAt b \<le> T + sint d"
      using Cons.prems by (intro Cons.IH) simp_all
    ultimately show ?thesis
      using Recv s by (cases "seq_of bs = k") (simp_all add: case_prod_beta)
  qed
qed simp

text \<open>
  A message whose segments stop arriving does not stay: after a sweep later than the expiry of
  its last datagram its buffer is gone, whatever else was received.
\<close>
theorem incomplete_message_expires:
  assumes "list_all well_sized es" and "Buffers t k = None" and "T + sint (ReadBufferExpiry t) < now"
    and "list_all (\<lambda>e. case e of Recv now bs \<Rightarrow> seq_of bs = k \<longrightarrow> now \<le> T | Tick now \<Rightarrow> True) es"
  shows "\<exists>t' ms. seg_run es t = Inr (t', ms) \<and> Buffers (RemoveExpired now t') k = None"
proof -
  from seg_run_slot [OF assms(1), of t k] obtain t' ms where run: "seg_run es t = Inr (t', ms)"
    and slot: "Buffers t' k = fst (slot_run k (ReadBufferExpiry t) es None)"
    using assms(2) by (metis fst_conv)
  with slot_run_expiry [of None T "ReadBufferExpiry t" k es] assms(3,4) show ?thesis
    by (force simp: RemoveExpired_slot expire_def split: option.splits)
qed

theorem incomplete_message_expires_witness:
  "\<exists>t' ms. seg_run [Recv 10 (datagram 5 1 1 (replicate 12 7)), Recv 500 (datagram 6 0 0 [9])] sample_state = Inr (t', ms) \<and>
    Buffers (RemoveExpired 111 t') 5 = None"
  by (rule incomplete_message_expires [where T = 10]) (simp_all add: sample_state_def)

end
