(* ===== verification/Control.thy ===== *)
theory Control
  imports Prelude
begin

text \<open>
  The ping and pong messages of the reconnecting transport (\<open>src/transport/reconnect/pingpong.go\<close>),
  which share the wire with user data: six bytes, the magic byte \<open>0xFF\<close> first.
\<close>

datatype ControlMessage = PingMessage u32 | PongMessage u32

primrec GetSequence :: "ControlMessage \<Rightarrow> u32" where
  "GetSequence (PingMessage n) = n"
| "GetSequence (PongMessage n) = n"

definition MessageTypePing :: u8 where "MessageTypePing = 0x00"
definition MessageTypePong :: u8 where "MessageTypePong = 0x01"
definition magicByte :: u8 where "magicByte = 0xFF"
definition messageLength :: nat where "messageLength = 6"
definition reservedTypeMin :: u8 where "reservedTypeMin = 0x02"
definition reservedTypeMax :: u8 where "reservedTypeMax = 0x0F"

lemmas control_consts =
  MessageTypePing_def MessageTypePong_def magicByte_def messageLength_def reservedTypeMin_def
  reservedTypeMax_def

text \<open>The two \<open>MarshalBinary\<close> methods.\<close>

primrec MarshalBinary :: "ControlMessage \<Rightarrow> bytes" where
  "MarshalBinary (PingMessage n) = [magicByte, MessageTypePing] @ be_bytes 4 n"
| "MarshalBinary (PongMessage n) = [magicByte, MessageTypePong] @ be_bytes 4 n"

datatype control_error = TooShort nat nat | ReservedType u8 | NotControl | NotPing | NotPong

text \<open>The result is \<open>None\<close> for data that is no control message (Go: \<open>nil, false, nil\<close>).\<close>

definition TryParseControlMessage :: "bytes \<Rightarrow> control_error + ControlMessage option" where
  "TryParseControlMessage data =
     (if length data = 0 \<or> data ! 0 \<noteq> magicByte then Inr None
      else if length data < 2 then Inl (TooShort (length data) 2)
      else
        let msgType = data ! 1
        in if reservedTypeMin \<le> msgType \<and> msgType \<le> reservedTypeMax then Inl (ReservedType msgType)
           else if length data < messageLength then Inl (TooShort (length data) messageLength)
           else
             let s = be_word (take 4 (drop 2 data))
             in if msgType = MessageTypePing then Inr (Some (PingMessage s))
                else if msgType = MessageTypePong then Inr (Some (PongMessage s))
                else Inr None)"

definition PingMessage_UnmarshalBinary :: "bytes \<Rightarrow> control_error + u32" where
  "PingMessage_UnmarshalBinary data =
     bindE (TryParseControlMessage data) (\<lambda>msg.
     case msg of
       None \<Rightarrow> Inl NotControl
     | Some (PingMessage n) \<Rightarrow> Inr n
     | Some (PongMessage n) \<Rightarrow> Inl NotPing)"

definition PongMessage_UnmarshalBinary :: "bytes \<Rightarrow> control_error + u32" where
  "PongMessage_UnmarshalBinary data =
     bindE (TryParseControlMessage data) (\<lambda>msg.
     case msg of
       None \<Rightarrow> Inl NotControl
     | Some (PongMessage n) \<Rightarrow> Inr n
     | Some (PingMessage n) \<Rightarrow> Inl NotPong)"

section \<open>Round trips\<close>

lemma type_ranges: "2 \<le> x \<longleftrightarrow> x \<noteq> 0 \<and> x \<noteq> 1" "16 \<le> x \<longleftrightarrow> \<not> x \<le> 15" for x :: u8
proof -
  have "x = 0 \<longleftrightarrow> unat x = 0" "x = 1 \<longleftrightarrow> unat x = 1"
    by (metis unat_eq_0 unsigned_1 unsigned_word_eqI)+
  then show "2 \<le> x \<longleftrightarrow> x \<noteq> 0 \<and> x \<noteq> 1"
    by (auto simp: word_le_nat_alt)
  show "16 \<le> x \<longleftrightarrow> \<not> x \<le> 15"
    by (auto simp: word_le_nat_alt)
qed

lemma parse_marshal [simp]: "TryParseControlMessage (MarshalBinary m @ rest) = Inr (Some m)"
  by (cases m) (simp_all add: TryParseControlMessage_def control_consts type_ranges)

lemma two_and_rest: "6 \<le> length data \<Longrightarrow> data = [data ! 0, data ! 1] @ take 4 (drop 2 data) @ drop 6 data"
  by (cases data; cases "tl data") auto

text \<open>Four bytes are the big-endian bytes of the word they spell.\<close>

lemma be_bytes_be_word4:
  assumes "length bs = 4"
  shows "be_bytes 4 (be_word bs :: u32) = bs"
proof -
  from assms obtain a b c d where "bs = [] @ [a] @ [b] @ [c] @ [d]"
    by (auto simp: length_Suc_conv numeral_eq_Suc)
  then have bs: "bs = ((([] @ [a]) @ [b]) @ [c]) @ [d]"
    by simp
  have "be_bytes 4 (w :: u32) =
      [ucast (drop_bit 24 w), ucast (drop_bit 16 w), ucast (drop_bit 8 w), ucast w]" for w
    by (simp add: numeral_eq_Suc [of "num.Bit0 (num.Bit0 num.One)"] numeral_eq_Suc [of "num.Bit1 num.One"]
      numeral_2_eq_2 drop_bit_drop_bit)
  moreover have high: "\<not> bit x (i + n)" if "8 \<le> i" for x :: u8 and i n
    using that bit_imp_le_length [of x "i + n"] by auto
  ultimately show ?thesis
    unfolding bs be_word_snoc be_word_Nil
    by (auto intro!: bit_word_eqI simp: bit_simps high)
qed

text \<open>
  Parsing recognises exactly the marshalled control messages: every encoded ping and pong is
  parsed back to itself, whatever follows it, and whatever parses as a control message begins with that
  message's encoding.
\<close>

theorem control_message_iff_marshalled:
  "TryParseControlMessage data = Inr (Some m) \<longleftrightarrow> (\<exists>rest. data = MarshalBinary m @ rest)"
proof
  assume ok: "TryParseControlMessage data = Inr (Some m)"
  then have "data ! 0 = magicByte" "6 \<le> length data"
      "m = (if data ! 1 = MessageTypePing then PingMessage else PongMessage) (be_word (take 4 (drop 2 data)))"
      "data ! 1 = MessageTypePing \<or> data ! 1 = MessageTypePong"
    by (auto simp: TryParseControlMessage_def messageLength_def Let_def split: if_splits)
  moreover from this have "take 4 (drop 2 data) = be_bytes 4 (be_word (take 4 (drop 2 data)) :: u32)"
    by (simp add: be_bytes_be_word4)
  ultimately have "data = MarshalBinary m @ drop 6 data"
    using two_and_rest [of data] by (auto simp: control_consts)
  then show "\<exists>rest. data = MarshalBinary m @ rest" ..
qed auto

text \<open>
  What happens to any other bytes. Data that is not to be taken for a control message is passed
  on: it is empty, starts with another byte, or has at least six bytes and a type of \<open>0x10\<close> or more.
  The rest, magic byte first, is a protocol error.
\<close>

theorem control_parse_classification:
  "(TryParseControlMessage data = Inr None \<longleftrightarrow>
     data = [] \<or> data ! 0 \<noteq> 0xFF \<or> 6 \<le> length data \<and> 0x10 \<le> data ! 1) \<and>
   ((\<exists>e. TryParseControlMessage data = Inl e) \<longleftrightarrow>
     data \<noteq> [] \<and> data ! 0 = 0xFF \<and> (length data < 6 \<or> data ! 1 \<in> {0x02..0x0F}))"
  by (auto simp: TryParseControlMessage_def control_consts Let_def type_ranges)

theorem control_parse_classification_witness:
  "TryParseControlMessage [0xFF, 0x20, 1, 2, 3, 4] = Inr None \<and> (\<exists>e. TryParseControlMessage [0xFF, 0x02] = Inl e)"
  using control_parse_classification [of "[0xFF, 0x20, 1, 2, 3, 4]"] control_parse_classification [of "[0xFF, 0x02]"]
  by simp

end
