(* ===== verification/Generators.thy ===== *)
theory Generators
  imports Prelude
begin

text \<open>
  The generators of request identifiers and of stream and data ID aliases
  (\<open>src/wire/req_id_generator.go\<close>, \<open>src/wire/stream_id_generator.go\<close>). A generator is its
  \<open>currentValue\<close>; an operation returns the new generator and the value handed out. The additions are
  atomic, so the calls of concurrent callers are some sequence of calls.
\<close>

section \<open>Request identifiers\<close>

definition NewIDGenerator :: "u32 \<Rightarrow> u32" where
  "NewIDGenerator initial = initial"

definition newRequestIDGeneratorForClient :: u32 where
  "newRequestIDGeneratorForClient = 0"

definition IDGenerator_Next :: "u32 \<Rightarrow> u32 \<times> u32" where
  "IDGenerator_Next g = (g + 2, (g + 2) - 2)"

section \<open>Aliases\<close>

definition NewAliasGenerator :: "u32 \<Rightarrow> u32" where
  "NewAliasGenerator initial = initial"

function AliasGenerator_Next :: "u32 \<Rightarrow> u32 \<times> u32" where
  "AliasGenerator_Next g = (let n = g + 1 in if n \<noteq> 0 then (n, n) else AliasGenerator_Next n)"
  by pat_completeness auto
termination
proof (relation "measure (\<lambda>g. if g = - 1 then 1 else 0)")
  show "(n, g) \<in> measure (\<lambda>g. if g = - 1 then 1 else 0)" if "n = g + 1" "\<not> n \<noteq> 0" for g n :: u32
    using that by (simp add: eq_neg_iff_add_eq_0)
qed simp

declare AliasGenerator_Next.simps [simp del]

definition AliasGenerator_CurrentValue :: "u32 \<Rightarrow> u32" where
  "AliasGenerator_CurrentValue g = g"

lemma AliasGenerator_Next_eq:
  "AliasGenerator_Next g = (if g = - 1 then (1, 1) else (g + 1, g + 1))"
proof (cases "g = - 1")
  case True
  then show ?thesis
    by (simp add: AliasGenerator_Next.simps [of "- 1"] AliasGenerator_Next.simps [of 0])
next
  case False
  then have "g + 1 \<noteq> 0"
    by (simp add: eq_neg_iff_add_eq_0)
  with False show ?thesis
    by (subst AliasGenerator_Next.simps) (simp add: Let_def)
qed

lemma AliasGenerator_Next_same: "fst (AliasGenerator_Next g) = snd (AliasGenerator_Next g)"
  by (simp add: AliasGenerator_Next_eq)

lemma AliasGenerator_Next_of_nat:
  assumes "Suc n < 2 ^ 32"
  shows "AliasGenerator_Next (of_nat n) = (of_nat (Suc n), of_nat (Suc n))"
proof -
  have "(of_nat n :: u32) \<noteq> - 1"
  proof
    assume "(of_nat n :: u32) = - 1"
    then have "(of_nat (Suc n) :: u32) = 0" by simp
    then have "unat (of_nat (Suc n) :: u32) = 0" by simp
    with assms show False
      by (simp add: unsigned_of_nat take_bit_nat_eq_self del: of_nat_Suc)
  qed
  then show ?thesis
    by (simp add: AliasGenerator_Next_eq add.commute)
qed

section \<open>Sequences of calls\<close>

fun calls :: "('g \<Rightarrow> 'g \<times> 'v) \<Rightarrow> nat \<Rightarrow> 'g \<Rightarrow> 'v list" where
  "calls nxt 0 g = []"
| "calls nxt (Suc n) g = (case nxt g of (g', v) \<Rightarrow> v # calls nxt n g')"

lemma upt_0_Suc: "[0..<Suc n] = 0 # map Suc [0..<n]"
  by (simp add: map_Suc_upt upt_conv_Cons del: upt_Suc)

lemma calls_IDGenerator: "calls IDGenerator_Next n g = map (\<lambda>i. g + 2 * of_nat i) [0..<n]"
proof (induction n arbitrary: g)
  case (Suc n)
  have "calls IDGenerator_Next (Suc n) g = g # map (\<lambda>i. (g + 2) + 2 * of_nat i) [0..<n]"
    by (simp add: IDGenerator_Next_def Suc.IH)
  also have "\<dots> = map (\<lambda>i. g + 2 * of_nat i) (0 # map Suc [0..<n])"
    by (simp add: algebra_simps)
  also have "0 # map Suc [0..<n] = [0..<Suc n]"
    by (rule upt_0_Suc [symmetric])
  finally show ?case .
qed simp

lemma calls_AliasGenerator:
  "n + k < 2 ^ 32 \<Longrightarrow> calls AliasGenerator_Next n (of_nat k) = map (\<lambda>i. of_nat (k + Suc i)) [0..<n]"
proof (induction n arbitrary: k)
  case (Suc n)
  have "calls AliasGenerator_Next (Suc n) (of_nat k) = of_nat (Suc k) # calls AliasGenerator_Next n (of_nat (Suc k))"
    using Suc.prems by (simp add: AliasGenerator_Next_of_nat del: of_nat_Suc)
  also have "\<dots> = of_nat (Suc k) # map (\<lambda>i. of_nat (Suc k + Suc i)) [0..<n]"
    using Suc.prems Suc.IH [of "Suc k"] by simp
  also have "\<dots> = map (\<lambda>i. of_nat (k + Suc i)) (0 # map Suc [0..<n])"
    by (simp del: of_nat_Suc of_nat_add)
  also have "0 # map Suc [0..<n] = [0..<Suc n]"
    by (rule upt_0_Suc [symmetric])
  finally show ?case .
qed simp

lemma inj_of_nat_u32: "inj_on (of_nat :: nat \<Rightarrow> u32) {i. i < 2 ^ 32}"
proof (rule inj_onI)
  fix x y :: nat assume "x \<in> {i. i < 2 ^ 32}" "y \<in> {i. i < 2 ^ 32}" "(of_nat x :: u32) = of_nat y"
  then have "unat (of_nat x :: u32) = unat (of_nat y :: u32)" "x < 2 ^ 32" "y < 2 ^ 32" by simp_all
  then show "x = y"
    by (simp add: unsigned_of_nat take_bit_nat_eq_self)
qed

lemma of_nat_u32_eq: "x < 2 ^ 32 \<Longrightarrow> y < 2 ^ 32 \<Longrightarrow> (of_nat x :: u32) = of_nat y \<longleftrightarrow> x = y"
  using inj_of_nat_u32 by (auto dest: inj_onD)

section \<open>Properties\<close>

text \<open>
  The identifiers of a client's requests are the even numbers in order, so any \<open>2 ^ 31\<close> successive
  requests have different identifiers.
\<close>
theorem request_ids_even_and_distinct:
  assumes "n \<le> 2 ^ 31"
  shows "calls IDGenerator_Next n newRequestIDGeneratorForClient = map (\<lambda>i. of_nat (2 * i)) [0..<n] \<and>
    distinct (calls IDGenerator_Next n newRequestIDGeneratorForClient)"
proof
  show eq: "calls IDGenerator_Next n newRequestIDGeneratorForClient = map (\<lambda>i. of_nat (2 * i)) [0..<n]"
    by (simp add: calls_IDGenerator newRequestIDGeneratorForClient_def)
  have "inj_on (\<lambda>i. of_nat (2 * i) :: u32) {0..<n}"
    using assms by (auto intro!: inj_onI simp: of_nat_u32_eq simp del: of_nat_mult)
  then show "distinct (calls IDGenerator_Next n newRequestIDGeneratorForClient)"
    unfolding eq by (simp add: distinct_map del: of_nat_mult)
qed

theorem request_ids_even_and_distinct_witness:
  "calls IDGenerator_Next 3 newRequestIDGeneratorForClient = [0, 2, 4] \<and>
    distinct (calls IDGenerator_Next 3 newRequestIDGeneratorForClient)"
  using request_ids_even_and_distinct [of 3] by (simp add: upt_rec)

text \<open>
  A generator of aliases never hands out 0, also after it has wrapped, and a new one hands out 1, 2, 3 and so
  on, all different for the first \<open>2 ^ 32 - 1\<close> calls.
\<close>
theorem aliases_nonzero_and_distinct:
  assumes "n < 2 ^ 32"
  shows "snd (AliasGenerator_Next g) \<noteq> 0 \<and>
    calls AliasGenerator_Next n (NewAliasGenerator 0) = map (\<lambda>i. of_nat (Suc i)) [0..<n] \<and>
    distinct (calls AliasGenerator_Next n (NewAliasGenerator 0))"
proof (intro conjI)
  show "snd (AliasGenerator_Next g) \<noteq> 0"
    by (auto simp: AliasGenerator_Next_eq eq_neg_iff_add_eq_0)
  show eq: "calls AliasGenerator_Next n (NewAliasGenerator 0) = map (\<lambda>i. of_nat (Suc i)) [0..<n]"
    using calls_AliasGenerator [of n 0] assms by (simp add: NewAliasGenerator_def)
  have "inj_on (\<lambda>i. of_nat (Suc i) :: u32) {0..<n}"
    using assms by (auto intro!: inj_onI simp: of_nat_u32_eq simp del: of_nat_Suc)
  then show "distinct (calls AliasGenerator_Next n (NewAliasGenerator 0))"
    unfolding eq by (simp add: distinct_map del: of_nat_Suc)
qed

theorem aliases_nonzero_and_distinct_witness:
  "snd (AliasGenerator_Next (- 1)) \<noteq> 0 \<and> calls AliasGenerator_Next 3 (NewAliasGenerator 0) = [1, 2, 3]"
  using aliases_nonzero_and_distinct [of 3 "- 1"] by (simp add: upt_rec)

end
