(* ===== verification/Stream_Data.thy ===== *)
theory Stream_Data
  imports Message
begin

text \<open>
  The client's own data types for streams (\<open>src/iscp/data.go\<close>), the flush policies
  (\<open>src/iscp/flush_policy.go\<close>) and the status of a stream (\<open>src/iscp/stream_state.go\<close>). The
  elements of \<open>DataPoints\<close> and the \<open>DataID\<close> of a group are pointers the code never allows to be
  \<open>nil\<close>; here they are the values.
\<close>

type_synonym DataPoints = "DataPoint list"

definition DataPoints_withoutPayload :: "DataPoints \<Rightarrow> DataPoints" where
  "DataPoints_withoutPayload ps =
     map (\<lambda>v. \<lparr>DataPoint.ElapsedTime = DataPoint.ElapsedTime v, DataPoint.Payload = []\<rparr>) ps"

record StreamGroup =  \<comment> \<open>\<open>iscp.DataPointGroup\<close>\<close>
  GroupID :: DataID
  GroupPoints :: DataPoints

type_synonym DataPointGroups = "StreamGroup list"

definition payloadSize :: "StreamGroup \<Rightarrow> nat" where
  "payloadSize dpg = sum_list (map (\<lambda>v. length (DataPoint.Payload v)) (GroupPoints dpg))"

definition withoutPayload :: "DataPointGroups \<Rightarrow> DataPointGroups" where
  "withoutPayload dpgs = map (\<lambda>dpg. dpg\<lparr>GroupPoints := DataPoints_withoutPayload (GroupPoints dpg)\<rparr>) dpgs"

text \<open>
  The loop of \<open>toUpstreamDataPointGroups\<close>, with its set \<open>alreadyAppended\<close>: a data ID with an
  alias is replaced by it, the others are also listed, once each, in \<open>resIDs\<close>.
\<close>

fun toUpstreamDataPointGroups_loop ::
    "(DataID \<rightharpoonup> u32) \<Rightarrow> DataID set \<Rightarrow> DataPointGroups \<Rightarrow> DataPointGroup list \<times> DataID list" where
  "toUpstreamDataPointGroups_loop revAliases alreadyAppended [] = ([], [])"
| "toUpstreamDataPointGroups_loop revAliases alreadyAppended (dpg # dpgs) =
     (let d = GroupID dpg in
      case revAliases d of
        Some alias \<Rightarrow>
          (let (res, resIDs) = toUpstreamDataPointGroups_loop revAliases alreadyAppended dpgs
           in (\<lparr>DataPointGroup.DataIDOrAlias = DOA_Alias alias,
                DataPointGroup.DataPoints = map Some (GroupPoints dpg)\<rparr> # res, resIDs))
      | None \<Rightarrow>
          (let (res, resIDs) = toUpstreamDataPointGroups_loop revAliases (insert d alreadyAppended) dpgs
           in (\<lparr>DataPointGroup.DataIDOrAlias = DOA_DataID (Some d),
                DataPointGroup.DataPoints = map Some (GroupPoints dpg)\<rparr> # res,
               if d \<in> alreadyAppended then resIDs else d # resIDs)))"

definition toUpstreamDataPointGroups ::
    "(DataID \<rightharpoonup> u32) \<Rightarrow> DataPointGroups \<Rightarrow> DataPointGroup list \<times> DataID list" where
  "toUpstreamDataPointGroups revAliases dpgs = toUpstreamDataPointGroups_loop revAliases {} dpgs"

text \<open>How a peer whose table of aliases is \<open>tbl\<close> reads a group of a chunk.\<close>

definition peer_group :: "(u32 \<rightharpoonup> DataID) \<Rightarrow> DataPointGroup \<Rightarrow> (DataID \<times> DataPoint option list) option" where
  "peer_group tbl g =
     (case DataPointGroup.DataIDOrAlias g of
        DOA_DataID (Some d) \<Rightarrow> Some (d, DataPointGroup.DataPoints g)
      | DOA_Alias a \<Rightarrow> map_option (\<lambda>d. (d, DataPointGroup.DataPoints g)) (tbl a)
      | _ \<Rightarrow> None)"

lemma peer_reads_groups_loop:
  assumes "\<And>d a. ra d = Some a \<Longrightarrow> tbl a = Some d"
  shows "map (peer_group tbl) (fst (toUpstreamDataPointGroups_loop ra seen dpgs)) =
    map (\<lambda>g. Some (GroupID g, map Some (GroupPoints g))) dpgs"
  using assms
  by (induction dpgs arbitrary: seen) (auto simp: peer_group_def Let_def case_prod_beta split: option.splits)

lemma listed_ids_loop:
  "set (snd (toUpstreamDataPointGroups_loop ra seen dpgs)) = {d \<in> GroupID ` set dpgs. ra d = None} - seen \<and>
   distinct (snd (toUpstreamDataPointGroups_loop ra seen dpgs))"
  by (induction dpgs arbitrary: seen) (auto simp: Let_def case_prod_beta split: option.splits)

lemma listed_ids_groups:
  "{d. \<exists>g \<in> set (fst (toUpstreamDataPointGroups_loop ra seen dpgs)). DataPointGroup.DataIDOrAlias g = DOA_DataID (Some d)} =
   {d \<in> GroupID ` set dpgs. ra d = None}"
  by (induction dpgs arbitrary: seen) (auto simp: Let_def case_prod_beta split: option.splits)

section \<open>Sequence numbers\<close>

text \<open>\<open>sequenceNumberGenerator.Next\<close>: the new generator and the number.\<close>

definition sequence_Next :: "u32 \<Rightarrow> u32 \<times> u32" where
  "sequence_Next c = (c + 1, c + 1)"

section \<open>Flush policies\<close>

text \<open>
  The implementations of the interface \<open>FlushPolicy\<close>. The interval of a ticker only decides when
  ticks arrive; \<open>has_ticker\<close> says whether any do.
\<close>

datatype FlushPolicy =
  flushPolicyNone
| flushPolicyIntervalOnly duration
| flushPolicyIntervalOrBufferSize u32 duration
| flushPolicyBufferSizeOnly u32
| flushPolicyImmediately

fun IsFlush :: "FlushPolicy \<Rightarrow> u32 \<Rightarrow> bool" where
  "IsFlush flushPolicyNone n = False"
| "IsFlush (flushPolicyIntervalOnly i) n = False"
| "IsFlush (flushPolicyIntervalOrBufferSize b i) n = (b < n)"
| "IsFlush (flushPolicyBufferSizeOnly b) n = (b < n)"
| "IsFlush flushPolicyImmediately n = True"

fun has_ticker :: "FlushPolicy \<Rightarrow> bool" where
  "has_ticker (flushPolicyIntervalOnly i) = True"
| "has_ticker (flushPolicyIntervalOrBufferSize b i) = True"
| "has_ticker p = False"

section \<open>Stream status\<close>

datatype streamStatus = streamStatusConnected | streamStatusResuming | streamStatusDraining

text \<open>\<open>Swap\<close>, \<open>CompareAndSwap\<close> and \<open>CompareAndSwapNot\<close>: the new status, then the result.\<close>

definition Swap :: "'s \<Rightarrow> 's \<Rightarrow> 's \<times> 's" where
  "Swap new current = (new, current)"

definition CompareAndSwap :: "'s \<Rightarrow> 's \<Rightarrow> 's \<Rightarrow> 's \<times> bool" where
  "CompareAndSwap old new current = (if current = old then (new, True) else (current, False))"

definition CompareAndSwapNot :: "'s \<Rightarrow> 's \<Rightarrow> 's \<Rightarrow> 's \<times> bool" where
  "CompareAndSwapNot old new current = (if current \<noteq> old then (new, True) else (current, False))"

end
