(* ===== verification/Upstream.thy ===== *)
theory Upstream
  imports Stream_Data "HOL-Library.Multiset"
begin

text \<open>
  An upstream (\<open>src/iscp/upstream.go\<close>): data points written by the application are buffered per data
  ID, flushed as numbered chunks, kept until acknowledged, and sent again after a reconnection when the QoS
  is reliable.

  The goroutines of the code share the \<open>Upstream\<close> under its mutexes. Each critical section is a
  function on the record here; the step relation \<open>ustep\<close> interleaves them in every order. Where the
  code ranges over a Go map, the order is an argument.
\<close>

section \<open>State\<close>

text \<open>
  \<open>sendBuffer\<close> is a Go map, held as the association list of its entries. Of a result channel of
  \<open>upstreamChunkResultChs\<close> only its registration matters here; what was put in it is in \<open>inbox\<close>.
  \<open>ctxDone\<close> is \<open>u.ctx.Done()\<close>.
\<close>

record upstream =
  revDataIDAliases :: "DataID \<rightharpoonup> u32"
  maxSequenceNumberInReceivedUpstreamChunkResults :: u32
  dataIDAliases :: "u32 \<rightharpoonup> DataID"
  totalDataPoints :: u64
  sendBuffer :: "(DataID \<times> DataPoints) list"
  sendBufferPayloadSize :: nat
  sendBufferDataPointsCount :: nat
  idAlias :: u32
  sentBuf :: "u32 \<rightharpoonup> DataPointGroups"
  keepPayload :: bool
  seqCurrent :: u32  \<comment> \<open>\<open>sequence.Current\<close>\<close>
  status :: streamStatus
  upstreamChunkResultChs :: "u32 set"
  inbox :: "u32 \<rightharpoonup> UpstreamChunkResult"
  closeRequested :: bool
  ctxDone :: bool
  resumeToken :: string
  flushPolicy :: FlushPolicy
  qos :: QoS

section \<open>Buffering\<close>

text \<open>\<open>u.sendBuffer[*dpg.DataID] = append(...)\<close>\<close>

fun append_points :: "DataID \<Rightarrow> DataPoints \<Rightarrow> (DataID \<times> DataPoints) list \<Rightarrow> (DataID \<times> DataPoints) list" where
  "append_points d ps [] = [(d, ps)]"
| "append_points d ps ((e, qs) # b) = (if e = d then (e, qs @ ps) # b else (e, qs) # append_points d ps b)"

text \<open>The case \<open>dpg := <-u.dpgCh\<close> of \<open>flushLoop\<close>; the boolean says that \<open>flush\<close> follows.\<close>

definition bufferPoints :: "StreamGroup \<Rightarrow> upstream \<Rightarrow> upstream \<times> bool" where
  "bufferPoints dpg u =
     (let u' = u\<lparr>sendBuffer := append_points (GroupID dpg) (GroupPoints dpg) (sendBuffer u),
                 sendBufferPayloadSize := sendBufferPayloadSize u + payloadSize dpg,
                 sendBufferDataPointsCount := sendBufferDataPointsCount u + length (GroupPoints dpg)\<rparr>
      in (u', IsFlush (flushPolicy u) (of_nat (sendBufferPayloadSize u'))))"

datatype write_error = ErrStreamClosed | Draining

text \<open>The checks of \<open>WriteDataPoints\<close> before it hands the group to \<open>flushLoop\<close>.\<close>

definition WriteDataPoints :: "DataID \<Rightarrow> DataPoints \<Rightarrow> upstream \<Rightarrow> write_error + StreamGroup" where
  "WriteDataPoints dataID dps u =
     (if ctxDone u then Inl ErrStreamClosed
      else if status u = streamStatusDraining then Inl Draining
      else Inr \<lparr>GroupID = dataID, GroupPoints = dps\<rparr>)"

section \<open>Flushing\<close>

datatype validate_error = TotalExceeded | SequenceExceeded

definition validateState :: "upstream \<Rightarrow> validate_error option" where
  "validateState u =
     (let before = totalDataPoints u;
          newVal = before + of_nat (sendBufferDataPointsCount u)
      in if newVal < before then Some TotalExceeded
         else if seqCurrent u = - 1 then Some SequenceExceeded
         else None)"

record IscpUpstreamChunk =  \<comment> \<open>\<open>iscp.UpstreamChunk\<close>\<close>
  SequenceNumber :: u32
  DataPointGroups :: DataPointGroups

text \<open>
  \<open>order\<close> is the order in which \<open>range u.sendBuffer\<close> visits the buffer. The result has the new
  sequence number generator.
\<close>

definition chunk_message :: "u32 \<Rightarrow> (DataID \<rightharpoonup> u32) \<Rightarrow> u32 \<Rightarrow> DataPointGroups \<Rightarrow> UpstreamChunk" where
  "chunk_message alias ra seqNum dpgs =
     (case toUpstreamDataPointGroups ra dpgs of
        (dpg, ids) \<Rightarrow>
          \<lparr>UpstreamChunk.StreamIDAlias = alias, UpstreamChunk.DataIDs = map Some ids,
           UpstreamChunk.StreamChunk = Some
             \<lparr>StreamChunk.SequenceNumber = seqNum, StreamChunk.DataPointGroups = map Some dpg\<rparr>,
           UpstreamChunk.ExtensionFields = None\<rparr>)"

definition toUpstreamChunk ::
    "(DataID \<times> DataPoints) list \<Rightarrow> upstream \<Rightarrow> u32 \<times> UpstreamChunk \<times> IscpUpstreamChunk" where
  "toUpstreamChunk order u =
     (let dpgs = map (\<lambda>(d, dps). \<lparr>GroupID = d, GroupPoints = dps\<rparr>) order;
          (seqCurrent', seqNum) = sequence_Next (seqCurrent u)
      in (seqCurrent', chunk_message (idAlias u) (revDataIDAliases u) seqNum dpgs,
          \<lparr>IscpUpstreamChunk.SequenceNumber = seqNum, IscpUpstreamChunk.DataPointGroups = dpgs\<rparr>))"

definition clearBuffer :: "upstream \<Rightarrow> upstream" where
  "clearBuffer u = u\<lparr>sendBuffer := [], sendBufferPayloadSize := 0, sendBufferDataPointsCount := 0\<rparr>"

definition storeSent :: "u32 \<Rightarrow> DataPointGroups \<Rightarrow> upstream \<Rightarrow> upstream" where
  "storeSent seqNum dpgs u =
     (if keepPayload u then u\<lparr>sentBuf := (sentBuf u)(seqNum \<mapsto> dpgs)\<rparr>
      else u\<lparr>sentBuf := (sentBuf u)(seqNum \<mapsto> withoutPayload dpgs)\<rparr>)"

definition removeSent :: "u32 \<Rightarrow> upstream \<Rightarrow> upstream" where
  "removeSent seqNum u = u\<lparr>sentBuf := (sentBuf u)(seqNum := None)\<rparr>"

definition clearSent :: "upstream \<Rightarrow> upstream" where
  "clearSent u = u\<lparr>sentBuf := (\<lambda>_. None)\<rparr>"

text \<open>\<open>listSent\<close>: a copy of the entries; \<open>order\<close> is the order in which they will be visited.\<close>

definition listSent :: "upstream \<Rightarrow> (u32 \<times> DataPointGroups) list \<Rightarrow> bool" where
  "listSent u order \<longleftrightarrow> distinct (map fst order) \<and> map_of order = sentBuf u"

text \<open>
  \<open>flush\<close> up to the start of the goroutine that sends the chunk. \<open>Inl\<close> is the failure of
  \<open>validateState\<close>, after which the caller closes the stream; \<open>Inr None\<close> means there was nothing to
  send.
\<close>

definition flush ::
    "(DataID \<times> DataPoints) list \<Rightarrow> upstream
       \<Rightarrow> upstream \<times> (validate_error + (UpstreamChunk \<times> IscpUpstreamChunk) option)" where
  "flush order u =
     (if sendBuffer u = [] then (u, Inr None)
      else case validateState u of
        Some err \<Rightarrow> (u, Inl err)
      | None \<Rightarrow>
          (let u = u\<lparr>totalDataPoints := totalDataPoints u + of_nat (sendBufferDataPointsCount u)\<rparr>;
               (seqCurrent', msgChunk, chunk) = toUpstreamChunk order u;
               u = clearBuffer (u\<lparr>seqCurrent := seqCurrent'\<rparr>);
               seqNum = IscpUpstreamChunk.SequenceNumber chunk;
               u = storeSent seqNum (IscpUpstreamChunk.DataPointGroups chunk) u;
               u = u\<lparr>upstreamChunkResultChs := insert seqNum (upstreamChunkResultChs u),
                     inbox := (inbox u)(seqNum := None)\<rparr>
           in (u, Inr (Some (msgChunk, chunk)))))"

section \<open>Acknowledgements and aliases\<close>

definition processResult :: "UpstreamChunkResult \<Rightarrow> upstream \<Rightarrow> upstream" where
  "processResult result u =
     (let seqNum = UpstreamChunkResult.SequenceNumber result;
          u = removeSent seqNum u
      in if seqNum \<notin> upstreamChunkResultChs u then u
         else u\<lparr>inbox := (inbox u)(seqNum \<mapsto> result),
                upstreamChunkResultChs := upstreamChunkResultChs u - {seqNum}\<rparr>)"

text \<open>The end of \<open>sendChunkAndWaitAck\<close>: \<open>result\<close> is \<open>None\<close> after an acknowledgement timeout.\<close>

definition recordAck :: "u32 \<Rightarrow> UpstreamChunkResult option \<Rightarrow> upstream \<Rightarrow> upstream" where
  "recordAck seqNum result u =
     (if result \<noteq> None \<and> maxSequenceNumberInReceivedUpstreamChunkResults u < seqNum
      then u\<lparr>maxSequenceNumberInReceivedUpstreamChunkResults := seqNum\<rparr> else u)"

fun processDataIDAliases :: "(u32 \<times> DataID) list \<Rightarrow> upstream \<Rightarrow> upstream" where
  "processDataIDAliases [] u = u"
| "processDataIDAliases ((a, d) # aliases) u =
     processDataIDAliases aliases
       (if revDataIDAliases u d \<noteq> None then u
        else u\<lparr>revDataIDAliases := (revDataIDAliases u)(d \<mapsto> a),
               dataIDAliases := (dataIDAliases u)(a \<mapsto> d)\<rparr>)"

section \<open>Disconnection, resumption, closing\<close>

text \<open>
  The watcher of \<open>run\<close> marks the stream as resuming; the deferred function of \<open>readResultLoop\<close>
  closes every registered result channel.
\<close>

definition disconnected :: "upstream \<Rightarrow> upstream" where
  "disconnected u = u\<lparr>status := streamStatusResuming, upstreamChunkResultChs := {}\<rparr>"

text \<open>The effect of \<open>resume\<close> after a successful response.\<close>

definition resumed :: "bool \<Rightarrow> UpstreamResumeResponse \<Rightarrow> upstream \<Rightarrow> upstream" where
  "resumed supportsResumeToken resp u =
     u\<lparr>idAlias := UpstreamResumeResponse.AssignedStreamIDAlias resp,
       resumeToken := (if supportsResumeToken then UpstreamResumeResponse.ResumeToken resp else resumeToken u),
       status := streamStatusConnected\<rparr>"

text \<open>
  The start of \<open>run(true)\<close>: a reliable stream will send again what \<open>listSent\<close> holds, in the order
  \<open>order\<close>; the others forget it.
\<close>

definition run_resumed :: "(u32 \<times> DataPointGroups) list \<Rightarrow> upstream \<Rightarrow> upstream \<times> (u32 \<times> DataPointGroups) list" where
  "run_resumed order u = (if qos u = QoSReliable then (u, order) else (clearSent u, []))"

text \<open>The body of its loop.\<close>

definition resend :: "u32 \<Rightarrow> DataPointGroups \<Rightarrow> upstream \<Rightarrow> upstream \<times> UpstreamChunk" where
  "resend seqNum dpgs u =
     (u\<lparr>upstreamChunkResultChs := insert seqNum (upstreamChunkResultChs u), inbox := (inbox u)(seqNum := None)\<rparr>,
      chunk_message (idAlias u) (revDataIDAliases u) seqNum dpgs)"

text \<open>The condition under which \<open>waitToSendAllDataPointsAndReceiveAllAck\<close> returns \<open>nil\<close>, after its flush.\<close>

definition alreadyReceivedLastSentAck :: "upstream \<Rightarrow> bool" where
  "alreadyReceivedLastSentAck u \<longleftrightarrow> maxSequenceNumberInReceivedUpstreamChunkResults u = seqCurrent u"

definition nothingRemains :: "upstream \<Rightarrow> bool" where
  "nothingRemains u \<longleftrightarrow> sendBuffer u = [] \<and> sentBuf u = (\<lambda>_. None)"

text \<open>\<open>Close\<close> up to the drain, and \<open>closeWithError\<close> up to the request it sends, if any.\<close>

definition Close :: "upstream \<Rightarrow> upstream \<times> (unit + bool)" where
  "Close u =
     (let (new, beforeStatus) = Swap streamStatusDraining (status u);
          u = u\<lparr>status := new\<rparr>
      in if beforeStatus = streamStatusDraining then (u, Inl ())
         else (u, Inr (beforeStatus \<noteq> streamStatusResuming)))"

definition closeWithError :: "uuid \<Rightarrow> u32 \<Rightarrow> bool \<Rightarrow> upstream \<Rightarrow> upstream \<times> UpstreamCloseRequest option" where
  "closeWithError streamID rid closeSession u =
     (if ctxDone u then (u, None)
      else let (cr, swapped) = CompareAndSwap False True (closeRequested u);
               u = u\<lparr>closeRequested := cr\<rparr>
           in if \<not> swapped then (u, None)
              else (u, Some
                \<lparr>UpstreamCloseRequest.RequestID = rid, UpstreamCloseRequest.StreamID = streamID,
                 UpstreamCloseRequest.TotalDataPoints = totalDataPoints u,
                 UpstreamCloseRequest.FinalSequenceNumber = seqCurrent u,
                 UpstreamCloseRequest.ExtensionFields =
                   Some \<lparr>UpstreamCloseRequestExtensionFields.CloseSession = closeSession\<rparr>\<rparr>))"


section \<open>The step relation\<close>

text \<open>
  The upstream with its goroutines and its history: the groups taken from the application, the chunks issued,
  the sequence numbers acknowledged among them, the chunks whose goroutine has yet to send, those handed to the
  wire, the numbers the goroutines wait for, whether \<open>run(true)\<close> has yet to look at \<open>sentBuf\<close>,
  what is left to send again, and the close requests.
\<close>

record upworld =
  up :: upstream
  written :: "StreamGroup list"
  issued :: "(u32 \<times> DataPointGroups) list"
  acked :: "u32 set"
  tosend :: "UpstreamChunk list"
  wired :: "UpstreamChunk list"
  waiting :: "u32 list"
  listing :: bool
  resends :: "(u32 \<times> DataPointGroups) list"
  requests :: "UpstreamCloseRequest list"

definition chunk_seq :: "UpstreamChunk \<Rightarrow> u32" where
  "chunk_seq m = (case UpstreamChunk.StreamChunk m of None \<Rightarrow> 0 | Some c \<Rightarrow> StreamChunk.SequenceNumber c)"

text \<open>
  A new upstream, as \<open>OpenUpstream\<close> makes it; \<open>al\<close> are the entries of the response's \<open>DataIDAliases\<close>,
  in the order in which the loop that reverses them visits them.
\<close>

definition upstream_init :: "(u32 \<times> DataID) list \<Rightarrow> QoS \<Rightarrow> FlushPolicy \<Rightarrow> u32 \<Rightarrow> string \<Rightarrow> upstream" where
  "upstream_init al q pol alias token =
     \<lparr>revDataIDAliases = foldl (\<lambda>m (k, v). m(v \<mapsto> k)) Map.empty al,
      maxSequenceNumberInReceivedUpstreamChunkResults = 0,
      dataIDAliases = map_of al, totalDataPoints = 0, sendBuffer = [], sendBufferPayloadSize = 0,
      sendBufferDataPointsCount = 0, idAlias = alias, sentBuf = (\<lambda>_. None), keepPayload = (q = QoSReliable),
      seqCurrent = 0, status = streamStatusConnected, upstreamChunkResultChs = {}, inbox = (\<lambda>_. None),
      closeRequested = False, ctxDone = False, resumeToken = token, flushPolicy = pol, qos = q\<rparr>"

definition world_init :: "(u32 \<times> DataID) list \<Rightarrow> QoS \<Rightarrow> FlushPolicy \<Rightarrow> u32 \<Rightarrow> string \<Rightarrow> upworld" where
  "world_init al q pol alias token =
     \<lparr>up = upstream_init al q pol alias token, written = [], issued = [], acked = {}, tosend = [], wired = [],
      waiting = [], listing = False, resends = [], requests = []\<rparr>"

text \<open>
  One step. \<open>Write\<close> is bounded because the buffered data points are in memory; \<open>Wake\<close> is the end of a
  waiting goroutine, with a result or none: it may hold the channel of an earlier registration, so it may have one
  whenever its number was acknowledged. \<open>resume\<close> runs after \<open>run\<close> has returned, hence after the loop that
  sends again; \<open>listSent\<close> and \<open>clearSent\<close> run beside the other goroutines of the new \<open>run\<close>, so they
  are a step of their own. \<open>Cancelled\<close> is \<open>u.cancel()\<close>: the end of \<open>closeWithError\<close>, or
  \<open>OpenUpstream\<close>'s goroutine that waits for the connection to be closed.
\<close>

inductive ustep :: "upworld \<Rightarrow> upworld \<Rightarrow> bool" where
  Write: "sendBufferDataPointsCount (up w) + length (GroupPoints g) < 2 ^ 63 \<Longrightarrow>
    ustep w (w\<lparr>up := fst (bufferPoints g (up w)), written := written w @ [g]\<rparr>)"
| Flush: "mset order = mset (sendBuffer (up w)) \<Longrightarrow> flush order (up w) = (u', Inr (Some (m, c))) \<Longrightarrow>
    ustep w (w\<lparr>up := u', tosend := tosend w @ [m],
      issued := issued w @ [(IscpUpstreamChunk.SequenceNumber c, IscpUpstreamChunk.DataPointGroups c)]\<rparr>)"
| Send: "m \<in> set (tosend w) \<Longrightarrow>
    ustep w (w\<lparr>tosend := remove1 m (tosend w), wired := wired w @ [m], waiting := chunk_seq m # waiting w\<rparr>)"
| SendFailed: "m \<in> set (tosend w) \<Longrightarrow> ustep w (w\<lparr>tosend := remove1 m (tosend w)\<rparr>)"
| Ack: "ustep w (w\<lparr>up := processResult r (up w),
      acked := acked w \<union> ({UpstreamChunkResult.SequenceNumber r} \<inter> fst ` set (issued w))\<rparr>)"
| Wake: "s \<in> set (waiting w) \<Longrightarrow> r = None \<or> s \<in> acked w \<Longrightarrow>
    ustep w (w\<lparr>up := recordAck s r (up w), waiting := remove1 s (waiting w)\<rparr>)"
| Aliases: "ustep w (w\<lparr>up := processDataIDAliases al (up w)\<rparr>)"
| Disconnect: "ustep w (w\<lparr>up := disconnected (up w)\<rparr>)"
| Resume: "status (up w) = streamStatusResuming \<Longrightarrow> \<not> ctxDone (up w) \<Longrightarrow> \<not> listing w \<Longrightarrow> resends w = [] \<Longrightarrow>
    ustep w (w\<lparr>up := resumed tok resp (up w), listing := True\<rparr>)"
| RunResumed: "listing w \<Longrightarrow> listSent (up w) order \<Longrightarrow> run_resumed order (up w) = (u', rs) \<Longrightarrow>
    ustep w (w\<lparr>up := u', listing := False, resends := rs\<rparr>)"
| Resend: "resends w = (s, dpgs) # rs \<Longrightarrow> resend s dpgs (up w) = (u', m) \<Longrightarrow>
    ustep w (w\<lparr>up := u', tosend := tosend w @ [m], resends := rs\<rparr>)"
| CloseStarted: "ustep w (w\<lparr>up := fst (Close (up w))\<rparr>)"
| CloseSent: "closeWithError sid rid cs (up w) = (u', Some req) \<Longrightarrow>
    ustep w (w\<lparr>up := u', requests := requests w @ [req]\<rparr>)"
| Cancelled: "ustep w (w\<lparr>up := (up w)\<lparr>ctxDone := True\<rparr>\<rparr>)"

inductive ureach :: "upworld \<Rightarrow> bool" where
  Init: "ureach (world_init al q pol alias token)"
| Step: "ureach w \<Longrightarrow> ustep w w' \<Longrightarrow> ureach w'"

section \<open>Effects of the handlers\<close>

lemma bufferPoints_simps [simp]:
  "fst (bufferPoints g u) = u\<lparr>sendBuffer := append_points (GroupID g) (GroupPoints g) (sendBuffer u),
     sendBufferPayloadSize := sendBufferPayloadSize u + payloadSize g,
     sendBufferDataPointsCount := sendBufferDataPointsCount u + length (GroupPoints g)\<rparr>"
  by (simp add: bufferPoints_def Let_def)

definition groups_of :: "(DataID \<times> DataPoints) list \<Rightarrow> DataPointGroups" where
  "groups_of order = map (\<lambda>(d, dps). \<lparr>GroupID = d, GroupPoints = dps\<rparr>) order"

lemma flush_SomeE:
  assumes "flush order u = (u', Inr (Some (m, c)))"
  obtains "sendBuffer u \<noteq> []" "validateState u = None"
    "c = \<lparr>IscpUpstreamChunk.SequenceNumber = seqCurrent u + 1, IscpUpstreamChunk.DataPointGroups = groups_of order\<rparr>"
    "m = chunk_message (idAlias u) (revDataIDAliases u) (seqCurrent u + 1) (groups_of order)"
    "u' = u\<lparr>totalDataPoints := totalDataPoints u + of_nat (sendBufferDataPointsCount u), seqCurrent := seqCurrent u + 1,
      sendBuffer := [], sendBufferPayloadSize := 0, sendBufferDataPointsCount := 0,
      sentBuf := (sentBuf u)(seqCurrent u + 1 \<mapsto>
        (if keepPayload u then groups_of order else withoutPayload (groups_of order))),
      upstreamChunkResultChs := insert (seqCurrent u + 1) (upstreamChunkResultChs u),
      inbox := (inbox u)(seqCurrent u + 1 := None)\<rparr>"
  using assms
  by (auto simp: flush_def toUpstreamChunk_def sequence_Next_def storeSent_def clearBuffer_def groups_of_def Let_def
      split: if_splits option.splits)

lemma flush_same:
  assumes "flush order u = (u', Inr (Some (m, c)))"
  shows "maxSequenceNumberInReceivedUpstreamChunkResults u' = maxSequenceNumberInReceivedUpstreamChunkResults u"
    and "qos u' = qos u" and "closeRequested u' = closeRequested u" and "ctxDone u' = ctxDone u"
    and "revDataIDAliases u' = revDataIDAliases u" and "idAlias u' = idAlias u" and "status u' = status u"
    and "upstreamChunkResultChs u' = insert (IscpUpstreamChunk.SequenceNumber c) (upstreamChunkResultChs u)"
    and "inbox u' = (inbox u)(IscpUpstreamChunk.SequenceNumber c := None)"
    and "m = chunk_message (idAlias u) (revDataIDAliases u) (IscpUpstreamChunk.SequenceNumber c)
      (IscpUpstreamChunk.DataPointGroups c)"
  by (rule flush_SomeE [OF assms]; simp)+

lemma resend_same:
  assumes "resend s dpgs u = (u', m)"
  shows "sentBuf u' = sentBuf u" and "keepPayload u' = keepPayload u" and "qos u' = qos u"
    and "closeRequested u' = closeRequested u" and "revDataIDAliases u' = revDataIDAliases u"
    and "upstreamChunkResultChs u' = insert s (upstreamChunkResultChs u)" and "inbox u' = (inbox u)(s := None)"
    and "maxSequenceNumberInReceivedUpstreamChunkResults u' = maxSequenceNumberInReceivedUpstreamChunkResults u"
    and "m = chunk_message (idAlias u) (revDataIDAliases u) s dpgs"
  using assms by (auto simp: resend_def)

lemma closeWithError_same:
  assumes "closeWithError sid rid cs u = (u', Some req)"
  shows "sentBuf u' = sentBuf u" and "keepPayload u' = keepPayload u" and "qos u' = qos u"
    and "closeRequested u' = True" and "revDataIDAliases u' = revDataIDAliases u" and "\<not> closeRequested u"
    and "req = \<lparr>UpstreamCloseRequest.RequestID = rid, UpstreamCloseRequest.StreamID = sid,
      UpstreamCloseRequest.TotalDataPoints = totalDataPoints u,
      UpstreamCloseRequest.FinalSequenceNumber = seqCurrent u,
      UpstreamCloseRequest.ExtensionFields = Some \<lparr>UpstreamCloseRequestExtensionFields.CloseSession = cs\<rparr>\<rparr>"
  using assms by (auto simp: closeWithError_def CompareAndSwap_def Let_def split: if_splits)

lemma processResult_same [simp]:
  "sentBuf (processResult r u) = (sentBuf u)(UpstreamChunkResult.SequenceNumber r := None)"
  "keepPayload (processResult r u) = keepPayload u"
  "qos (processResult r u) = qos u"
  "seqCurrent (processResult r u) = seqCurrent u"
  "totalDataPoints (processResult r u) = totalDataPoints u"
  "revDataIDAliases (processResult r u) = revDataIDAliases u"
  "closeRequested (processResult r u) = closeRequested u"
  by (simp_all add: processResult_def removeSent_def Let_def)

lemma recordAck_same [simp]:
  "sentBuf (recordAck n r u) = sentBuf u" "keepPayload (recordAck n r u) = keepPayload u"
  "qos (recordAck n r u) = qos u" "revDataIDAliases (recordAck n r u) = revDataIDAliases u"
  "closeRequested (recordAck n r u) = closeRequested u"
  by (simp_all add: recordAck_def)

lemma disconnected_same [simp]:
  "sentBuf (disconnected u) = sentBuf u" "keepPayload (disconnected u) = keepPayload u"
  "qos (disconnected u) = qos u" "revDataIDAliases (disconnected u) = revDataIDAliases u"
  "closeRequested (disconnected u) = closeRequested u"
  by (simp_all add: disconnected_def)

lemma resumed_same [simp]:
  "sentBuf (resumed tok resp u) = sentBuf u" "keepPayload (resumed tok resp u) = keepPayload u"
  "qos (resumed tok resp u) = qos u" "revDataIDAliases (resumed tok resp u) = revDataIDAliases u"
  "closeRequested (resumed tok resp u) = closeRequested u"
  by (simp_all add: resumed_def)

lemma Close_same [simp]:
  "sentBuf (fst (Close u)) = sentBuf u" "keepPayload (fst (Close u)) = keepPayload u"
  "qos (fst (Close u)) = qos u" "revDataIDAliases (fst (Close u)) = revDataIDAliases u"
  "closeRequested (fst (Close u)) = closeRequested u"
  by (simp_all add: Close_def Swap_def Let_def)

lemma processDataIDAliases_same [simp]:
  "totalDataPoints (processDataIDAliases al u) = totalDataPoints u"
  "sendBuffer (processDataIDAliases al u) = sendBuffer u"
  "sendBufferPayloadSize (processDataIDAliases al u) = sendBufferPayloadSize u"
  "sendBufferDataPointsCount (processDataIDAliases al u) = sendBufferDataPointsCount u"
  "idAlias (processDataIDAliases al u) = idAlias u"
  "sentBuf (processDataIDAliases al u) = sentBuf u"
  "keepPayload (processDataIDAliases al u) = keepPayload u"
  "seqCurrent (processDataIDAliases al u) = seqCurrent u"
  "status (processDataIDAliases al u) = status u"
  "upstreamChunkResultChs (processDataIDAliases al u) = upstreamChunkResultChs u"
  "inbox (processDataIDAliases al u) = inbox u"
  "closeRequested (processDataIDAliases al u) = closeRequested u"
  "ctxDone (processDataIDAliases al u) = ctxDone u"
  "resumeToken (processDataIDAliases al u) = resumeToken u"
  "flushPolicy (processDataIDAliases al u) = flushPolicy u"
  "qos (processDataIDAliases al u) = qos u"
  "maxSequenceNumberInReceivedUpstreamChunkResults (processDataIDAliases al u) = maxSequenceNumberInReceivedUpstreamChunkResults u"
  by (induction al u rule: processDataIDAliases.induct) auto


section \<open>Invariants\<close>

lemma ureach_induct [consumes 1, case_names Init Step]:
  assumes "ureach w" and "\<And>al q pol alias token. P (world_init al q pol alias token)"
    and "\<And>w w'. ureach w \<Longrightarrow> P w \<Longrightarrow> ustep w w' \<Longrightarrow> P w'"
  shows "P w"
  using assms(1)
proof (rule ureach.induct)
  show "P w'" if "ureach v" "P v" "ustep v w'" for v w'
    using that by (rule assms(3))
qed (rule assms(2))

lemmas handler_defs =
  disconnected_def resumed_def run_resumed_def clearSent_def resend_def Close_def closeWithError_def
  recordAck_def processResult_def removeSent_def Let_def Swap_def CompareAndSwap_def

subsection \<open>The buffer\<close>

definition buf_points :: "DataID \<Rightarrow> (DataID \<times> DataPoints) list \<Rightarrow> DataPoints" where
  "buf_points d b = (case map_of b d of None \<Rightarrow> [] | Some ps \<Rightarrow> ps)"

definition points_of :: "DataID \<Rightarrow> DataPointGroups \<Rightarrow> DataPoints" where
  "points_of d gs = concat (map GroupPoints (filter (\<lambda>g. GroupID g = d) gs))"

definition points_count :: "DataPointGroups \<Rightarrow> nat" where
  "points_count gs = sum_list (map (\<lambda>g. length (GroupPoints g)) gs)"

lemma points_of_append [simp]: "points_of d (gs @ hs) = points_of d gs @ points_of d hs"
  by (simp add: points_of_def)

lemma points_of_Nil [simp]: "points_of d [] = []"
  by (simp add: points_of_def)

lemma points_count_append [simp]: "points_count (gs @ hs) = points_count gs + points_count hs"
  by (simp add: points_count_def)

lemma keys_append_points:
  "map fst (append_points d ps b) = (if d \<in> fst ` set b then map fst b else map fst b @ [d])"
  by (induction b) (force simp: image_iff)+

lemma distinct_append_points: "distinct (map fst b) \<Longrightarrow> distinct (map fst (append_points d ps b))"
  by (simp add: keys_append_points)

lemma buf_append_points:
  "buf_points e (append_points d ps b) = buf_points e b @ (if e = d then ps else [])"
  by (induction b) (auto simp: buf_points_def)

lemma sum_append_points:
  "sum_list (map (\<lambda>x. length (snd x)) (append_points d ps b)) = sum_list (map (\<lambda>x. length (snd x)) b) + length ps"
  by (induction b) auto

lemma append_points_not_Nil [simp]: "append_points d ps b \<noteq> []"
  by (cases "(d, ps, b)" rule: append_points.cases) auto

lemma buf_points_Nil [simp]: "buf_points d [] = []"
  by (simp add: buf_points_def)

lemma buf_points_order:
  assumes "distinct (map fst b)" and "mset order = mset b"
  shows "buf_points d order = buf_points d b"
proof -
  have "distinct (map fst order)"
    using assms by (metis mset_eq_imp_distinct_iff mset_map)
  then have "map_of order d = map_of b d"
    using assms mset_eq_setD [OF assms(2)] by (metis map_of_eq_Some_iff not_None_eq)
  then show ?thesis by (simp add: buf_points_def)
qed

lemma points_of_groups_of:
  "distinct (map fst order) \<Longrightarrow> points_of d (groups_of order) = buf_points d order"
proof (induction order)
  case (Cons x order)
  obtain e ps where x: "x = (e, ps)" by force
  have "points_of d (groups_of order) = []" if "d = e"
    using Cons.prems that x
    by (auto simp: points_of_def groups_of_def filter_empty_conv image_iff)
  with Cons x show ?case
    by (auto simp: points_of_def groups_of_def buf_points_def)
qed (simp add: groups_of_def)

lemma points_count_groups_of: "points_count (groups_of order) = sum_list (map (\<lambda>x. length (snd x)) order)"
  by (induction order) (auto simp: points_count_def groups_of_def)

definition inv_buffer :: "upstream \<Rightarrow> bool" where
  "inv_buffer u \<longleftrightarrow>
     distinct (map fst (sendBuffer u)) \<and>
     sendBufferDataPointsCount u = sum_list (map (\<lambda>x. length (snd x)) (sendBuffer u)) \<and>
     sendBufferDataPointsCount u < 2 ^ 63"

lemma reach_buffer: "ureach w \<Longrightarrow> inv_buffer (up w)"
proof (induction rule: ureach_induct)
  case (Init al q pol a token)
  then show ?case by (simp add: inv_buffer_def world_init_def upstream_init_def)
next
  case (Step w w')
  from Step(2,3) show ?case
    by (induction rule: ustep.induct) (auto simp: inv_buffer_def distinct_append_points sum_append_points handler_defs
        elim!: flush_SomeE split: if_splits)
qed

subsection \<open>Nothing lost between the application and the chunks\<close>

definition issued_points :: "upworld \<Rightarrow> DataPointGroups" where
  "issued_points w = concat (map snd (issued w))"

definition inv_conserved :: "upworld \<Rightarrow> bool" where
  "inv_conserved w \<longleftrightarrow>
     (\<forall>d. points_of d (issued_points w) @ buf_points d (sendBuffer (up w)) = points_of d (written w))"

lemma flush_points:
  assumes "inv_buffer u" and "mset order = mset (sendBuffer u)"
  shows "points_of d (groups_of order) = buf_points d (sendBuffer u)"
    and "points_count (groups_of order) = sendBufferDataPointsCount u"
proof -
  have d: "distinct (map fst order)"
    using assms by (metis inv_buffer_def mset_eq_imp_distinct_iff mset_map)
  then show "points_of d (groups_of order) = buf_points d (sendBuffer u)"
    using buf_points_order [of "sendBuffer u" order d] assms by (simp add: points_of_groups_of inv_buffer_def)
  have "mset (map (\<lambda>x. length (snd x)) order) = mset (map (\<lambda>x. length (snd x)) (sendBuffer u))"
    using assms(2) by simp
  then have "sum_list (map (\<lambda>x. length (snd x)) order) = sum_list (map (\<lambda>x. length (snd x)) (sendBuffer u))"
    by (metis sum_mset_sum_list)
  then show "points_count (groups_of order) = sendBufferDataPointsCount u"
    using assms(1) by (simp add: points_count_groups_of inv_buffer_def)
qed

lemma reach_conserved: "ureach w \<Longrightarrow> inv_conserved w"
proof (induction rule: ureach_induct)
  case (Init al q pol a token)
  then show ?case
    by (simp add: inv_conserved_def issued_points_def world_init_def upstream_init_def)
next
  case (Step w w')
  note buf = reach_buffer [OF Step(1)]
  from Step(2,3) buf show ?case
  proof (induction rule: ustep.induct)
    case (Flush order w u' m c)
    then show ?case
      by (auto simp: inv_conserved_def issued_points_def flush_points elim!: flush_SomeE)
  next
    case (Write w g)
    then show ?case
      by (auto simp: inv_conserved_def issued_points_def buf_append_points points_of_def)
  qed (auto simp: inv_conserved_def issued_points_def handler_defs split: if_splits)
qed

subsection \<open>Sequence numbers and totals\<close>

definition inv_sequence :: "upworld \<Rightarrow> bool" where
  "inv_sequence w \<longleftrightarrow>
     map fst (issued w) = map of_nat [1..<Suc (length (issued w))] \<and> length (issued w) < 2 ^ 32 \<and>
     seqCurrent (up w) = of_nat (length (issued w)) \<and>
     unat (totalDataPoints (up w)) = points_count (issued_points w)"

lemma validateState_None:
  assumes "validateState u = None" and "sendBufferDataPointsCount u < 2 ^ 63"
  shows "unat (totalDataPoints u + of_nat (sendBufferDataPointsCount u)) =
      unat (totalDataPoints u) + sendBufferDataPointsCount u"
    and "seqCurrent u \<noteq> - 1"
proof -
  have c: "unat (of_nat (sendBufferDataPointsCount u) :: u64) = sendBufferDataPointsCount u"
    using assms(2) by (simp add: unsigned_of_nat take_bit_nat_eq_self)
  have le: "totalDataPoints u \<le> totalDataPoints u + of_nat (sendBufferDataPointsCount u)"
    using assms(1) by (auto simp: validateState_def Let_def not_less split: if_splits)
  then have "unat (totalDataPoints u) + unat (of_nat (sendBufferDataPointsCount u) :: u64) < 2 ^ 64"
    using no_olen_add_nat [of "totalDataPoints u" "of_nat (sendBufferDataPointsCount u)"] by simp
  with c show "unat (totalDataPoints u + of_nat (sendBufferDataPointsCount u)) =
      unat (totalDataPoints u) + sendBufferDataPointsCount u"
    by (simp add: unat_word_ariths)
  show "seqCurrent u \<noteq> - 1"
    using assms(1) by (auto simp: validateState_def Let_def split: if_splits)
qed


lemma of_nat_u32_neq: "n < 2 ^ 32 \<Longrightarrow> (of_nat n :: u32) \<noteq> - 1 \<Longrightarrow> Suc n < 2 ^ 32"
proof (rule ccontr)
  assume "n < 2 ^ 32" "(of_nat n :: u32) \<noteq> - 1" "\<not> Suc n < 2 ^ 32"
  then have "n = 2 ^ 32 - 1" by simp
  then have "(of_nat n :: u32) = - 1" by simp
  with \<open>of_nat n \<noteq> - 1\<close> show False by simp
qed

lemma reach_sequence: "ureach w \<Longrightarrow> inv_sequence w"
proof (induction rule: ureach_induct)
  case (Init al q pol a token)
  then show ?case
    by (simp add: inv_sequence_def issued_points_def points_count_def world_init_def upstream_init_def)
next
  case (Step w w')
  note buf = reach_buffer [OF Step(1)]
  from Step(2,3) buf show ?case
  proof (induction rule: ustep.induct)
    case (Flush order w u' m c)
    from Flush.hyps(2) show ?case
    proof (rule flush_SomeE)
      assume v: "validateState (up w) = None"
        and c: "c = \<lparr>IscpUpstreamChunk.SequenceNumber = seqCurrent (up w) + 1, IscpUpstreamChunk.DataPointGroups = groups_of order\<rparr>"
        and u': "u' = (up w)\<lparr>totalDataPoints := totalDataPoints (up w) + of_nat (sendBufferDataPointsCount (up w)),
            seqCurrent := seqCurrent (up w) + 1, sendBuffer := [], sendBufferPayloadSize := 0, sendBufferDataPointsCount := 0,
            sentBuf := (sentBuf (up w))(seqCurrent (up w) + 1 \<mapsto>
              (if keepPayload (up w) then groups_of order else withoutPayload (groups_of order))),
            upstreamChunkResultChs := insert (seqCurrent (up w) + 1) (upstreamChunkResultChs (up w)),
            inbox := (inbox (up w))(seqCurrent (up w) + 1 := None)\<rparr>"
      have "Suc (length (issued w)) < 2 ^ 32"
        using validateState_None(2) [OF v] Flush.prems of_nat_u32_neq [of "length (issued w)"]
        by (simp add: inv_sequence_def inv_buffer_def)
      then show ?thesis
        using validateState_None(1) [OF v] Flush
        by (simp add: inv_sequence_def inv_buffer_def issued_points_def flush_points(2) c u' add.commute)
    qed
  qed (auto simp: inv_sequence_def issued_points_def handler_defs split: if_splits)
qed

lemma issued_nth:
  assumes "inv_sequence w"
  shows "distinct (map fst (issued w))" and "i < length (issued w) \<Longrightarrow> fst (issued w ! i) = of_nat (Suc i)"
proof -
  have m: "map fst (issued w) = map of_nat [1..<Suc (length (issued w))]" and l: "length (issued w) < 2 ^ 32"
    using assms by (auto simp: inv_sequence_def)
  have "inj_on (of_nat :: nat \<Rightarrow> u32) {1..<Suc (length (issued w))}"
  proof (rule inj_onI)
    fix x y assume "x \<in> {1..<Suc (length (issued w))}" "y \<in> {1..<Suc (length (issued w))}"
      and eq: "(of_nat x :: u32) = of_nat y"
    then have "x < 2 ^ 32" "y < 2 ^ 32" using l by auto
    then have "unat (of_nat x :: u32) = x" "unat (of_nat y :: u32) = y"
      by (simp_all add: unsigned_of_nat take_bit_nat_eq_self)
    with eq show "x = y" by metis
  qed
  then show "distinct (map fst (issued w))"
    unfolding m by (simp add: distinct_map del: upt_Suc)
  show "fst (issued w ! i) = of_nat (Suc i)" if "i < length (issued w)"
    using arg_cong [OF m, of "\<lambda>xs. xs ! i"] that by (simp del: upt_Suc)
qed

subsection \<open>What is kept until it is acknowledged\<close>

definition inv_sent :: "upworld \<Rightarrow> bool" where
  "inv_sent w \<longleftrightarrow>
     keepPayload (up w) = (qos (up w) = QoSReliable) \<and>
     acked w \<subseteq> fst ` set (issued w) \<and>
     dom (sentBuf (up w)) \<subseteq> fst ` set (issued w) - acked w \<and>
     (qos (up w) = QoSReliable \<longrightarrow>
        sentBuf (up w) = map_of (issued w) |` (- acked w))"

lemma fresh_number:
  assumes "inv_sequence w" and "validateState (up w) = None"
  shows "seqCurrent (up w) + 1 \<notin> fst ` set (issued w)"
proof
  assume "seqCurrent (up w) + 1 \<in> fst ` set (issued w)"
  then obtain i where i: "i < length (issued w)" "fst (issued w ! i) = seqCurrent (up w) + 1"
    by (auto simp: in_set_conv_nth)
  have l: "Suc (length (issued w)) < 2 ^ 32"
    using assms of_nat_u32_neq [of "length (issued w)"]
    by (auto simp: inv_sequence_def validateState_def Let_def split: if_splits)
  have "(of_nat (Suc i) :: u32) = of_nat (Suc (length (issued w)))"
    using i issued_nth(2) [OF assms(1) i(1)] assms(1) by (simp add: inv_sequence_def add.commute)
  then have "unat (of_nat (Suc i) :: u32) = unat (of_nat (Suc (length (issued w))) :: u32)"
    by simp
  with l i(1) show False
    by (simp add: unsigned_of_nat take_bit_nat_eq_self del: of_nat_Suc)
qed

lemma map_of_snoc: "k \<notin> fst ` set kvs \<Longrightarrow> map_of (kvs @ [(k, v)]) = (map_of kvs)(k \<mapsto> v)"
  by (induction kvs) auto

lemma inv_sent_flush:
  assumes "inv_sent w" and "n \<notin> fst ` set (issued w)"
    and "keepPayload u' = keepPayload (up w)" and "qos u' = qos (up w)"
    and "sentBuf u' = (sentBuf (up w))(n \<mapsto> (if keepPayload (up w) then gs else withoutPayload gs))"
  shows "inv_sent (w\<lparr>up := u', tosend := ts, issued := issued w @ [(n, gs)]\<rparr>)"
proof -
  have n: "n \<notin> acked w"
    using assms(1,2) by (auto simp: inv_sent_def)
  have "sentBuf u' = map_of (issued w @ [(n, gs)]) |` (- acked w)" if "qos (up w) = QoSReliable"
  proof
    fix s
    show "sentBuf u' s = (map_of (issued w @ [(n, gs)]) |` (- acked w)) s"
      using assms(1,3,4,5) that n
      by (simp add: inv_sent_def map_of_snoc [OF assms(2)] restrict_map_def del: map_of_append)
  qed
  with assms n show ?thesis
    by (auto simp: inv_sent_def)
qed

lemma acked_restrict:
  "(map_of kvs |` (- A))(n := None) = map_of kvs |` (- (A \<union> {n} \<inter> fst ` set kvs))"
proof
  fix s
  have "map_of kvs n = None" if "n \<notin> fst ` set kvs"
    using that by (simp add: map_of_eq_None_iff)
  then show "((map_of kvs |` (- A))(n := None)) s = (map_of kvs |` (- (A \<union> {n} \<inter> fst ` set kvs))) s"
    by (auto simp: restrict_map_def)
qed

lemma reach_sent: "ureach w \<Longrightarrow> inv_sent w"
proof (induction rule: ureach_induct)
  case (Init al q pol a token)
  then show ?case
    by (auto simp: inv_sent_def world_init_def upstream_init_def)
next
  case (Step w w')
  note sq = reach_sequence [OF Step(1)]
  from Step(2,3) sq show ?case
  proof (induction rule: ustep.induct)
    case (Flush order w u' m c)
    from Flush.hyps(2) show ?case
    proof (rule flush_SomeE)
      assume v: "validateState (up w) = None"
        and c: "c = \<lparr>IscpUpstreamChunk.SequenceNumber = seqCurrent (up w) + 1, IscpUpstreamChunk.DataPointGroups = groups_of order\<rparr>"
        and u': "u' = (up w)\<lparr>totalDataPoints := totalDataPoints (up w) + of_nat (sendBufferDataPointsCount (up w)),
            seqCurrent := seqCurrent (up w) + 1, sendBuffer := [], sendBufferPayloadSize := 0, sendBufferDataPointsCount := 0,
            sentBuf := (sentBuf (up w))(seqCurrent (up w) + 1 \<mapsto>
              (if keepPayload (up w) then groups_of order else withoutPayload (groups_of order))),
            upstreamChunkResultChs := insert (seqCurrent (up w) + 1) (upstreamChunkResultChs (up w)),
            inbox := (inbox (up w))(seqCurrent (up w) + 1 := None)\<rparr>"
      show ?thesis
        unfolding c IscpUpstreamChunk.simps
        by (rule inv_sent_flush [OF Flush.prems(1) fresh_number [OF Flush.prems(2) v]]) (simp_all add: u')
    qed
  next
    case (Ack w r)
    then show ?case
      by (auto simp: inv_sent_def acked_restrict simp del: fun_upd_restrict fun_upd_None_restrict Compl_Un Compl_Int)
  next
    case (RunResumed w order u' rs)
    then show ?case
      by (auto simp: inv_sent_def run_resumed_def clearSent_def split: if_splits)
  next
    case (Resend w s dpgs rs u' m)
    then show ?case
      by (simp add: inv_sent_def resend_same [OF Resend.hyps(2)])
  next
    case (CloseSent sid rid cs w u' req)
    then show ?case
      by (simp add: inv_sent_def closeWithError_same [OF CloseSent.hyps])
  qed (simp_all add: inv_sent_def)
qed


subsection \<open>Acknowledgements\<close>

definition inv_ack :: "upworld \<Rightarrow> bool" where
  "inv_ack w \<longleftrightarrow>
     upstreamChunkResultChs (up w) \<subseteq> fst ` set (issued w) \<and> dom (inbox (up w)) \<subseteq> acked w \<and>
     fst ` set (resends w) \<subseteq> fst ` set (issued w) \<and>
     (maxSequenceNumberInReceivedUpstreamChunkResults (up w) = 0 \<or>
      maxSequenceNumberInReceivedUpstreamChunkResults (up w) \<in> acked w)"

lemma listSent_keys: "listSent u order \<Longrightarrow> fst ` set order = dom (sentBuf u)"
  by (metis dom_map_of_conv_image_fst listSent_def)

lemma reach_ack: "ureach w \<Longrightarrow> inv_ack w"
proof (induction rule: ureach_induct)
  case (Init al q pol a token)
  then show ?case
    by (auto simp: inv_ack_def world_init_def upstream_init_def)
next
  case (Step w w')
  note st = reach_sent [OF Step(1)]
  from Step(2,3) st show ?case
  proof (induction rule: ustep.induct)
    case (Flush order w u' m c)
    then show ?case
      by (auto simp: inv_ack_def flush_same [OF Flush.hyps(2)])
  next
    case (Ack w r)
    then show ?case
      by (auto simp: inv_ack_def processResult_def removeSent_def Let_def)
  next
    case (RunResumed w order u' rs)
    then have "fst ` set rs \<subseteq> fst ` set (issued w)"
      using listSent_keys [OF RunResumed.hyps(2)]
      by (auto simp: run_resumed_def inv_sent_def split: if_splits)
    with RunResumed show ?case
      by (auto simp: inv_ack_def run_resumed_def clearSent_def split: if_splits)
  next
    case (Wake s w r)
    then show ?case
      by (auto simp: inv_ack_def recordAck_def split: if_splits)
  next
    case (Resend w s dpgs rs u' m)
    then have "s \<in> fst ` set (issued w)" "fst ` set rs \<subseteq> fst ` set (issued w)"
      by (simp_all add: inv_ack_def)
    then show ?case
      using Resend.prems(1) by (simp add: inv_ack_def resend_same [OF Resend.hyps(2)]) blast
  qed (auto simp: inv_ack_def handler_defs split: if_splits)
qed

text \<open>A zero maximum is not the number of an issued chunk, so a drain that stops there has issued nothing.\<close>

subsection \<open>Sending again\<close>

definition inv_resend :: "upworld \<Rightarrow> bool" where
  "inv_resend w \<longleftrightarrow>
     (\<forall>(s, dpgs) \<in> set (resends w). map_of (issued w) s = Some dpgs \<and> qos (up w) = QoSReliable)"

lemma reach_resend: "ureach w \<Longrightarrow> inv_resend w"
proof (induction rule: ureach_induct)
  case (Init al q pol a token)
  then show ?case
    by (simp add: inv_resend_def world_init_def)
next
  case (Step w w')
  note st = reach_sent [OF Step(1)] and sq = reach_sequence [OF Step(1)]
  from Step(2,3) st sq show ?case
  proof (induction rule: ustep.induct)
    case (Flush order w u' m c)
    have "map_of (issued w @ [x]) s = Some d" if "map_of (issued w) s = Some d" for s d x
      using that issued_nth(1) [OF Flush.prems(3)] by (auto simp: map_add_Some_iff split: option.split)
    with Flush.prems(1) show ?case
      by (fastforce simp: inv_resend_def flush_same [OF Flush.hyps(2)])
  next
    case (RunResumed w order u' rs)
    show ?case
    proof (cases "qos (up w) = QoSReliable")
      case True
      have "map_of (issued w) s = Some d" if "(s, d) \<in> set order" for s d
      proof -
        from that RunResumed.hyps(2) have "sentBuf (up w) s = Some d"
          by (metis listSent_def map_of_is_SomeI)
        with True RunResumed.prems(2) show ?thesis
          by (auto simp: inv_sent_def restrict_map_def split: if_splits)
      qed
      with True RunResumed.hyps(3) show ?thesis
        by (auto simp: inv_resend_def run_resumed_def)
    next
      case False
      with RunResumed.hyps(3) show ?thesis
        by (auto simp: inv_resend_def run_resumed_def)
    qed
  next
    case (Resend w s dpgs rs u' m)
    then show ?case
      by (auto simp: inv_resend_def resend_def)
  qed (auto simp: inv_resend_def handler_defs split: if_splits)
qed

subsection \<open>What goes to the wire\<close>

definition inv_wire :: "upworld \<Rightarrow> bool" where
  "inv_wire w \<longleftrightarrow>
     (\<forall>m \<in> set (tosend w) \<union> set (wired w). \<exists>alias ra s gs.
        m = chunk_message alias ra s gs \<and> map_of (issued w) s = Some gs \<and> ra \<subseteq>\<^sub>m revDataIDAliases (up w))"

lemma processDataIDAliases_mono: "revDataIDAliases u \<subseteq>\<^sub>m revDataIDAliases (processDataIDAliases al u)"
proof (induction al u rule: processDataIDAliases.induct)
  case (2 a d aliases u)
  let ?u = "if revDataIDAliases u d \<noteq> None then u
    else u\<lparr>revDataIDAliases := (revDataIDAliases u)(d \<mapsto> a), dataIDAliases := (dataIDAliases u)(a \<mapsto> d)\<rparr>"
  have "revDataIDAliases u \<subseteq>\<^sub>m revDataIDAliases ?u"
    by (auto simp: map_le_def)
  moreover have "revDataIDAliases ?u \<subseteq>\<^sub>m revDataIDAliases (processDataIDAliases aliases ?u)"
    by (rule 2)
  ultimately show ?case
    unfolding processDataIDAliases.simps(2) by (rule map_le_trans)
qed simp

lemma inv_wireI:
  assumes "inv_wire w" and "revDataIDAliases (up w) \<subseteq>\<^sub>m revDataIDAliases (up w')"
    and "map_of (issued w) \<subseteq>\<^sub>m map_of (issued w')"
    and "\<And>m. m \<in> set (tosend w') \<union> set (wired w') \<Longrightarrow> m \<in> set (tosend w) \<union> set (wired w) \<or>
      (\<exists>alias s gs. m = chunk_message alias (revDataIDAliases (up w')) s gs \<and> map_of (issued w') s = Some gs)"
  shows "inv_wire w'"
  unfolding inv_wire_def
proof
  fix m assume "m \<in> set (tosend w') \<union> set (wired w')"
  from assms(4) [OF this] show "\<exists>alias ra s gs. m = chunk_message alias ra s gs \<and> map_of (issued w') s = Some gs \<and>
      ra \<subseteq>\<^sub>m revDataIDAliases (up w')"
  proof
    assume "m \<in> set (tosend w) \<union> set (wired w)"
    with assms(1) [unfolded inv_wire_def, rule_format, of m]
    obtain x ra s gs where "m = chunk_message x ra s gs" "map_of (issued w) s = Some gs"
      "ra \<subseteq>\<^sub>m revDataIDAliases (up w)"
      by blast
    then show ?thesis
      using assms(2,3) by (metis domI map_le_def map_le_trans)
  next
    show ?thesis if "\<exists>alias s gs. m = chunk_message alias (revDataIDAliases (up w')) s gs \<and> map_of (issued w') s = Some gs"
      using that by (metis map_le_refl)
  qed
qed

lemma run_resumed_aliases:
  "run_resumed order u = (u', rs) \<Longrightarrow> revDataIDAliases u' = revDataIDAliases u"
  by (auto simp: run_resumed_def clearSent_def split: if_splits)

lemma reach_wire: "ureach w \<Longrightarrow> inv_wire w"
proof (induction rule: ureach_induct)
  case (Init al q pol a token)
  then show ?case
    by (simp add: inv_wire_def world_init_def)
next
  case (Step w w')
  note sq = reach_sequence [OF Step(1)] and rs = reach_resend [OF Step(1)]
  from Step(2,3) sq rs show ?case
  proof (induction rule: ustep.induct)
    case (Flush order w u' m c)
    have "validateState (up w) = None" "IscpUpstreamChunk.SequenceNumber c = seqCurrent (up w) + 1"
      using Flush.hyps(2) by (auto elim: flush_SomeE)
    then have n: "IscpUpstreamChunk.SequenceNumber c \<notin> fst ` set (issued w)"
      using fresh_number [OF Flush.prems(2)] by simp
    then have "map_of (issued w) (IscpUpstreamChunk.SequenceNumber c) = None"
      by (simp add: map_of_eq_None_iff)
    note n = n this
    show ?case
      by (rule inv_wireI [OF Flush.prems(1)])
        (use n in \<open>auto simp: flush_same [OF Flush.hyps(2)] map_of_snoc map_le_def
          simp del: map_of_append\<close>)
  next
    case (Resend w s dpgs rs u' m)
    then have "map_of (issued w) s = Some dpgs"
      by (simp add: inv_resend_def)
    then show ?case
      by (intro inv_wireI [OF Resend.prems(1)]) (use Resend.hyps(2) in \<open>auto simp: resend_def\<close>)
  next
    case (Aliases w al)
    then show ?case
      by (intro inv_wireI [OF Aliases.prems(1)]) (auto simp: processDataIDAliases_mono)
  next
    case (Send m w)
    then show ?case
      by (intro inv_wireI [OF Send.prems(1)]) (auto dest: notin_set_remove1)
  next
    case (SendFailed m w)
    then show ?case
      by (intro inv_wireI [OF SendFailed.prems(1)]) (auto dest: notin_set_remove1)
  next
    case (RunResumed w order u' rs)
    then show ?case
      by (auto simp: inv_wire_def run_resumed_aliases [OF RunResumed.hyps(3)])
  next
    case (CloseSent sid rid cs w u' req)
    then show ?case
      by (auto simp: inv_wire_def closeWithError_same [OF CloseSent.hyps])
  qed (auto simp: inv_wire_def)
qed

subsection \<open>Closing\<close>

definition inv_close :: "upworld \<Rightarrow> bool" where
  "inv_close w \<longleftrightarrow> length (requests w) \<le> (if closeRequested (up w) then 1 else 0)"

lemma reach_close: "ureach w \<Longrightarrow> inv_close w"
proof (induction rule: ureach_induct)
  case (Init al q pol a token)
  then show ?case
    by (simp add: inv_close_def world_init_def upstream_init_def)
next
  case (Step w w')
  from Step(2,3) show ?case
  proof (induction rule: ustep.induct)
    case (Flush order w u' m c)
    then show ?case
      by (simp add: inv_close_def flush_same [OF Flush.hyps(2)])
  next
    case (CloseSent sid rid cs w u' req)
    then show ?case
      by (simp add: inv_close_def closeWithError_same [OF CloseSent.hyps])
  next
    case (RunResumed w order u' rs)
    then show ?case
      by (auto simp: inv_close_def run_resumed_def clearSent_def split: if_splits)
  next
    case (Resend w s dpgs rs u' m)
    then show ?case
      by (simp add: inv_close_def resend_same [OF Resend.hyps(2)])
  qed (simp_all add: inv_close_def)
qed

end
