(* ===== verification/Upstream_Properties.thy ===== *)
theory Upstream_Properties
  imports Upstream
begin

text \<open>
  What the upstream promises, over every interleaving of its goroutines, and sample runs to which the
  promises apply.
\<close>

section \<open>Sample runs\<close>

definition do_write :: "StreamGroup \<Rightarrow> upworld \<Rightarrow> upworld" where
  "do_write g w =
     (if sendBufferDataPointsCount (up w) + length (GroupPoints g) < 2 ^ 63
      then w\<lparr>up := fst (bufferPoints g (up w)), written := written w @ [g]\<rparr> else w)"

definition do_flush :: "upworld \<Rightarrow> upworld" where
  "do_flush w =
     (case flush (sendBuffer (up w)) (up w) of
        (u', Inr (Some (m, c))) \<Rightarrow> w\<lparr>up := u', tosend := tosend w @ [m],
          issued := issued w @ [(IscpUpstreamChunk.SequenceNumber c, IscpUpstreamChunk.DataPointGroups c)]\<rparr>
      | _ \<Rightarrow> w)"

definition do_send :: "upworld \<Rightarrow> upworld" where
  "do_send w = (case tosend w of [] \<Rightarrow> w | m # ms \<Rightarrow>
     w\<lparr>tosend := remove1 m (tosend w), wired := wired w @ [m], waiting := chunk_seq m # waiting w\<rparr>)"

definition ack_result :: "u32 \<Rightarrow> UpstreamChunkResult" where
  "ack_result n = \<lparr>UpstreamChunkResult.SequenceNumber = n, UpstreamChunkResult.ResultCode = ResultCodeSucceeded,
     UpstreamChunkResult.ResultString = ''OK'', UpstreamChunkResult.ExtensionFields = None\<rparr>"

definition do_ack :: "u32 \<Rightarrow> upworld \<Rightarrow> upworld" where
  "do_ack n w = w\<lparr>up := processResult (ack_result n) (up w),
     acked := acked w \<union> ({UpstreamChunkResult.SequenceNumber (ack_result n)} \<inter> fst ` set (issued w))\<rparr>"

definition do_wake :: "u32 \<Rightarrow> upworld \<Rightarrow> upworld" where
  "do_wake n w =
     (if n \<in> set (waiting w) \<and> n \<in> acked w
      then w\<lparr>up := recordAck n (Some (ack_result n)) (up w), waiting := remove1 n (waiting w)\<rparr> else w)"

lemma reach_do [simp, intro]:
  assumes "ureach w"
  shows "ureach (do_write g w)" and "ureach (do_flush w)" and "ureach (do_send w)" and "ureach (do_ack n w)"
    and "ureach (do_wake n w)"
proof -
  show "ureach (do_write g w)"
    using assms ustep.Write [of w g] by (simp add: do_write_def ureach.Step del: bufferPoints_simps)
  show "ureach (do_flush w)"
    using assms by (auto simp: do_flush_def intro: ureach.Step ustep.Flush split: prod.split sum.split option.split)
  show "ureach (do_send w)"
  proof (cases "tosend w")
    case (Cons m ms)
    then show ?thesis
      using assms ustep.Send [of m w] by (simp add: do_send_def ureach.Step)
  qed (simp add: do_send_def assms)
  show "ureach (do_ack n w)"
    using assms by (auto simp only: do_ack_def intro: ureach.Step ustep.Ack)
  show "ureach (do_wake n w)"
    using assms by (auto simp: do_wake_def intro: ureach.Step ustep.Wake)
qed

definition sample_group :: "duration \<Rightarrow> StreamGroup" where
  "sample_group t = \<lparr>GroupID = \<lparr>DataID.Name = ''speed'', DataID.Type = ''f''\<rparr>,
     GroupPoints = [\<lparr>DataPoint.ElapsedTime = t, DataPoint.Payload = [1, 2]\<rparr>]\<rparr>"

definition sample_start :: upworld where
  "sample_start = world_init [] QoSReliable flushPolicyImmediately 5 ''token''"

lemma reach_sample_start [simp]: "ureach sample_start"
  unfolding sample_start_def by (rule ureach.Init)

text \<open>Two points in chunk 1, one in chunk 2, one in the buffer; chunk 1 sent and acknowledged.\<close>

definition sample_run :: upworld where
  "sample_run = do_ack 1 (do_send (do_write (sample_group 40) (do_flush (do_write (sample_group 30)
     (do_flush (do_write (sample_group 20) (do_write (sample_group 10) sample_start)))))))"

text \<open>Two chunks, both sent; only the second one acknowledged, and its goroutine woken.\<close>

definition sample_gap :: upworld where
  "sample_gap = do_wake 2 (do_ack 2 (do_send (do_send (do_flush (do_write (sample_group 20)
     (do_flush (do_write (sample_group 10) sample_start)))))))"

lemma reach_samples [simp]: "ureach sample_run" "ureach sample_gap"
  by (simp_all add: sample_run_def sample_gap_def)

lemmas sample_defs = do_write_def do_flush_def do_send_def do_ack_def do_wake_def ack_result_def sample_group_def
  sample_start_def world_init_def upstream_init_def flush_def validateState_def toUpstreamChunk_def sequence_Next_def
  clearBuffer_def storeSent_def processResult_def removeSent_def recordAck_def Let_def chunk_seq_def chunk_message_def

lemma sample_run_state:
  "map fst (issued sample_run) = [1, 2]" "acked sample_run = {1}" "qos (up sample_run) = QoSReliable"
  "written sample_run = map sample_group [10, 20, 30, 40]"
  by (simp_all add: sample_run_def sample_defs toUpstreamDataPointGroups_def case_prod_beta)

section \<open>Properties\<close>

lemma word_of_nat_max:
  assumes "n < 2 ^ 32" and "(of_nat n :: u32) = - 1"
  shows "n = 2 ^ 32 - 1"
proof -
  have "n = unat (of_nat n :: u32)"
    using assms(1) by (simp add: unsigned_of_nat take_bit_nat_eq_self)
  also have "\<dots> = 2 ^ 32 - 1"
    unfolding assms(2) by (simp add: unsigned_minus_1_eq_mask mask_eq_exp_minus_1)
  finally show ?thesis .
qed

lemma validateState_reach:
  assumes "ureach w"
  shows "validateState (up w) =
      (if points_count (concat (map snd (issued w))) + sendBufferDataPointsCount (up w) \<ge> 2 ^ 64 then Some TotalExceeded
       else if length (issued w) = 2 ^ 32 - 1 then Some SequenceExceeded else None)"
proof -
  let ?t = "totalDataPoints (up w)" and ?c = "sendBufferDataPointsCount (up w)"
  have c: "unat (of_nat ?c :: u64) = ?c"
    using reach_buffer [OF assms] by (simp add: inv_buffer_def unsigned_of_nat take_bit_nat_eq_self)
  have s: "unat ?t = points_count (concat (map snd (issued w)))" "seqCurrent (up w) = of_nat (length (issued w))"
    "length (issued w) < 2 ^ 32"
    using reach_sequence [OF assms] by (simp_all add: inv_sequence_def issued_points_def)
  have "?t + of_nat ?c < ?t \<longleftrightarrow> unat ?t + ?c \<ge> 2 ^ 64"
    using no_olen_add_nat [of ?t "of_nat ?c"] c by (simp add: not_le [symmetric])
  moreover have "seqCurrent (up w) = - 1 \<longleftrightarrow> length (issued w) = 2 ^ 32 - 1"
  proof
    assume "seqCurrent (up w) = - 1"
    then show "length (issued w) = 2 ^ 32 - 1"
      using s word_of_nat_max [of "length (issued w)"] by simp
  next
    assume "length (issued w) = 2 ^ 32 - 1"
    with s(2) show "seqCurrent (up w) = - 1" by simp
  qed
  ultimately show ?thesis
    using s(1) by (simp add: validateState_def Let_def)
qed

lemma listed_entries:
  assumes "distinct (map fst xs)" and "distinct (map fst ys)" and "map_of xs = map_of ys |` (- A)"
  shows "set xs = {(s, gs). (s, gs) \<in> set ys \<and> s \<notin> A}"
proof -
  have "x \<in> set xs \<longleftrightarrow> x \<in> set ys \<and> fst x \<notin> A" for x
  proof -
    have "x \<in> set xs \<longleftrightarrow> map_of xs (fst x) = Some (snd x)"
      using map_of_eq_Some_iff [OF assms(1), of "fst x" "snd x"] by simp
    also have "\<dots> \<longleftrightarrow> map_of ys (fst x) = Some (snd x) \<and> fst x \<notin> A"
      unfolding assms(3) by (simp add: restrict_map_def)
    finally show ?thesis
      using map_of_eq_Some_iff [OF assms(2), of "fst x" "snd x"] by simp
  qed
  then show ?thesis by (auto simp: case_prod_beta)
qed

lemma map_of_filter_keys: "map_of (filter (\<lambda>x. P (fst x)) xs) = map_of xs |` {k. P k}"
  by (induction xs) (auto simp: restrict_map_def fun_eq_iff)

lemma listSent_ex:
  assumes "ureach w" and "qos (up w) = QoSReliable"
  shows "\<exists>order. listSent (up w) order"
proof
  show "listSent (up w) (filter (\<lambda>x. fst x \<notin> acked w) (issued w))"
    using reach_sent [OF assms(1)] issued_nth(1) [OF reach_sequence [OF assms(1)]] assms(2)
    by (simp add: listSent_def inv_sent_def map_of_filter_keys [of "\<lambda>s. s \<notin> acked w"] Compl_eq distinct_map_filter)
qed

text \<open>
  C1: No data point is lost, duplicated or reordered between the application and the chunks: for each data ID,
  the points in the chunks issued so far, in the order of the chunks, followed by the points still in the
  buffer, are the points written for it.
\<close>
theorem written_points_are_chunked:
  assumes "ureach w"
  shows "points_of d (concat (map snd (issued w))) @ buf_points d (sendBuffer (up w)) = points_of d (written w)"
  using reach_conserved [OF assms] by (simp add: inv_conserved_def issued_points_def)

theorem written_points_are_chunked_witness:
  "points_of (GroupID (sample_group 0)) (concat (map snd (issued sample_run))) @
     buf_points (GroupID (sample_group 0)) (sendBuffer (up sample_run)) =
   concat (map (GroupPoints \<circ> sample_group) [10, 20, 30, 40])"
proof -
  have "ureach sample_run" by simp
  from written_points_are_chunked [OF this, of "GroupID (sample_group 0)"] show ?thesis
    by (simp add: sample_run_state points_of_def sample_group_def)
qed

text \<open>
  C21: The chunks are numbered 1, 2, 3, and so on, without a repetition; the numbers never wrap, and
  \<open>totalDataPoints\<close> is exactly the number of data points in the chunks.
\<close>
theorem chunks_are_numbered:
  assumes "ureach w"
  shows "map fst (issued w) = map of_nat [1..<Suc (length (issued w))] \<and> distinct (map fst (issued w)) \<and>
    seqCurrent (up w) = of_nat (length (issued w)) \<and> length (issued w) < 2 ^ 32 \<and>
    unat (totalDataPoints (up w)) = points_count (concat (map snd (issued w)))"
  using reach_sequence [OF assms] issued_nth(1) by (auto simp: inv_sequence_def issued_points_def)

theorem chunks_are_numbered_witness:
  "map fst (issued sample_run) = map of_nat [1..<Suc (length (issued sample_run))] \<and>
    distinct (map fst (issued sample_run)) \<and> seqCurrent (up sample_run) = of_nat (length (issued sample_run)) \<and>
    length (issued sample_run) < 2 ^ 32 \<and>
    unat (totalDataPoints (up sample_run)) = points_count (concat (map snd (issued sample_run)))"
proof -
  have "ureach sample_run" by simp
  from chunks_are_numbered [OF this] show ?thesis .
qed

text \<open>
  C2: A reliable upstream keeps every chunk it has issued, with its data points, until it is acknowledged, and
  nothing else; what a resumed stream sends again is exactly that.
\<close>
theorem unacknowledged_chunks_are_resent:
  assumes "ureach w" and "qos (up w) = QoSReliable"
    and "listSent (up w) order" and "run_resumed order (up w) = (u', rs)"
  shows "set rs = {(s, gs). (s, gs) \<in> set (issued w) \<and> s \<notin> acked w} \<and> distinct (map fst rs) \<and> u' = up w"
proof -
  have rs: "rs = order" "u' = up w"
    using assms(2,4) by (auto simp: run_resumed_def)
  have order: "distinct (map fst order)" "map_of order = map_of (issued w) |` (- acked w)"
    using assms(2,3) reach_sent [OF assms(1)] by (simp_all add: listSent_def inv_sent_def)
  have "set order = {(s, gs). (s, gs) \<in> set (issued w) \<and> s \<notin> acked w}"
    by (rule listed_entries [OF order(1) issued_nth(1) [OF reach_sequence [OF assms(1)]] order(2)])
  with rs order show ?thesis by simp
qed

theorem unacknowledged_chunks_are_resent_witness:
  "\<exists>order. listSent (up sample_run) order \<and>
    set (snd (run_resumed order (up sample_run))) = {(s, gs). (s, gs) \<in> set (issued sample_run) \<and> s \<notin> {1}}"
proof -
  have r: "ureach sample_run" by simp
  obtain order where l: "listSent (up sample_run) order"
    using listSent_ex [OF r sample_run_state(3)] by blast
  obtain u' rs where rr: "run_resumed order (up sample_run) = (u', rs)"
    by fastforce
  from unacknowledged_chunks_are_resent [OF r sample_run_state(3) l rr] sample_run_state(2) rr l
  show ?thesis by auto
qed


text \<open>A run that is drained: the second chunk is acknowledged and nothing was written after it.\<close>

definition sample_drained :: upworld where
  "sample_drained = do_ack 1 (do_ack 2 (do_flush (do_write (sample_group 20) (do_flush (do_write (sample_group 10) sample_start)))))"

lemma sample_drained_state:
  "ureach sample_drained" "nothingRemains (up sample_drained)" "qos (up sample_drained) = QoSReliable"
  "written sample_drained = map sample_group [10, 20]"
  by (simp_all add: sample_drained_def)
    (simp_all add: sample_defs nothingRemains_def toUpstreamDataPointGroups_def case_prod_beta)


text \<open>
  The shortcut of the drain is taken when the last issued chunk was acknowledged, or none was issued; it does
  not look at the earlier ones: a reliable upstream can be told that everything was acknowledged while a chunk
  that was written, issued and put on the wire is not.
\<close>
theorem drain_shortcut_ignores_earlier_chunks:
  "(\<forall>w. ureach w \<and> alreadyReceivedLastSentAck (up w) \<longrightarrow> issued w = [] \<or> fst (last (issued w)) \<in> acked w) \<and>
   (\<exists>w s gs. ureach w \<and> qos (up w) = QoSReliable \<and> sendBuffer (up w) = [] \<and> alreadyReceivedLastSentAck (up w) \<and>
     (s, gs) \<in> set (issued w) \<and> s \<notin> acked w \<and> \<not> nothingRemains (up w))"
proof (intro conjI allI impI)
  fix w assume w: "ureach w \<and> alreadyReceivedLastSentAck (up w)"
  then have a: "maxSequenceNumberInReceivedUpstreamChunkResults (up w) = 0 \<or>
      maxSequenceNumberInReceivedUpstreamChunkResults (up w) \<in> acked w"
    and m: "maxSequenceNumberInReceivedUpstreamChunkResults (up w) = of_nat (length (issued w))"
    and l: "length (issued w) < 2 ^ 32"
    using reach_ack [of w] reach_sequence [of w]
    by (simp_all add: inv_ack_def inv_sequence_def alreadyReceivedLastSentAck_def)
  show "issued w = [] \<or> fst (last (issued w)) \<in> acked w"
  proof (cases "issued w = []")
    case False
    then have "unat (of_nat (length (issued w)) :: u32) \<noteq> 0"
      using l by (simp add: unsigned_of_nat take_bit_nat_eq_self)
    then have "(of_nat (length (issued w)) :: u32) \<noteq> 0" by force
    moreover have "fst (last (issued w)) = of_nat (length (issued w))"
      using issued_nth(2) [OF reach_sequence, of w "length (issued w) - 1"] w False
      by (simp add: last_conv_nth del: of_nat_Suc)
    ultimately show ?thesis using a m by simp
  qed simp
next
  have "fst ` set (issued sample_gap) = {1, 2}" "acked sample_gap = {2}" "qos (up sample_gap) = QoSReliable"
    "sendBuffer (up sample_gap) = []" "alreadyReceivedLastSentAck (up sample_gap)" "\<not> nothingRemains (up sample_gap)"
    by (auto simp: sample_gap_def sample_defs toUpstreamDataPointGroups_def case_prod_beta
        alreadyReceivedLastSentAck_def nothingRemains_def fun_eq_iff)
  moreover then obtain gs where "(1, gs) \<in> set (issued sample_gap)"
    by (metis (no_types, lifting) fst_conv image_iff insertI1 prod.collapse)
  moreover have "(1 :: u32) \<notin> {2}" by simp
  ultimately show "\<exists>w s gs. ureach w \<and> qos (up w) = QoSReliable \<and> sendBuffer (up w) = [] \<and>
      alreadyReceivedLastSentAck (up w) \<and> (s, gs) \<in> set (issued w) \<and> s \<notin> acked w \<and> \<not> nothingRemains (up w)"
    using reach_samples(2) by metis
qed

text \<open>
  C23: A peer whose table holds every alias it has assigned reads each chunk on the wire, first sent or sent
  again, as the chunk that was issued under its number: the data IDs and the data points of its groups, in order;
  \<open>DataIDs\<close> lists, once each, the data IDs that are not replaced by an alias.
\<close>
theorem wire_chunks_read_back:
  assumes "ureach w" and "m \<in> set (tosend w) \<union> set (wired w)"
    and "\<And>d a. revDataIDAliases (up w) d = Some a \<Longrightarrow> tbl a = Some d"
  shows "\<exists>sc s gs groups. UpstreamChunk.StreamChunk m = Some sc \<and> StreamChunk.SequenceNumber sc = s \<and>
    map_of (issued w) s = Some gs \<and> StreamChunk.DataPointGroups sc = map Some groups \<and>
    map (peer_group tbl) groups = map (\<lambda>g. Some (GroupID g, map Some (GroupPoints g))) gs \<and>
    distinct (UpstreamChunk.DataIDs m) \<and>
    set (UpstreamChunk.DataIDs m) = {Some d |d. \<exists>g \<in> set groups. DataPointGroup.DataIDOrAlias g = DOA_DataID (Some d)}"
proof -
  obtain x ra s gs where m: "m = chunk_message x ra s gs" and i: "map_of (issued w) s = Some gs"
    and le: "ra \<subseteq>\<^sub>m revDataIDAliases (up w)"
    using reach_wire [OF assms(1), unfolded inv_wire_def, rule_format, OF assms(2)] by blast
  have tbl: "\<And>d a. ra d = Some a \<Longrightarrow> tbl a = Some d"
    using le assms(3) by (metis domI map_le_def)
  obtain groups ids where g: "toUpstreamDataPointGroups ra gs = (groups, ids)" by fastforce
  have "map (peer_group tbl) groups = map (\<lambda>g. Some (GroupID g, map Some (GroupPoints g))) gs"
    using peer_reads_groups_loop [of ra tbl "{}" gs, OF tbl] g by (simp add: toUpstreamDataPointGroups_def)
  moreover have "distinct ids" "set ids = {d. \<exists>g \<in> set groups. DataPointGroup.DataIDOrAlias g = DOA_DataID (Some d)}"
    using listed_ids_loop [of ra "{}" gs] listed_ids_groups [of ra "{}" gs] g
    by (simp_all add: toUpstreamDataPointGroups_def)
  ultimately show ?thesis
    using i by (auto simp: m chunk_message_def g distinct_map)
qed

text \<open>A run in which the peer has assigned an alias between two chunks that are both sent.\<close>

definition sample_aliased :: upworld where
  "sample_aliased = (let w = do_send (do_flush (do_write (sample_group 10) sample_start)) in
     do_send (do_flush (do_write (sample_group 20)
       (w\<lparr>up := processDataIDAliases [(3, GroupID (sample_group 0))] (up w)\<rparr>))))"

lemma sample_aliased_state:
  "ureach sample_aliased" "length (wired sample_aliased) = 2"
  "revDataIDAliases (up sample_aliased) = [GroupID (sample_group 0) \<mapsto> 3]"
proof -
  have "ureach (w\<lparr>up := processDataIDAliases al (up w)\<rparr>)" if "ureach w" for w al
    using that ustep.Aliases by (rule ureach.Step)
  then show "ureach sample_aliased"
    by (simp add: sample_aliased_def Let_def del: processDataIDAliases.simps)
  show "length (wired sample_aliased) = 2"
    by (simp add: sample_aliased_def sample_defs toUpstreamDataPointGroups_def case_prod_beta)
  show "revDataIDAliases (up sample_aliased) = [GroupID (sample_group 0) \<mapsto> 3]"
    by (simp add: sample_aliased_def sample_defs case_prod_beta)
qed

theorem wire_chunks_read_back_witness:
  "\<exists>sc s gs groups. UpstreamChunk.StreamChunk (wired sample_aliased ! 1) = Some sc \<and>
    StreamChunk.SequenceNumber sc = s \<and> map_of (issued sample_aliased) s = Some gs \<and>
    StreamChunk.DataPointGroups sc = map Some groups \<and>
    map (peer_group [3 \<mapsto> GroupID (sample_group 0)]) groups = map (\<lambda>g. Some (GroupID g, map Some (GroupPoints g))) gs \<and>
    distinct (UpstreamChunk.DataIDs (wired sample_aliased ! 1)) \<and>
    set (UpstreamChunk.DataIDs (wired sample_aliased ! 1)) =
      {Some d |d. \<exists>g \<in> set groups. DataPointGroup.DataIDOrAlias g = DOA_DataID (Some d)}"
proof (rule wire_chunks_read_back [OF sample_aliased_state(1)])
  show "wired sample_aliased ! 1 \<in> set (tosend sample_aliased) \<union> set (wired sample_aliased)"
    using sample_aliased_state(2) by auto
  show "[3 \<mapsto> GroupID (sample_group 0)] a = Some d" if "revDataIDAliases (up sample_aliased) d = Some a" for a d
    using that by (auto simp: sample_aliased_state(3) split: if_splits)
qed

theorem drain_shortcut_ignores_earlier_chunks_witness:
  "issued sample_gap = [] \<or> fst (last (issued sample_gap)) \<in> acked sample_gap"
proof -
  have "ureach sample_gap \<and> alreadyReceivedLastSentAck (up sample_gap)"
    by (simp, simp add: sample_gap_def sample_defs toUpstreamDataPointGroups_def case_prod_beta alreadyReceivedLastSentAck_def)
  with drain_shortcut_ignores_earlier_chunks show ?thesis by blast
qed

text \<open>
  C26: The upstream sends at most one close request, whatever paths race to close it; the request carries the
  exact number of data points and the number of the last chunk issued when it is made.
\<close>
theorem close_request_is_exact:
  assumes "ureach w" and "closeWithError sid rid cs (up w) = (u', Some req)"
  shows "requests w = [] \<and> unat (UpstreamCloseRequest.TotalDataPoints req) = points_count (concat (map snd (issued w))) \<and>
    unat (UpstreamCloseRequest.FinalSequenceNumber req) = length (issued w) \<and>
    closeWithError sid' rid' cs' u' = (u', None)"
proof -
  have "length (issued w) < 2 ^ 32" "seqCurrent (up w) = of_nat (length (issued w))"
    "unat (totalDataPoints (up w)) = points_count (concat (map snd (issued w)))"
    using reach_sequence [OF assms(1)] by (simp_all add: inv_sequence_def issued_points_def)
  moreover have "requests w = []"
    using reach_close [OF assms(1)] closeWithError_same(6) [OF assms(2)] by (simp add: inv_close_def)
  ultimately show ?thesis
    using closeWithError_same(4,7) [OF assms(2)]
    by (simp add: closeWithError_def CompareAndSwap_def Let_def unsigned_of_nat take_bit_nat_eq_self)
qed

theorem close_request_is_exact_witness:
  "\<exists>u' req. closeWithError 7 12 True (up sample_run) = (u', Some req) \<and>
    unat (UpstreamCloseRequest.TotalDataPoints req) = points_count (concat (map snd (issued sample_run))) \<and>
    unat (UpstreamCloseRequest.FinalSequenceNumber req) = length (issued sample_run)"
proof -
  have "snd (closeWithError 7 12 True (up sample_run)) \<noteq> None"
    by (simp add: sample_run_def sample_defs closeWithError_def CompareAndSwap_def toUpstreamDataPointGroups_def case_prod_beta)
  then obtain u' req where r: "closeWithError 7 12 True (up sample_run) = (u', Some req)"
    by (metis option.exhaust_sel prod.collapse)
  have "ureach sample_run" by simp
  from close_request_is_exact [OF this r] r show ?thesis by blast
qed

text \<open>
  C27: The limits of a stream. A flush of a non-empty buffer fails, without changing the upstream, exactly when the
  data points written would number \<open>2 ^ 64\<close> or more, or when \<open>2 ^ 32 - 1\<close> chunks have been issued; otherwise it
  issues the chunk with the next number, whose groups are the entries of the buffer in the order in which the
  map is visited, and empties the buffer.
\<close>
theorem flush_limits:
  assumes "ureach w" and "sendBuffer (up w) \<noteq> []"
  shows "case flush order (up w) of
      (u', Inl TotalExceeded) \<Rightarrow>
        u' = up w \<and> points_count (concat (map snd (issued w))) + sendBufferDataPointsCount (up w) \<ge> 2 ^ 64
    | (u', Inl SequenceExceeded) \<Rightarrow> u' = up w \<and> length (issued w) = 2 ^ 32 - 1
    | (u', Inr None) \<Rightarrow> False
    | (u', Inr (Some (m, c))) \<Rightarrow>
        points_count (concat (map snd (issued w))) + sendBufferDataPointsCount (up w) < 2 ^ 64 \<and>
        length (issued w) < 2 ^ 32 - 1 \<and> IscpUpstreamChunk.SequenceNumber c = of_nat (Suc (length (issued w))) \<and>
        IscpUpstreamChunk.DataPointGroups c = groups_of order \<and>
        m = chunk_message (idAlias (up w)) (revDataIDAliases (up w)) (of_nat (Suc (length (issued w)))) (groups_of order) \<and>
        sendBuffer u' = [] \<and> sendBufferDataPointsCount u' = 0"
proof -
  have v: "validateState (up w) =
      (if points_count (concat (map snd (issued w))) + sendBufferDataPointsCount (up w) \<ge> 2 ^ 64 then Some TotalExceeded
       else if length (issued w) = 2 ^ 32 - 1 then Some SequenceExceeded else None)"
    using validateState_reach [OF assms(1)] .
  have n: "seqCurrent (up w) = of_nat (length (issued w))" "length (issued w) < 2 ^ 32"
    using reach_sequence [OF assms(1)] by (simp_all add: inv_sequence_def)
  show ?thesis
    unfolding flush_def v
    using assms(2) n
    by (auto simp: toUpstreamChunk_def sequence_Next_def clearBuffer_def storeSent_def groups_of_def Let_def
        add.commute)
qed

theorem flush_limits_witness:
  "\<exists>u' m c. flush (sendBuffer (up sample_run)) (up sample_run) = (u', Inr (Some (m, c))) \<and>
    IscpUpstreamChunk.SequenceNumber c = 3"
proof -
  have b: "sendBuffer (up sample_run) \<noteq> []" and i: "length (issued sample_run) = 2"
    and p: "points_count (concat (map snd (issued sample_run))) + sendBufferDataPointsCount (up sample_run) = 4"
    by (simp_all add: sample_run_def sample_defs toUpstreamDataPointGroups_def case_prod_beta points_count_def)
  have "ureach sample_run" by simp
  from flush_limits [OF this b, of "sendBuffer (up sample_run)"] show ?thesis
    by (auto simp: i p split: prod.splits sum.splits validate_error.splits option.splits)
qed

end
