(* ===== verification/Downstream.thy ===== *)
theory Downstream
  imports Stream_Data Generators "HOL-Library.AList" "HOL-Library.Multiset"
begin

text \<open>
  A downstream (\<open>src/iscp/downstream.go\<close>): chunks arrive on a queue, the application reads them, their
  data IDs and upstreams are given aliases, and the results and the new aliases go back to the peer in
  acknowledgements.

  Each critical section under \<open>d.mu\<close> is a function on the record; a call of \<open>ReadDataPoints\<close> is a
  sequence of them, and the relation \<open>dstep\<close> interleaves the calls with the flush of acknowledgements.
\<close>

section \<open>State\<close>

text \<open>
  \<open>upstreamInfos\<close> holds pointers, and the code compares them; an entry is the alias, the address and the
  information. The ack buffers are Go maps, held as association lists. \<open>dataPointsCh\<close> is the queue of
  received chunks, each with the address of its \<open>UpstreamInfo\<close>.
\<close>

type_synonym ref = nat

record downstream =
  dataIDAliases :: "u32 \<rightharpoonup> DataID"
  revDataIDAliases :: "DataID \<rightharpoonup> u32"
  dataIDAliasGenerator :: u32
  upstreamInfos :: "(u32 \<times> ref \<times> UpstreamInfo) list"
  upstreamInfoAliasGenerator :: u32
  upstreamInfoAckBuffer :: "(u32 \<times> UpstreamInfo) list"
  dataIDAckBuffer :: "(u32 \<times> DataID) list"
  resultAckBuffer :: "DownstreamChunkResult list"
  chunkAckIDSequence :: u32
  downAlias :: u32  \<comment> \<open>\<open>idAlias\<close>\<close>
  downStatus :: streamStatus
  downDone :: bool  \<comment> \<open>\<open>d.ctx.Done()\<close>\<close>
  downToken :: string
  dataPointsCh :: "(ref \<times> DownstreamChunk) list"

definition dataPointsCh_cap :: nat where "dataPointsCh_cap = 1024"

record DownGroup =  \<comment> \<open>\<open>iscp.DataPointGroup\<close>, with the points the chunk points to\<close>
  DownID :: DataID
  DownPoints :: "DataPoint option list"

record IscpDownstreamChunk =  \<comment> \<open>\<open>iscp.DownstreamChunk\<close>\<close>
  SequenceNumber :: u32
  DataPointGroups :: "DownGroup list"
  UpstreamInfo :: UpstreamInfo
  DownstreamFilterReferences :: "DownstreamFilterReference option list list option"

datatype read_error = PanicNil | PanicUnreachable | InvalidUpstreamInfoAlias | InvalidDataIDAlias

section \<open>Acknowledgement buffers\<close>

definition pushUpstreamInfoAckBuffer :: "(u32 \<times> UpstreamInfo) list \<Rightarrow> downstream \<Rightarrow> downstream" where
  "pushUpstreamInfoAckBuffer m d =
     d\<lparr>upstreamInfoAckBuffer := foldl (\<lambda>b (k, v). AList.update k v b) (upstreamInfoAckBuffer d) m\<rparr>"

definition pushDataIDAckBuffer :: "(u32 \<times> DataID) list \<Rightarrow> downstream \<Rightarrow> downstream" where
  "pushDataIDAckBuffer m d =
     d\<lparr>dataIDAckBuffer := foldl (\<lambda>b (k, v). AList.update k v b) (dataIDAckBuffer d) m\<rparr>"

definition pushResultAckBuffer :: "DownstreamChunkResult \<Rightarrow> downstream \<Rightarrow> downstream" where
  "pushResultAckBuffer res d = d\<lparr>resultAckBuffer := resultAckBuffer d @ [res]\<rparr>"

text \<open>The acknowledgement handed to \<open>SendDownstreamDataPointsAck\<close>, if any.\<close>

definition flushAck :: "downstream \<Rightarrow> downstream \<times> DownstreamChunkAck option" where
  "flushAck d =
     (if dataIDAckBuffer d = [] \<and> resultAckBuffer d = [] \<and> upstreamInfoAckBuffer d = [] then (d, None)
      else
        (let (seq, ackID) = sequence_Next (chunkAckIDSequence d);
             ack = \<lparr>DownstreamChunkAck.StreamIDAlias = downAlias d, DownstreamChunkAck.AckID = ackID,
               DownstreamChunkAck.Results = map Some (resultAckBuffer d),
               DownstreamChunkAck.UpstreamAliases = map (\<lambda>(a, i). (a, Some i)) (upstreamInfoAckBuffer d),
               DownstreamChunkAck.DataIDAliases = map (\<lambda>(a, i). (a, Some i)) (dataIDAckBuffer d),
               DownstreamChunkAck.ExtensionFields = None\<rparr>
         in (d\<lparr>chunkAckIDSequence := seq, upstreamInfoAckBuffer := [], dataIDAckBuffer := [], resultAckBuffer := []\<rparr>,
             Some ack)))"

section \<open>Aliases\<close>

fun filterDataID :: "DataPointGroup option list \<Rightarrow> read_error + DataID option list" where
  "filterDataID [] = Inr []"
| "filterDataID (None # gs) = Inl PanicNil"
| "filterDataID (Some v # gs) =
     bindE (filterDataID gs) (\<lambda>res. Inr (case DataPointGroup.DataIDOrAlias v of DOA_DataID t \<Rightarrow> t # res | _ \<Rightarrow> res))"

text \<open>The loop of \<open>assignDataIDAlias\<close>, with its result \<open>res\<close>.\<close>

fun assignDataIDAlias_loop ::
    "DataID option list \<Rightarrow> (u32 \<times> DataID) list \<Rightarrow> downstream \<Rightarrow> read_error + downstream \<times> (u32 \<times> DataID) list" where
  "assignDataIDAlias_loop [] res d = Inr (d, res)"
| "assignDataIDAlias_loop (None # ids) res d = Inl PanicNil"
| "assignDataIDAlias_loop (Some i # ids) res d =
     (if revDataIDAliases d i \<noteq> None then assignDataIDAlias_loop ids res d
      else let (g, a) = AliasGenerator_Next (dataIDAliasGenerator d) in
        assignDataIDAlias_loop ids (AList.update a i res)
          (d\<lparr>dataIDAliasGenerator := g, dataIDAliases := (dataIDAliases d)(a \<mapsto> i),
             revDataIDAliases := (revDataIDAliases d)(i \<mapsto> a)\<rparr>))"

definition assignDataIDAlias :: "DataID option list \<Rightarrow> downstream \<Rightarrow> read_error + downstream \<times> (u32 \<times> DataID) list" where
  "assignDataIDAlias ids d = assignDataIDAlias_loop ids [] d"

definition processDataPoints :: "DataPointGroup option list \<Rightarrow> downstream \<Rightarrow> read_error + downstream" where
  "processDataPoints gs d =
     bindE (filterDataID gs) (\<lambda>ids. bindE (assignDataIDAlias ids d) (\<lambda>(d, m). Inr (pushDataIDAckBuffer m d)))"

text \<open>\<open>p\<close> is the address \<open>info\<close> points to.\<close>

definition assignUpstreamInfoAlias :: "ref \<Rightarrow> UpstreamInfo \<Rightarrow> downstream \<Rightarrow> downstream \<times> (u32 \<times> UpstreamInfo) list" where
  "assignUpstreamInfoAlias p info d =
     (if list_ex (\<lambda>(a, q, i). q = p) (upstreamInfos d) then (d, [])
      else let (g, a) = AliasGenerator_Next (upstreamInfoAliasGenerator d) in
        (d\<lparr>upstreamInfoAliasGenerator := g, upstreamInfos := AList.update a (p, info) (upstreamInfos d)\<rparr>, [(a, info)]))"

text \<open>
  A \<open>nil\<close> \<open>*UpstreamInfo\<close> is given an alias here and dereferenced by \<open>wireToDownstreamChunk\<close>; the
  panic is placed here.
\<close>

definition processUpstreamAlias :: "ref \<Rightarrow> UpstreamOrAlias \<Rightarrow> downstream \<Rightarrow> read_error + downstream" where
  "processUpstreamAlias p a d =
     (case a of
        UOA_Info (Some t) \<Rightarrow> (let (d, m) = assignUpstreamInfoAlias p t d in Inr (pushUpstreamInfoAckBuffer m d))
      | UOA_Info None \<Rightarrow> Inl PanicNil
      | _ \<Rightarrow> Inr d)"

section \<open>Reading\<close>

definition resolveUpstream :: "UpstreamOrAlias \<Rightarrow> downstream \<Rightarrow> read_error + UpstreamInfo" where
  "resolveUpstream a d =
     (case a of
        UOA_Alias t \<Rightarrow> (case map_of (upstreamInfos d) t of None \<Rightarrow> Inl InvalidUpstreamInfoAlias | Some (p, i) \<Rightarrow> Inr i)
      | UOA_Info t \<Rightarrow> deref PanicNil t
      | _ \<Rightarrow> Inl PanicUnreachable)"

definition resolveDataID :: "downstream \<Rightarrow> DataPointGroup option \<Rightarrow> read_error + DownGroup" where
  "resolveDataID d g = bindE (deref PanicNil g) (\<lambda>v.
     bindE (case DataPointGroup.DataIDOrAlias v of
         DOA_DataID t \<Rightarrow> deref PanicNil t
       | DOA_Alias t \<Rightarrow> (case dataIDAliases d t of None \<Rightarrow> Inl InvalidDataIDAlias | Some i \<Rightarrow> Inr i)
       | _ \<Rightarrow> Inl PanicUnreachable)
       (\<lambda>i. Inr \<lparr>DownID = i, DownPoints = DataPointGroup.DataPoints v\<rparr>))"

definition wireToDownstreamChunk :: "DownstreamChunk \<Rightarrow> downstream \<Rightarrow> read_error + IscpDownstreamChunk" where
  "wireToDownstreamChunk dps d =
     bindE (resolveUpstream (DownstreamChunk.UpstreamOrAlias dps) d) (\<lambda>info.
     bindE (deref PanicNil (DownstreamChunk.StreamChunk dps)) (\<lambda>sc.
     bindE (traverse (resolveDataID d) (StreamChunk.DataPointGroups sc)) (\<lambda>dpgs.
     Inr \<lparr>IscpDownstreamChunk.SequenceNumber = StreamChunk.SequenceNumber sc,
          IscpDownstreamChunk.DataPointGroups = dpgs, IscpDownstreamChunk.UpstreamInfo = info,
          IscpDownstreamChunk.DownstreamFilterReferences = DownstreamChunk.DownstreamFilterReferences dps\<rparr>)))"

definition result_of :: "IscpDownstreamChunk \<Rightarrow> DownstreamChunkResult" where
  "result_of ps =
     \<lparr>DownstreamChunkResult.StreamIDOfUpstream = UpstreamInfo.StreamID (IscpDownstreamChunk.UpstreamInfo ps),
      DownstreamChunkResult.SequenceNumberInUpstream = IscpDownstreamChunk.SequenceNumber ps,
      DownstreamChunkResult.ResultCode = ResultCodeSucceeded, DownstreamChunkResult.ResultString = ''OK'',
      DownstreamChunkResult.ExtensionFields = None\<rparr>"

text \<open>\<open>ReadDataPoints\<close> with the chunk it has taken from the queue, when no other goroutine runs.\<close>

definition ReadDataPoints :: "ref \<Rightarrow> DownstreamChunk \<Rightarrow> downstream \<Rightarrow> read_error + downstream \<times> IscpDownstreamChunk" where
  "ReadDataPoints p dps d =
     bindE (processUpstreamAlias p (DownstreamChunk.UpstreamOrAlias dps) d) (\<lambda>d.
     bindE (deref PanicNil (DownstreamChunk.StreamChunk dps)) (\<lambda>sc.
     bindE (processDataPoints (StreamChunk.DataPointGroups sc) d) (\<lambda>d.
     bindE (wireToDownstreamChunk dps d) (\<lambda>ps.
     Inr (pushResultAckBuffer (result_of ps) d, ps)))))"

section \<open>Closing and resuming\<close>

datatype down_close = AlreadyClosed | AlreadyDraining | RequestClose bool

text \<open>
  \<open>closeWithError\<close> up to its wait or its early return: the boolean of \<open>RequestClose\<close> says that it waits
  for the final flush before it sends the request. The deferred \<open>d.cancel()\<close> runs on every path; on the early
  returns it is part of this function.
\<close>

definition Downstream_closeWithError :: "downstream \<Rightarrow> downstream \<times> down_close" where
  "Downstream_closeWithError d =
     (if downDone d then (d, AlreadyClosed)
      else let (new, before) = Swap streamStatusDraining (downStatus d);
               d = d\<lparr>downStatus := new\<rparr>
           in if before = streamStatusDraining then (d\<lparr>downDone := True\<rparr>, AlreadyDraining)
              else (d, RequestClose (before \<noteq> streamStatusResuming)))"

definition Downstream_resumed :: "bool \<Rightarrow> string \<Rightarrow> downstream \<Rightarrow> downstream" where
  "Downstream_resumed supportsResumeToken token d =
     d\<lparr>downToken := (if supportsResumeToken then token else downToken d), downStatus := streamStatusConnected\<rparr>"

text \<open>\<open>OpenDownstream\<close>: the aliases of the configured data IDs, and a new downstream.\<close>

fun initial_aliases :: "DataID list \<Rightarrow> u32 \<Rightarrow> (u32 \<times> DataID) list" where
  "initial_aliases [] g = []"
| "initial_aliases (v # vs) g = (case AliasGenerator_Next g of (g', a) \<Rightarrow> (a, v) # initial_aliases vs g')"

definition downstream_init :: "DataID list \<Rightarrow> u32 \<Rightarrow> string \<Rightarrow> downstream" where
  "downstream_init ids al token =
     (let aliases = initial_aliases ids (NewAliasGenerator 0) in
      \<lparr>dataIDAliases = foldl (\<lambda>m (a, v). m(a \<mapsto> v)) Map.empty aliases,
       revDataIDAliases = foldl (\<lambda>m (a, v). m(v \<mapsto> a)) Map.empty aliases,
       dataIDAliasGenerator = (if aliases = [] then 0 else fst (last aliases)),
       upstreamInfos = [], upstreamInfoAliasGenerator = NewAliasGenerator 0, upstreamInfoAckBuffer = [],
       dataIDAckBuffer = [], resultAckBuffer = [], chunkAckIDSequence = 0, downAlias = al,
       downStatus = streamStatusConnected, downDone = False, downToken = token, dataPointsCh = []\<rparr>)"

section \<open>The step relation\<close>

text \<open>A call of \<open>ReadDataPoints\<close> between two of its critical sections.\<close>

datatype reader =
  AssignInfo ref DownstreamChunk
| PushInfo "(u32 \<times> UpstreamInfo) list" DownstreamChunk
| AssignIDs DownstreamChunk
| PushIDs "(u32 \<times> DataID) list" DownstreamChunk
| Convert DownstreamChunk
| PushResult IscpDownstreamChunk

fun reader_step :: "reader \<Rightarrow> downstream \<Rightarrow> downstream \<times> (reader + read_error + IscpDownstreamChunk)" where
  "reader_step (AssignInfo p c) d =
     (case DownstreamChunk.UpstreamOrAlias c of
        UOA_Info (Some t) \<Rightarrow> (let (d, m) = assignUpstreamInfoAlias p t d in (d, Inl (PushInfo m c)))
      | UOA_Info None \<Rightarrow> (d, Inr (Inl PanicNil))
      | _ \<Rightarrow> (d, Inl (AssignIDs c)))"
| "reader_step (PushInfo m c) d = (pushUpstreamInfoAckBuffer m d, Inl (AssignIDs c))"
| "reader_step (AssignIDs c) d =
     (case bindE (deref PanicNil (DownstreamChunk.StreamChunk c)) (\<lambda>sc. bindE (filterDataID (StreamChunk.DataPointGroups sc))
        (\<lambda>ids. assignDataIDAlias ids d)) of
        Inl e \<Rightarrow> (d, Inr (Inl e))
      | Inr (d, m) \<Rightarrow> (d, Inl (PushIDs m c)))"
| "reader_step (PushIDs m c) d = (pushDataIDAckBuffer m d, Inl (Convert c))"
| "reader_step (Convert c) d =
     (case wireToDownstreamChunk c d of
        Inl e \<Rightarrow> (d, Inr (Inl e))
      | Inr ps \<Rightarrow> (d, Inl (PushResult ps)))"
| "reader_step (PushResult ps) d = (pushResultAckBuffer (result_of ps) d, Inr (Inr ps))"

text \<open>
  The downstream with the calls in progress and its history: the chunks received from the wire, each with whether
  the queue had room for it, the chunks taken from the queue, what the calls returned, the data ID aliases in the order in which they were assigned,
  and the acknowledgements.
\<close>

record downworld =
  down :: downstream
  arrivals :: "((ref \<times> DownstreamChunk) \<times> bool) list"
  taken :: "(ref \<times> DownstreamChunk) list"
  readers :: "reader list"
  returned :: "(read_error + IscpDownstreamChunk) list"
  assigned :: "(u32 \<times> DataID) list"
  acks :: "DownstreamChunkAck list"

definition downworld_init :: "DataID list \<Rightarrow> u32 \<Rightarrow> string \<Rightarrow> downworld" where
  "downworld_init ids al token =
     \<lparr>down = downstream_init ids al token, arrivals = [], taken = [], readers = [], returned = [],
      assigned = initial_aliases ids (NewAliasGenerator 0), acks = []\<rparr>"

fun new_ids :: "reader \<Rightarrow> (u32 \<times> DataID) list" where
  "new_ids (PushIDs m c) = m"
| "new_ids r = []"

text \<open>A chunk of a message that fits in memory.\<close>

definition small_chunk :: "DownstreamChunk \<Rightarrow> bool" where
  "small_chunk c = (case DownstreamChunk.StreamChunk c of None \<Rightarrow> True
     | Some sc \<Rightarrow> length (StreamChunk.DataPointGroups sc) < 2 ^ 31)"

text \<open>
  \<open>Receive\<close> is an iteration of \<open>readDataPointsLoop\<close>, \<open>Take\<close> the receive from the queue in
  \<open>ReadDataPoints\<close>, \<open>Flush\<close> a call of \<open>flushAck\<close> by \<open>flushAckLoop\<close>. The calls in
  progress are in a list, and any of them may be the next to run.
\<close>

inductive dstep :: "downworld \<Rightarrow> downworld \<Rightarrow> bool" where
  Receive: "length (dataPointsCh (down w)) < dataPointsCh_cap \<Longrightarrow> small_chunk (snd c) \<Longrightarrow>
    dstep w (w\<lparr>down := (down w)\<lparr>dataPointsCh := dataPointsCh (down w) @ [c]\<rparr>, arrivals := arrivals w @ [(c, True)]\<rparr>)"
| Drop: "length (dataPointsCh (down w)) \<ge> dataPointsCh_cap \<Longrightarrow>
    dstep w (w\<lparr>arrivals := arrivals w @ [(c, False)]\<rparr>)"
| Take: "dataPointsCh (down w) = (p, c) # rest \<Longrightarrow>
    dstep w (w\<lparr>down := (down w)\<lparr>dataPointsCh := rest\<rparr>, taken := taken w @ [(p, c)],
      readers := AssignInfo p c # readers w\<rparr>)"
| Continue: "readers w = rs @ r # rs' \<Longrightarrow> reader_step r (down w) = (d', Inl r') \<Longrightarrow>
    dstep w (w\<lparr>down := d', readers := rs @ r' # rs', assigned := assigned w @ new_ids r'\<rparr>)"
| Return: "readers w = rs @ r # rs' \<Longrightarrow> reader_step r (down w) = (d', Inr res) \<Longrightarrow>
    dstep w (w\<lparr>down := d', readers := rs @ rs', returned := returned w @ [res]\<rparr>)"
| Flush: "flushAck (down w) = (d', Some ack) \<Longrightarrow> dstep w (w\<lparr>down := d', acks := acks w @ [ack]\<rparr>)"
| Disconnect: "dstep w (w\<lparr>down := (down w)\<lparr>downStatus := streamStatusResuming\<rparr>\<rparr>)"
| Resume: "downStatus (down w) = streamStatusResuming \<Longrightarrow> \<not> downDone (down w) \<Longrightarrow>
    dstep w (w\<lparr>down := Downstream_resumed tok token (down w)\<rparr>)"
| Close: "dstep w (w\<lparr>down := fst (Downstream_closeWithError (down w))\<rparr>)"
| Cancelled: "dstep w (w\<lparr>down := (down w)\<lparr>downDone := True\<rparr>\<rparr>)"

inductive dreach :: "DataID list \<Rightarrow> downworld \<Rightarrow> bool" for ids where
  Init: "dreach ids (downworld_init ids al token)"
| Step: "dreach ids w \<Longrightarrow> dstep w w' \<Longrightarrow> dreach ids w'"

text \<open>A call of \<open>ReadDataPoints\<close> that is not interleaved with anything.\<close>

fun run_alone :: "nat \<Rightarrow> reader \<Rightarrow> downstream \<Rightarrow> (downstream \<times> (read_error + IscpDownstreamChunk)) option" where
  "run_alone 0 r d = None"
| "run_alone (Suc n) r d =
     (case reader_step r d of
        (d', Inl r') \<Rightarrow> run_alone n r' d'
      | (d', Inr res) \<Rightarrow> Some (d', res))"

lemma pushUpstreamInfoAckBuffer_Nil [simp]: "pushUpstreamInfoAckBuffer [] d = d"
  by (simp add: pushUpstreamInfoAckBuffer_def)

lemma reader_runs_alone_AssignIDs:
  "\<exists>d' res. run_alone 4 (AssignIDs c) d = Some (d', res) \<and>
    (case bindE (deref PanicNil (DownstreamChunk.StreamChunk c)) (\<lambda>sc.
        bindE (processDataPoints (StreamChunk.DataPointGroups sc) d) (\<lambda>d.
        bindE (wireToDownstreamChunk c d) (\<lambda>ps. Inr (pushResultAckBuffer (result_of ps) d, ps)))) of
       Inl e \<Rightarrow> res = Inl e
     | Inr (d'', ps) \<Rightarrow> d' = d'' \<and> res = Inr ps)"
proof (cases "DownstreamChunk.StreamChunk c")
  case (Some sc)
  show ?thesis
  proof (cases "bindE (filterDataID (StreamChunk.DataPointGroups sc)) (\<lambda>ids. assignDataIDAlias ids d)")
    case (Inl e)
    then show ?thesis
      by (auto simp: Some processDataPoints_def bindE_assoc [symmetric] eval_nat_numeral)
  next
    case (Inr dm)
    then show ?thesis
      by (cases dm; cases "wireToDownstreamChunk c (pushDataIDAckBuffer (snd dm) (fst dm))")
        (auto simp: Some processDataPoints_def bindE_assoc [symmetric] eval_nat_numeral)
  qed
qed (auto simp: eval_nat_numeral)

lemma run_alone_AssignInfo:
  "run_alone (Suc (Suc n)) (AssignInfo p c) d =
    (case DownstreamChunk.UpstreamOrAlias c of
       UOA_Info (Some t) \<Rightarrow> (case assignUpstreamInfoAlias p t d of
         (d, m) \<Rightarrow> run_alone n (AssignIDs c) (pushUpstreamInfoAckBuffer m d))
     | UOA_Info None \<Rightarrow> Some (d, Inl PanicNil)
     | _ \<Rightarrow> run_alone (Suc n) (AssignIDs c) d)"
proof (cases "DownstreamChunk.UpstreamOrAlias c")
  case (UOA_Info t)
  then show ?thesis
    by (cases t; cases "assignUpstreamInfoAlias p (the t) d") simp_all
qed simp_all

lemma run_alone_more: "run_alone n r d = Some x \<Longrightarrow> run_alone (Suc n) r d = Some x"
  by (induction n r d rule: run_alone.induct) (auto split: prod.splits sum.splits)

lemma reader_runs_alone:
  "\<exists>d' res. run_alone 6 (AssignInfo p c) d = Some (d', res) \<and>
    (case ReadDataPoints p c d of
       Inl e \<Rightarrow> res = Inl e
     | Inr (d'', ps) \<Rightarrow> d' = d'' \<and> res = Inr ps)"
proof -
  have 5: "run_alone 5 r d = Some x" if "run_alone 4 r d = Some x" for r d x
    using run_alone_more [OF that] by (simp add: eval_nat_numeral)
  have "Suc (Suc 4) = 6" "Suc 4 = 5" by simp_all
  then have 6: "run_alone 6 r d = run_alone (Suc (Suc 4)) r d" "run_alone (Suc 4) r d = run_alone 5 r d" for r d
    by (simp_all only:)
  have other: ?thesis if "\<forall>t. DownstreamChunk.UpstreamOrAlias c \<noteq> UOA_Info t"
  proof -
    have "run_alone 6 (AssignInfo p c) d = run_alone 5 (AssignIDs c) d"
      unfolding 6(1) run_alone_AssignInfo 6(2) using that by (simp split: UpstreamOrAlias.split)
    moreover have "processUpstreamAlias p (DownstreamChunk.UpstreamOrAlias c) d = Inr d"
      unfolding processUpstreamAlias_def using that by (simp split: UpstreamOrAlias.split)
    ultimately show ?thesis
      using reader_runs_alone_AssignIDs [of c d] 5 unfolding ReadDataPoints_def by fastforce
  qed
  show ?thesis
  proof (cases "DownstreamChunk.UpstreamOrAlias c")
    case (UOA_Info t)
    show ?thesis
    proof (cases t)
      case None
      then show ?thesis
        unfolding 6(1) run_alone_AssignInfo ReadDataPoints_def processUpstreamAlias_def UOA_Info by simp
    next
      case (Some i)
      obtain d' m where a: "assignUpstreamInfoAlias p i d = (d', m)" by fastforce
      show ?thesis
        unfolding 6(1) run_alone_AssignInfo ReadDataPoints_def processUpstreamAlias_def UOA_Info
        using reader_runs_alone_AssignIDs [of c "pushUpstreamInfoAckBuffer m d'"]
        by (simp add: Some a)
    qed
  qed (simp_all add: other)
qed

section \<open>Aliases are assigned once\<close>

lemma update_new: "k \<notin> fst ` set b \<Longrightarrow> AList.update k v b = b @ [(k, v)]"
  by (induction b) auto

lemma foldl_update_new:
  "distinct (map fst (b @ m)) \<Longrightarrow> foldl (\<lambda>b (k, v). AList.update k v b) b m = b @ m"
  by (induction m arbitrary: b) (auto simp: update_new)

text \<open>The aliases \<open>news\<close> are new after \<open>n\<close> others, and \<open>d'\<close> is \<open>d\<close> with them.\<close>

definition alias_news :: "nat \<Rightarrow> downstream \<Rightarrow> (u32 \<times> DataID) list \<Rightarrow> downstream \<Rightarrow> bool" where
  "alias_news n d news d' \<longleftrightarrow>
     map fst news = map of_nat [Suc n..<Suc n + length news] \<and>
     d' = d\<lparr>dataIDAliasGenerator := of_nat (n + length news), dataIDAliases := dataIDAliases d ++ map_of news,
       revDataIDAliases := revDataIDAliases d ++ map_of (map prod.swap news)\<rparr> \<and>
     distinct (map snd news) \<and> snd ` set news \<inter> dom (revDataIDAliases d) = {}"

lemma dom_swap [simp]: "dom (map_of (map prod.swap news)) = snd ` set news"
  by (simp add: dom_map_of_conv_image_fst image_image)

lemma alias_news_Cons:
  assumes "alias_news (Suc n) (d\<lparr>dataIDAliasGenerator := of_nat (Suc n), dataIDAliases := (dataIDAliases d)(of_nat (Suc n) \<mapsto> i),
      revDataIDAliases := (revDataIDAliases d)(i \<mapsto> of_nat (Suc n))\<rparr>) news d'"
    and "revDataIDAliases d i = None" and "Suc n + length news < 2 ^ 32"
  shows "alias_news n d ((of_nat (Suc n), i) # news) d'"
proof -
  have keys: "map fst news = map of_nat [Suc (Suc n)..<Suc (Suc n) + length news]"
    using assms(1) by (simp add: alias_news_def)
  have "of_nat (Suc n) \<notin> fst ` set news"
  proof
    assume "of_nat (Suc n) \<in> fst ` set news"
    with arg_cong [OF keys, of set] obtain x where
      "x \<in> {Suc (Suc n)..<Suc (Suc n) + length news}" "(of_nat (Suc n) :: u32) = of_nat x"
      by (metis imageE list.set_map set_upt)
    with assms(3) show False
      by (simp add: of_nat_u32_eq del: of_nat_Suc)
  qed
  then have a: "of_nat (Suc n) \<notin> dom (map_of news)"
    by (simp add: dom_map_of_conv_image_fst)
  have i: "i \<notin> snd ` set news"
    using assms(1) by (auto simp: alias_news_def)
  with assms(1,2) a show ?thesis
    unfolding alias_news_def keys list.map
    by (auto simp: map_add_upd_left upt_conv_Cons dest: domI simp del: upt_Suc of_nat_Suc)
qed

lemma assign_loop:
  assumes "assignDataIDAlias_loop ids res d = Inr (d', m)" and "dataIDAliasGenerator d = of_nat n"
    and "n + length ids < 2 ^ 32" and "fst ` set res \<subseteq> of_nat ` {1..n}"
  shows "\<exists>news. m = res @ news \<and> length news \<le> length ids \<and> alias_news n d news d' \<and>
    (\<forall>i. Some i \<in> set ids \<longrightarrow> i \<in> dom (revDataIDAliases d'))"
  using assms
proof (induction ids res d arbitrary: n rule: assignDataIDAlias_loop.induct)
  case (1 res d)
  then show ?case by (intro exI [of _ "[]"]) (auto simp: alias_news_def)
next
  case (2 ids res d)
  then show ?case by simp
next
  case (3 i ids res d)
  show ?case
  proof (cases "revDataIDAliases d i = None")
    case False
    with "3.prems"(1) have "assignDataIDAlias_loop ids res d = Inr (d', m)" by simp
    from "3.IH"(1) [OF _ this "3.prems"(2) _ "3.prems"(4)] False "3.prems"(3)
    obtain news where "m = res @ news" "length news \<le> length ids" "alias_news n d news d'"
      "\<forall>i. Some i \<in> set ids \<longrightarrow> i \<in> dom (revDataIDAliases d')"
      by auto
    moreover then have "i \<in> dom (revDataIDAliases d')"
      using False by (auto simp: alias_news_def)
    ultimately show ?thesis by auto
  next
    case True
    let ?a = "of_nat (Suc n) :: u32"
    let ?d = "d\<lparr>dataIDAliasGenerator := ?a, dataIDAliases := (dataIDAliases d)(?a \<mapsto> i),
             revDataIDAliases := (revDataIDAliases d)(i \<mapsto> ?a)\<rparr>"
    have nxt: "AliasGenerator_Next (dataIDAliasGenerator d) = (?a, ?a)"
      using "3.prems" by (simp add: AliasGenerator_Next_of_nat del: of_nat_Suc)
    have fresh: "?a \<notin> fst ` set res"
      using "3.prems" by (auto simp: of_nat_u32_eq simp del: of_nat_Suc)
    have run: "assignDataIDAlias_loop ids (AList.update ?a i res) ?d = Inr (d', m)"
      using "3.prems"(1) True by (simp add: nxt del: of_nat_Suc)
    have "fst ` set (AList.update ?a i res) \<subseteq> of_nat ` {1..Suc n}"
      using "3.prems"(4) by (auto simp: update_new [OF fresh] simp del: of_nat_Suc)
    from "3.IH"(2) [of "(?a, ?a)" ?a ?a "Suc n", OF _ nxt [symmetric] refl run _ _ this] True "3.prems"(3)
    obtain news where n: "m = (res @ [(?a, i)]) @ news" "length news \<le> length ids" "alias_news (Suc n) ?d news d'"
      "\<forall>i. Some i \<in> set ids \<longrightarrow> i \<in> dom (revDataIDAliases d')"
      by (auto simp: update_new [OF fresh] simp del: of_nat_Suc)
    have "alias_news n d ((?a, i) # news) d'"
      using n(2,3) True "3.prems"(3) by (intro alias_news_Cons) auto
    moreover then have "i \<in> dom (revDataIDAliases d')"
      by (auto simp: alias_news_def)
    ultimately show ?thesis
      using n by (intro exI [of _ "(?a, i) # news"]) auto
  qed
qed

definition announced :: "downworld \<Rightarrow> (u32 \<times> DataID) list" where
  "announced w = concat (map (\<lambda>ack. map (\<lambda>(a, i). (a, the i)) (DownstreamChunkAck.DataIDAliases ack)) (acks w))"

definition pending :: "reader list \<Rightarrow> (u32 \<times> DataID) list" where
  "pending rs = concat (map new_ids rs)"

lemma pending_simps [simp]:
  "pending [] = []" "pending (r # rs) = new_ids r @ pending rs" "pending (rs @ rs') = pending rs @ pending rs'"
  by (simp_all add: pending_def)

fun reader_small :: "reader \<Rightarrow> bool" where
  "reader_small (AssignInfo p c) = small_chunk c"
| "reader_small (PushInfo m c) = small_chunk c"
| "reader_small (AssignIDs c) = small_chunk c"
| "reader_small _ = True"

text \<open>
  The tables of data ID aliases are what was assigned, and every assigned alias is from the open request, in an
  acknowledgement, in the buffer for the next one, or in a call in progress that will put it there.
\<close>

definition inv_small :: "downworld \<Rightarrow> bool" where
  "inv_small w \<longleftrightarrow> list_all (small_chunk \<circ> snd) (dataPointsCh (down w)) \<and> list_all reader_small (readers w)"

definition inv_tables :: "downworld \<Rightarrow> bool" where
  "inv_tables w \<longleftrightarrow>
     map fst (assigned w) = map of_nat [1..<Suc (length (assigned w))] \<and>
     dataIDAliasGenerator (down w) = of_nat (length (assigned w)) \<and>
     dataIDAliases (down w) = map_of (assigned w) \<and>
     map_of (map prod.swap (rev (assigned w))) = revDataIDAliases (down w)"

definition inv_announced :: "DataID list \<Rightarrow> downworld \<Rightarrow> bool" where
  "inv_announced ids w \<longleftrightarrow>
     mset (assigned w) = mset (initial_aliases ids (NewAliasGenerator 0)) + mset (announced w) +
       mset (dataIDAckBuffer (down w)) + mset (pending (readers w))"

subsection \<open>How the handlers act on the tables\<close>

lemma reader_step_small:
  assumes "reader_step r d = (d', Inl r')" and "reader_small r"
  shows "reader_small r'"
  using assms
  by (cases r) (auto simp: case_prod_beta Let_def split: UpstreamOrAlias.splits option.splits sum.splits)

lemma filterDataID_length: "filterDataID gs = Inr ids \<Longrightarrow> length ids \<le> length gs"
proof (induction gs arbitrary: ids rule: filterDataID.induct)
  case (3 v gs)
  then show ?case
    by (cases "DataPointGroup.DataIDOrAlias v") (auto simp: go_simps le_SucI)
qed auto

text \<open>A step of a call leaves the tables alone, adds to the buffer, or assigns new aliases.\<close>

lemma reader_step_cases:
  assumes "reader_step r d = (d', res)"
  obtains (same) "dataIDAliases d' = dataIDAliases d" "revDataIDAliases d' = revDataIDAliases d"
      "dataIDAliasGenerator d' = dataIDAliasGenerator d" "dataIDAckBuffer d' = dataIDAckBuffer d"
      "new_ids r = []" "case res of Inl r' \<Rightarrow> new_ids r' = [] | Inr x \<Rightarrow> True"
    | (assign) c ids m sc where "r = AssignIDs c" "res = Inl (PushIDs m c)" "DownstreamChunk.StreamChunk c = Some sc"
      "length ids \<le> length (StreamChunk.DataPointGroups sc)" "assignDataIDAlias_loop ids [] d = Inr (d', m)"
    | (push) m c where "r = PushIDs m c" "res = Inl (Convert c)" "d' = pushDataIDAckBuffer m d"
proof (cases r)
  case (AssignInfo p c)
  then show ?thesis
    using assms
    by (intro same) (auto simp: assignUpstreamInfoAlias_def case_prod_beta Let_def
        split: UpstreamOrAlias.splits option.splits if_splits)
next
  case (PushInfo m c)
  then show ?thesis
    using assms by (intro same) (auto simp: pushUpstreamInfoAckBuffer_def)
next
  case (AssignIDs c)
  show ?thesis
  proof (cases "bindE (deref PanicNil (DownstreamChunk.StreamChunk c)) (\<lambda>sc.
      bindE (filterDataID (StreamChunk.DataPointGroups sc)) (\<lambda>ids. assignDataIDAlias ids d))")
    case (Inl e)
    then show ?thesis
      using assms AssignIDs by (intro same) auto
  next
    case (Inr x)
    then obtain sc ids where "DownstreamChunk.StreamChunk c = Some sc"
      "filterDataID (StreamChunk.DataPointGroups sc) = Inr ids" "assignDataIDAlias ids d = Inr x"
      by (auto simp: go_simps)
    then show ?thesis
      using assms AssignIDs Inr filterDataID_length
      by (intro assign [of c "snd x" sc ids]) (auto simp: assignDataIDAlias_def split: prod.splits)
  qed
next
  case (PushIDs m c)
  then show ?thesis
    using assms by (intro push) auto
next
  case (Convert c)
  then show ?thesis
    using assms by (intro same) (auto split: sum.splits)
next
  case (PushResult ps)
  then show ?thesis
    using assms by (intro same) (auto simp: pushResultAckBuffer_def)
qed

lemma assign_loop_same:
  "assignDataIDAlias_loop ids res d = Inr (d', m) \<Longrightarrow>
    \<exists>g x y. d' = d\<lparr>dataIDAliasGenerator := g, dataIDAliases := x, revDataIDAliases := y\<rparr>"
proof (induction ids res d rule: assignDataIDAlias_loop.induct)
  case (1 res d)
  then have "d' = d\<lparr>dataIDAliasGenerator := dataIDAliasGenerator d, dataIDAliases := dataIDAliases d,
    revDataIDAliases := revDataIDAliases d\<rparr>" by simp
  then show ?case by blast
next
  case (3 i ids res d)
  show ?case
  proof (cases "revDataIDAliases d i = None")
    case False
    with "3.prems" have "assignDataIDAlias_loop ids res d = Inr (d', m)" by simp
    from "3.IH"(1) [OF _ this] False show ?thesis by simp
  next
    case True
    obtain g a where ga: "AliasGenerator_Next (dataIDAliasGenerator d) = (g, a)" by fastforce
    with True "3.prems" have "assignDataIDAlias_loop ids (AList.update a i res) (d\<lparr>dataIDAliasGenerator := g,
        dataIDAliases := (dataIDAliases d)(a \<mapsto> i), revDataIDAliases := (revDataIDAliases d)(i \<mapsto> a)\<rparr>) = Inr (d', m)"
      by simp
    from "3.IH"(2) [OF _ ga [symmetric] refl this] True show ?thesis by auto
  qed
qed simp

lemma reader_step_other:
  assumes "reader_step r d = (d', res)"
  shows "resultAckBuffer d' = resultAckBuffer d @ (case res of Inr (Inr ps) \<Rightarrow> [result_of ps] | _ \<Rightarrow> [])"
    and "chunkAckIDSequence d' = chunkAckIDSequence d" and "dataPointsCh d' = dataPointsCh d"
    and "downAlias d' = downAlias d"
proof -
  have "resultAckBuffer d' = resultAckBuffer d @ (case res of Inr (Inr ps) \<Rightarrow> [result_of ps] | _ \<Rightarrow> []) \<and>
    chunkAckIDSequence d' = chunkAckIDSequence d \<and> dataPointsCh d' = dataPointsCh d \<and> downAlias d' = downAlias d"
  proof (cases r)
    case (AssignInfo p c)
    with assms show ?thesis
      by (auto simp: assignUpstreamInfoAlias_def case_prod_beta Let_def
          split: UpstreamOrAlias.splits option.splits if_splits)
  next
    case (AssignIDs c)
    show ?thesis
      using assms AssignIDs
      by (auto simp: go_simps assignDataIDAlias_def split: sum.splits prod.splits dest!: assign_loop_same)
  qed (use assms in \<open>auto simp: pushUpstreamInfoAckBuffer_def pushDataIDAckBuffer_def pushResultAckBuffer_def
    split: sum.splits\<close>)
  then show "resultAckBuffer d' = resultAckBuffer d @ (case res of Inr (Inr ps) \<Rightarrow> [result_of ps] | _ \<Rightarrow> [])"
    and "chunkAckIDSequence d' = chunkAckIDSequence d" and "dataPointsCh d' = dataPointsCh d"
    and "downAlias d' = downAlias d" by simp_all
qed

lemma flushAck_Some:
  assumes "flushAck d = (d', Some ack)"
  shows "d' = d\<lparr>chunkAckIDSequence := chunkAckIDSequence d + 1, upstreamInfoAckBuffer := [], dataIDAckBuffer := [],
      resultAckBuffer := []\<rparr>"
    and "ack = \<lparr>DownstreamChunkAck.StreamIDAlias = downAlias d, DownstreamChunkAck.AckID = chunkAckIDSequence d + 1,
      DownstreamChunkAck.Results = map Some (resultAckBuffer d),
      DownstreamChunkAck.UpstreamAliases = map (\<lambda>(a, i). (a, Some i)) (upstreamInfoAckBuffer d),
      DownstreamChunkAck.DataIDAliases = map (\<lambda>(a, i). (a, Some i)) (dataIDAckBuffer d),
      DownstreamChunkAck.ExtensionFields = None\<rparr>"
  using assms by (auto simp: flushAck_def sequence_Next_def split: if_splits)

lemma flushAck_announces: "map (\<lambda>(a, i). (a, the i)) (map (\<lambda>(a, i). (a, Some i)) b) = b"
  by (induction b) auto

subsection \<open>The invariants hold\<close>

lemma dreach_induct [consumes 1, case_names Init Step]:
  assumes "dreach ids w" and "\<And>al token. P (downworld_init ids al token)"
    and "\<And>w w'. dreach ids w \<Longrightarrow> P w \<Longrightarrow> dstep w w' \<Longrightarrow> P w'"
  shows "P w"
  using assms by (rule dreach.induct)

lemma dstep_assigned: "dstep w w' \<Longrightarrow> \<exists>news. assigned w' = assigned w @ news"
  by (induction rule: dstep.induct) auto

lemma reach_small: "dreach ids w \<Longrightarrow> inv_small w"
proof (induction rule: dreach_induct)
  case (Init al token)
  then show ?case
    by (simp add: inv_small_def downworld_init_def downstream_init_def Let_def)
next
  case (Step w w')
  from Step(2,3) show ?case
  proof (induction rule: dstep.induct)
    case (Continue w rs r rs' d' r')
    then show ?case
      using reader_step_small [OF Continue(2)] reader_step_other(3) [OF Continue(2)] by (simp add: inv_small_def)
  next
    case (Return w rs r rs' d' res)
    then show ?case
      using reader_step_other(3) [OF Return(2)] by (simp add: inv_small_def)
  next
    case (Flush w d' ack)
    then show ?case
      by (simp add: inv_small_def flushAck_Some(1) [OF Flush(1)])
  qed (auto simp: inv_small_def Downstream_resumed_def Downstream_closeWithError_def Swap_def Let_def)
qed

lemma initial_aliases_zip:
  "k + length ids < 2 ^ 32 \<Longrightarrow> initial_aliases ids (of_nat k) = zip (map of_nat [Suc k..<Suc k + length ids]) ids"
proof (induction ids arbitrary: k)
  case (Cons v vs)
  have "initial_aliases (v # vs) (of_nat k) = (of_nat (Suc k), v) # initial_aliases vs (of_nat (Suc k))"
    using Cons.prems by (simp add: AliasGenerator_Next_of_nat del: of_nat_Suc)
  also have "\<dots> = (of_nat (Suc k), v) # zip (map of_nat [Suc (Suc k)..<Suc (Suc k) + length vs]) vs"
    using Cons.prems Cons.IH [of "Suc k"] by simp
  also have "\<dots> = zip (map of_nat [Suc k..<Suc k + length (v # vs)]) (v # vs)"
    by (simp add: upt_conv_Cons del: upt_Suc)
  finally show ?case .
qed simp

lemma length_initial_aliases [simp]: "length (initial_aliases ids g) = length ids"
  by (induction ids g rule: initial_aliases.induct) (auto split: prod.split)

lemma foldl_upd: "foldl (\<lambda>m (a, v). m(a \<mapsto> v)) m xs = m ++ map_of (rev xs)"
  by (induction xs arbitrary: m) auto

lemma foldl_upd_swap: "foldl (\<lambda>m (a, v). m(v \<mapsto> a)) m xs = m ++ map_of (map prod.swap (rev xs))"
  by (induction xs arbitrary: m) auto

lemma distinct_aliases:
  assumes "map fst xs = map (of_nat :: nat \<Rightarrow> u32) [1..<Suc (length xs)]" and "length xs < 2 ^ 32"
  shows "distinct (map fst xs)"
proof -
  have "inj_on (of_nat :: nat \<Rightarrow> u32) {1..<Suc (length xs)}"
    using assms(2) by (auto intro!: inj_onI simp: of_nat_u32_eq)
  then show ?thesis
    unfolding assms(1) by (simp add: distinct_map del: upt_Suc)
qed

lemma map_of_rev_distinct: "distinct (map fst xs) \<Longrightarrow> map_of (rev xs) = map_of xs"
proof (induction xs)
  case (Cons x xs)
  then have "fst x \<notin> dom (map_of xs)"
    by (simp add: dom_map_of_conv_image_fst)
  with Cons show ?case
    by (cases x) (simp add: map_add_upd_left [of _ "map_of xs" Map.empty, simplified])
qed simp

lemma tables_assign:
  assumes "inv_tables w" and "alias_news (length (assigned w)) (down w) news d'"
    and "length (assigned w) + length news < 2 ^ 32"
    and "assigned w' = assigned w @ news" and "down w' = d'"
  shows "inv_tables w'"
proof -
  let ?n = "length (assigned w)"
  have tab: "map fst (assigned w) = map of_nat [1..<Suc ?n]" "dataIDAliases (down w) = map_of (assigned w)"
    "map_of (map prod.swap (rev (assigned w))) = revDataIDAliases (down w)"
    using assms(1) by (auto simp: inv_tables_def)
  have news: "map fst news = map of_nat [Suc ?n..<Suc ?n + length news]"
    "d' = (down w)\<lparr>dataIDAliasGenerator := of_nat (?n + length news), dataIDAliases := dataIDAliases (down w) ++ map_of news,
       revDataIDAliases := revDataIDAliases (down w) ++ map_of (map prod.swap news)\<rparr>"
    "distinct (map snd news)"
    using assms(2) by (auto simp: alias_news_def)
  have upt: "[1..<Suc ?n] @ [Suc ?n..<Suc ?n + length news] = [1..<Suc (?n + length news)]"
    using upt_add_eq_append [of 1 "Suc ?n" "length news"] by simp
  have "map fst (assigned w @ news) = map of_nat ([1..<Suc ?n] @ [Suc ?n..<Suc ?n + length news])"
    by (simp only: map_append tab(1) news(1))
  then have keys: "map fst (assigned w @ news) = map of_nat [1..<Suc (length (assigned w @ news))]"
    by (simp only: upt length_append)
  then have "distinct (map fst (assigned w @ news))"
    using assms(3) by (intro distinct_aliases) auto
  then have "dom (map_of (assigned w)) \<inter> dom (map_of news) = {}"
    by (auto simp: dom_map_of_conv_image_fst)
  then have "map_of (assigned w) ++ map_of news = map_of (assigned w @ news)"
    by (simp add: map_add_comm)
  moreover have "map_of (map prod.swap (rev news)) = map_of (map prod.swap news)"
    using map_of_rev_distinct [of "map prod.swap news"] news(3) by (simp add: rev_map comp_def)
  ultimately show ?thesis
    unfolding inv_tables_def assms(4,5) using keys tab(2,3) news(2) by simp
qed

lemma tables_same:
  assumes "inv_tables w" and "assigned w' = assigned w"
    and "dataIDAliases (down w') = dataIDAliases (down w)" "revDataIDAliases (down w') = revDataIDAliases (down w)"
    "dataIDAliasGenerator (down w') = dataIDAliasGenerator (down w)"
  shows "inv_tables w'"
  using assms by (simp add: inv_tables_def)

lemma reach_tables: "dreach ids w \<Longrightarrow> length (assigned w) < 2 ^ 31 \<Longrightarrow> inv_tables w"
proof (induction rule: dreach_induct)
  case (Init al token)
  let ?a = "initial_aliases ids 0"
  have len: "length ids < 2 ^ 31"
    using Init by (simp add: downworld_init_def)
  then have z: "?a = zip (map of_nat [1..<Suc (length ids)]) ids"
    using initial_aliases_zip [of 0 ids] by simp
  then have keys: "map fst ?a = map of_nat [1..<Suc (length ?a)]"
    by (simp add: z)
  moreover have "(if ?a = [] then 0 else fst (last ?a)) = of_nat (length ids)"
  proof (cases "ids = []")
    case False
    then have "?a \<noteq> []"
      by (metis length_0_conv length_initial_aliases)
    with False arg_cong [OF keys, of last] show ?thesis
      by (auto simp: last_map Suc_le_eq)
  qed simp
  ultimately show ?case
    using map_of_rev_distinct [OF distinct_aliases [OF keys]] len
    by (simp add: inv_tables_def downworld_init_def downstream_init_def NewAliasGenerator_def Let_def foldl_upd foldl_upd_swap)
next
  case (Step w w')
  obtain news where "assigned w' = assigned w @ news"
    using dstep_assigned [OF Step(2)] by blast
  with Step have inv: "inv_tables w" and small: "length (assigned w) < 2 ^ 31" by auto
  have sm: "inv_small w" using Step(1) by (rule reach_small)
  from Step(2) inv small sm show ?case
  proof (induction rule: dstep.induct)
    case (Continue w rs r rs' d' r')
    from Continue(2) show ?case
    proof (cases rule: reader_step_cases)
      case same
      then show ?thesis
        using Continue by (intro tables_same [OF Continue(3)]) auto
    next
      case (assign c ids m sc)
      have "length (StreamChunk.DataPointGroups sc) < 2 ^ 31"
        using Continue(1,5) assign by (simp add: inv_small_def small_chunk_def)
      then have l: "length (assigned w) + length ids < 2 ^ 32"
        using assign(4) Continue(4) by simp
      moreover have "dataIDAliasGenerator (down w) = of_nat (length (assigned w))"
        using Continue(3) by (simp add: inv_tables_def)
      ultimately obtain news where "m = news" "length news \<le> length ids" "alias_news (length (assigned w)) (down w) news d'"
        using assign_loop [OF assign(5), of "length (assigned w)"] by auto
      with l assign(2) show ?thesis
        by (intro tables_assign [OF Continue(3), of news d']) auto
    next
      case (push m c)
      then show ?thesis
        by (intro tables_same [OF Continue(3)]) (auto simp: pushDataIDAckBuffer_def)
    qed
  next
    case (Return w rs r rs' d' res)
    from Return(2) show ?case
      by (cases rule: reader_step_cases) (auto intro!: tables_same [OF Return(3)])
  next
    case (Flush w d' ack)
    then show ?case
      by (intro tables_same [OF Flush(2)]) (auto simp: flushAck_Some(1) [OF Flush(1)])
  qed (auto simp: inv_tables_def Downstream_resumed_def Downstream_closeWithError_def Swap_def Let_def)
qed

lemma assigned_distinct: "inv_tables w \<Longrightarrow> length (assigned w) < 2 ^ 32 \<Longrightarrow> distinct (map fst (assigned w))"
  by (rule distinct_aliases) (auto simp: inv_tables_def)

lemma push_announces:
  assumes "distinct (map fst xs)" and "mset (dataIDAckBuffer d) + mset m \<subseteq># mset xs"
  shows "dataIDAckBuffer (pushDataIDAckBuffer m d) = dataIDAckBuffer d @ m"
proof -
  have "mset (map fst (dataIDAckBuffer d @ m)) \<subseteq># mset (map fst xs)"
    using assms(2) by (metis image_mset_subseteq_mono mset_append mset_map)
  then have "distinct (map fst (dataIDAckBuffer d @ m))"
    using assms(1) by (metis mset_eq_imp_distinct_iff mset_map mset_subset_eq_exists_conv mset_append distinct_append ex_mset)
  then show ?thesis
    by (simp add: pushDataIDAckBuffer_def foldl_update_new)
qed

lemma reach_announced: "dreach ids w \<Longrightarrow> length (assigned w) < 2 ^ 31 \<Longrightarrow> inv_announced ids w"
proof (induction rule: dreach_induct)
  case (Init al token)
  show ?case
    by (simp add: inv_announced_def downworld_init_def downstream_init_def announced_def Let_def)
next
  case (Step w w')
  obtain news where "assigned w' = assigned w @ news"
    using dstep_assigned [OF Step(2)] by blast
  with Step have inv: "inv_announced ids w" and small: "length (assigned w) < 2 ^ 31" by auto
  have tab: "inv_tables w" using reach_tables [OF Step(1) small] .
  from Step(2) inv small tab show ?case
  proof (induction rule: dstep.induct)
    case (Continue w rs r rs' d' r')
    from Continue(2) show ?case
    proof (cases rule: reader_step_cases)
      case same
      then show ?thesis
        using Continue by (simp add: inv_announced_def announced_def)
    next
      case (assign c ids' m sc)
      then have "dataIDAckBuffer d' = dataIDAckBuffer (down w)"
        using assign_loop_same [OF assign(5)] by auto
      with assign Continue show ?thesis
        by (simp add: inv_announced_def announced_def)
    next
      case (push m c)
      have sub: "mset (dataIDAckBuffer (down w)) + mset m \<subseteq># mset (assigned w)"
        using Continue(1,3) push by (simp add: inv_announced_def subset_mset.add_increasing2 mset_subset_eq_add_right)
      have "distinct (map fst (assigned w))"
        using Continue(4,5) by (intro assigned_distinct) auto
      from push_announces [OF this sub] show ?thesis
        using Continue(1,3) push by (simp add: inv_announced_def announced_def)
    qed
  next
    case (Return w rs r rs' d' res)
    from Return(2) show ?case
      by (cases rule: reader_step_cases) (use Return in \<open>auto simp: inv_announced_def announced_def\<close>)
  next
    case (Flush w d' ack)
    then show ?case
      using flushAck_announces [of "dataIDAckBuffer (down w)"]
      by (simp add: inv_announced_def announced_def flushAck_Some [OF Flush(1)])
  qed (auto simp: inv_announced_def announced_def Downstream_resumed_def Downstream_closeWithError_def Swap_def Let_def)
qed

subsection \<open>Results and the order of reading\<close>

definition read_ok :: "downworld \<Rightarrow> IscpDownstreamChunk list" where
  "read_ok w = [ps. Inr ps \<leftarrow> returned w]"

definition inv_results :: "downworld \<Rightarrow> bool" where
  "inv_results w \<longleftrightarrow>
     concat (map DownstreamChunkAck.Results (acks w)) @ map Some (resultAckBuffer (down w)) = map (Some \<circ> result_of) (read_ok w) \<and>
     map DownstreamChunkAck.AckID (acks w) = map of_nat [1..<Suc (length (acks w))] \<and>
     chunkAckIDSequence (down w) = of_nat (length (acks w)) \<and>
     [c. (c, True) \<leftarrow> arrivals w] = taken w @ dataPointsCh (down w) \<and> length (dataPointsCh (down w)) \<le> dataPointsCh_cap"

lemma read_ok_append [simp]: "[ps. Inr ps \<leftarrow> xs @ [x]] = [ps. Inr ps \<leftarrow> xs] @ (case x of Inr ps \<Rightarrow> [ps] | _ \<Rightarrow> [])"
  by (cases x) auto

lemma reach_results: "dreach ids w \<Longrightarrow> inv_results w"
proof (induction rule: dreach_induct)
  case (Init al token)
  then show ?case
    by (simp add: inv_results_def downworld_init_def downstream_init_def read_ok_def Let_def)
next
  case (Step w w')
  from Step(2,3) show ?case
  proof (induction rule: dstep.induct)
    case (Continue w rs r rs' d' r')
    then show ?case
      by (simp add: inv_results_def read_ok_def reader_step_other [OF Continue(2)])
  next
    case (Return w rs r rs' d' res)
    then show ?case
      by (cases res) (simp_all add: inv_results_def read_ok_def reader_step_other [OF Return(2)])
  next
    case (Flush w d' ack)
    then show ?case
      by (simp add: inv_results_def read_ok_def flushAck_Some [OF Flush(1)] add.commute)
  qed (auto simp: inv_results_def read_ok_def Downstream_resumed_def Downstream_closeWithError_def Swap_def Let_def)
qed

end
