(* ===== verification/Downstream_Properties.thy ===== *)
theory Downstream_Properties
  imports Downstream
begin

text \<open>What the downstream promises, and sample runs to which the promises apply.\<close>

section \<open>Steps keep what was assigned\<close>

lemma dsteps_assigned: "dstep\<^sup>*\<^sup>* w w' \<Longrightarrow> \<exists>news. assigned w' = assigned w @ news"
proof (induction rule: rtranclp_induct)
  case (step w' w'')
  then show ?case
    using dstep_assigned [OF step(2)] by auto
qed simp

lemma dsteps_reach: "dstep\<^sup>*\<^sup>* w w' \<Longrightarrow> dreach ids w \<Longrightarrow> dreach ids w'"
  by (induction rule: rtranclp_induct) (auto intro: dreach.Step)

lemma tables_grow:
  assumes "dreach ids w" and "dstep\<^sup>*\<^sup>* w w'" and "length (assigned w') < 2 ^ 31"
  shows "dataIDAliases (down w) \<subseteq>\<^sub>m dataIDAliases (down w')"
proof -
  obtain news where n: "assigned w' = assigned w @ news"
    using dsteps_assigned [OF assms(2)] by blast
  have t: "inv_tables w" "inv_tables w'"
    using reach_tables assms n by (auto dest: dsteps_reach)
  then have "distinct (map fst (assigned w @ news))"
    using assigned_distinct [of w'] assms(3) n by simp
  then have "map_of (assigned w) \<subseteq>\<^sub>m map_of (assigned w @ news)"
    by (auto simp: map_le_def dom_map_of_conv_image_fst map_add_dom_app_simps)
  with t n show ?thesis
    by (simp add: inv_tables_def)
qed

lemma announced_assigned:
  assumes "dreach ids w" and "length (assigned w) < 2 ^ 31"
    and "ack \<in> set (acks w)" and "(a, i) \<in> set (DownstreamChunkAck.DataIDAliases ack)"
  shows "dataIDAliases (down w) a = Some (the i)"
proof -
  have "(a, the i) \<in> set (announced w)"
    using assms(3,4) by (force simp: announced_def)
  then have "(a, the i) \<in># mset (assigned w)"
    using reach_announced [OF assms(1,2)] by (simp add: inv_announced_def)
  moreover have "inv_tables w"
    using reach_tables [OF assms(1,2)] .
  ultimately show ?thesis
    using assigned_distinct [of w] assms(2) by (simp add: inv_tables_def map_of_eq_Some_iff)
qed

section \<open>Sample runs\<close>

definition sample_id :: "string \<Rightarrow> DataID" where
  "sample_id n = \<lparr>DataID.Name = n, DataID.Type = ''f''\<rparr>"

definition sample_info :: UpstreamInfo where
  "sample_info = \<lparr>UpstreamInfo.SessionID = ''s'', UpstreamInfo.SourceNodeID = ''n'', UpstreamInfo.StreamID = 7\<rparr>"

definition sample_down_chunk :: "u32 \<Rightarrow> UpstreamOrAlias \<Rightarrow> DataIDOrAlias list \<Rightarrow> DownstreamChunk" where
  "sample_down_chunk n u ids =
     \<lparr>DownstreamChunk.StreamIDAlias = 1, DownstreamChunk.UpstreamOrAlias = u,
      DownstreamChunk.StreamChunk = Some \<lparr>StreamChunk.SequenceNumber = n,
        StreamChunk.DataPointGroups = map (\<lambda>i. Some \<lparr>DataPointGroup.DataIDOrAlias = i, DataPointGroup.DataPoints = []\<rparr>) ids\<rparr>,
      DownstreamChunk.ExtensionFields = None, DownstreamChunk.DownstreamFilterReferences = None\<rparr>"

text \<open>Receive a chunk, and read it with no other call in progress.\<close>

definition do_receive :: "ref \<times> DownstreamChunk \<Rightarrow> downworld \<Rightarrow> downworld" where
  "do_receive c w =
     (if length (dataPointsCh (down w)) < dataPointsCh_cap \<and> small_chunk (snd c)
      then w\<lparr>down := (down w)\<lparr>dataPointsCh := dataPointsCh (down w) @ [c]\<rparr>, arrivals := arrivals w @ [(c, True)]\<rparr>
      else w)"

definition do_take :: "downworld \<Rightarrow> downworld" where
  "do_take w = (case dataPointsCh (down w) of [] \<Rightarrow> w
     | (p, c) # rest \<Rightarrow> w\<lparr>down := (down w)\<lparr>dataPointsCh := rest\<rparr>, taken := taken w @ [(p, c)],
         readers := AssignInfo p c # readers w\<rparr>)"

definition do_read :: "downworld \<Rightarrow> downworld" where
  "do_read w = (case readers w of [] \<Rightarrow> w
     | r # rs \<Rightarrow> (case reader_step r (down w) of
          (d', Inl r') \<Rightarrow> w\<lparr>down := d', readers := [] @ r' # rs, assigned := assigned w @ new_ids r'\<rparr>
        | (d', Inr res) \<Rightarrow> w\<lparr>down := d', readers := [] @ rs, returned := returned w @ [res]\<rparr>))"

definition do_ack :: "downworld \<Rightarrow> downworld" where
  "do_ack w = (case flushAck (down w) of (d', Some ack) \<Rightarrow> w\<lparr>down := d', acks := acks w @ [ack]\<rparr> | _ \<Rightarrow> w)"

lemma dsteps_do [simp, intro]:
  "dstep\<^sup>*\<^sup>* w (do_receive c w)" "dstep\<^sup>*\<^sup>* w (do_take w)" "dstep\<^sup>*\<^sup>* w (do_read w)" "dstep\<^sup>*\<^sup>* w (do_ack w)"
proof -
  show "dstep\<^sup>*\<^sup>* w (do_receive c w)"
    using dstep.Receive [of w c] by (auto simp: do_receive_def)
  show "dstep\<^sup>*\<^sup>* w (do_take w)"
  proof (cases "dataPointsCh (down w)")
    case (Cons x rest)
    then show ?thesis
      using dstep.Take [of w "fst x" "snd x" rest] by (cases x) (auto simp: do_take_def)
  qed (simp add: do_take_def)
  show "dstep\<^sup>*\<^sup>* w (do_read w)"
  proof (cases "readers w")
    case (Cons r rs)
    obtain d' res where "reader_step r (down w) = (d', res)" by fastforce
    then show ?thesis
      using dstep.Continue [of w "[]" r rs d'] dstep.Return [of w "[]" r rs d'] Cons
      by (cases res) (auto simp: do_read_def)
  qed (simp add: do_read_def)
  obtain d' a where "flushAck (down w) = (d', a)" by fastforce
  then show "dstep\<^sup>*\<^sup>* w (do_ack w)"
    using dstep.Flush [of w d'] by (cases a) (auto simp: do_ack_def)
qed

lemma dreach_do [simp, intro]:
  "dreach ids w \<Longrightarrow> dreach ids (do_receive c w)" "dreach ids w \<Longrightarrow> dreach ids (do_take w)"
  "dreach ids w \<Longrightarrow> dreach ids (do_read w)" "dreach ids w \<Longrightarrow> dreach ids (do_ack w)"
  using dsteps_do dsteps_reach by blast+

lemmas down_sample_defs = do_receive_def do_take_def do_read_def do_ack_def sample_down_chunk_def sample_id_def
  sample_info_def downworld_init_def downstream_init_def small_chunk_def dataPointsCh_cap_def NewAliasGenerator_def
  AliasGenerator_Next_eq assignUpstreamInfoAlias_def pushUpstreamInfoAckBuffer_def pushDataIDAckBuffer_def
  assignDataIDAlias_def flushAck_def sequence_Next_def wireToDownstreamChunk_def resolveUpstream_def resolveDataID_def
  pushResultAckBuffer_def result_of_def Let_def

text \<open>A chunk with a new data ID is read completely and acknowledged.\<close>

definition sample_acked :: downworld where
  "sample_acked = do_ack (do_read (do_read (do_read (do_read (do_read (do_read (do_take
     (do_receive (9, sample_down_chunk 3 (UOA_Info (Some sample_info)) [DOA_DataID (Some (sample_id ''a''))])
       (downworld_init [] 1 ''''))))))))) "

lemma sample_acked_state:
  "dreach [] sample_acked" "length (assigned sample_acked) < 2 ^ 31"
  "map DownstreamChunkAck.DataIDAliases (acks sample_acked) = [[(1, Some (sample_id ''a''))]]"
  "length (returned sample_acked) = 1" "readers sample_acked = []" "dataIDAckBuffer (down sample_acked) = []"
proof -
  show "dreach [] sample_acked"
    unfolding sample_acked_def by (intro dreach_do dreach.Init)
qed (simp_all add: sample_acked_def down_sample_defs)

section \<open>Properties\<close>

text \<open>
  C29: An alias the downstream has announced to its peer never changes its meaning, whatever chunks, calls,
  flushes and reconnections follow: a group the peer then sends under that alias is read as the announced data ID,
  with its points.
\<close>
theorem announced_alias_is_stable:
  assumes "dreach ids w" and "ack \<in> set (acks w)" and "(a, Some i) \<in> set (DownstreamChunkAck.DataIDAliases ack)"
    and "dstep\<^sup>*\<^sup>* w w'" and "length (assigned w') < 2 ^ 31"
  shows "resolveDataID (down w') (Some \<lparr>DataPointGroup.DataIDOrAlias = DOA_Alias a, DataPointGroup.DataPoints = ps\<rparr>) =
    Inr \<lparr>DownID = i, DownPoints = ps\<rparr>"
proof -
  have "length (assigned w) < 2 ^ 31"
    using dsteps_assigned [OF assms(4)] assms(5) by auto
  then have "dataIDAliases (down w) a = Some i"
    using announced_assigned [OF assms(1) _ assms(2,3)] by simp
  then have "dataIDAliases (down w') a = Some i"
    using tables_grow [OF assms(1,4,5)] by (metis domI map_le_def)
  then show ?thesis
    by (simp add: resolveDataID_def)
qed

theorem announced_alias_is_stable_witness:
  "resolveDataID (down (do_receive (4, sample_down_chunk 4 UOA_nil []) sample_acked))
     (Some \<lparr>DataPointGroup.DataIDOrAlias = DOA_Alias 1, DataPointGroup.DataPoints = []\<rparr>) =
    Inr \<lparr>DownID = sample_id ''a'', DownPoints = []\<rparr>"
proof (rule announced_alias_is_stable [OF sample_acked_state(1)])
  have l: "length (acks sample_acked) = 1"
    using arg_cong [OF sample_acked_state(3), of length] by simp
  then show "hd (acks sample_acked) \<in> set (acks sample_acked)"
    by (cases "acks sample_acked") auto
  show "(1, Some (sample_id ''a'')) \<in> set (DownstreamChunkAck.DataIDAliases (hd (acks sample_acked)))"
    using l arg_cong [OF sample_acked_state(3), of hd] by (cases "acks sample_acked") auto
  show "length (assigned (do_receive (4, sample_down_chunk 4 UOA_nil []) sample_acked)) < 2 ^ 31"
    using sample_acked_state(2) by (simp add: do_receive_def)
qed (rule dsteps_do)

text \<open>
  Every alias of a data ID is announced exactly once: the aliases assigned so far are all different, they
  are the table the downstream reads chunks with, and they are those of the open request together with those in
  the acknowledgements, those waiting for the next acknowledgement and those a call in progress is about to put
  there.
\<close>
theorem aliases_announced_once:
  assumes "dreach ids w" and "length (assigned w) < 2 ^ 31"
  shows "distinct (map fst (assigned w)) \<and> dataIDAliases (down w) = map_of (assigned w) \<and>
    mset (assigned w) = mset (initial_aliases ids (NewAliasGenerator 0)) + mset (announced w) +
       mset (dataIDAckBuffer (down w)) + mset (pending (readers w))"
  using reach_tables [OF assms] reach_announced [OF assms] assigned_distinct [of w] assms(2)
  by (simp add: inv_tables_def inv_announced_def)

theorem aliases_announced_once_witness:
  "distinct (map fst (assigned sample_acked)) \<and> mset (assigned sample_acked) = mset (announced sample_acked)"
  using aliases_announced_once [OF sample_acked_state(1,2)] sample_acked_state(5,6) by (simp add: NewAliasGenerator_def)



text \<open>
  Chunks reach the application in the order of arrival. The queue never holds more than its capacity; the
  chunks that arrive when it is full are lost, whatever the QoS of the stream, and these are the only ones lost.
\<close>
theorem chunks_read_in_order:
  assumes "dreach ids w"
  shows "[c. (c, True) \<leftarrow> arrivals w] = taken w @ dataPointsCh (down w) \<and> length (dataPointsCh (down w)) \<le> dataPointsCh_cap"
  using reach_results [OF assms] by (simp add: inv_results_def)

theorem chunks_read_in_order_witness:
  "[c. (c, True) \<leftarrow> arrivals sample_acked] = taken sample_acked @ dataPointsCh (down sample_acked)"
  using chunks_read_in_order [OF sample_acked_state(1)] by simp


section \<open>What a call returns\<close>

definition clean_group :: "DataPointGroup \<Rightarrow> bool" where
  "clean_group g = (case DataPointGroup.DataIDOrAlias g of DOA_DataID i \<Rightarrow> i \<noteq> None | DOA_Alias a \<Rightarrow> True | _ \<Rightarrow> False)"

definition group_id :: "(u32 \<rightharpoonup> DataID) \<Rightarrow> DataPointGroup \<Rightarrow> DataID option" where
  "group_id tbl g = (case DataPointGroup.DataIDOrAlias g of DOA_DataID i \<Rightarrow> i | DOA_Alias a \<Rightarrow> tbl a | _ \<Rightarrow> None)"

lemma resolveDataID_clean:
  "clean_group g \<Longrightarrow> resolveDataID d (Some g) =
    (case group_id (dataIDAliases d) g of
       None \<Rightarrow> Inl InvalidDataIDAlias
     | Some i \<Rightarrow> Inr \<lparr>DownID = i, DownPoints = DataPointGroup.DataPoints g\<rparr>)"
  by (auto simp: resolveDataID_def clean_group_def group_id_def split: DataIDOrAlias.splits option.splits)

lemma traverse_clean:
  "list_all clean_group gs \<Longrightarrow> traverse (resolveDataID d) (map Some gs) =
    (if \<exists>g \<in> set gs. group_id (dataIDAliases d) g = None then Inl InvalidDataIDAlias
     else Inr (map (\<lambda>g. \<lparr>DownID = the (group_id (dataIDAliases d) g), DownPoints = DataPointGroup.DataPoints g\<rparr>) gs))"
  by (induction gs) (auto simp: resolveDataID_clean split: option.splits if_splits)

lemma filterDataID_clean:
  "list_all clean_group gs \<Longrightarrow> \<exists>ids. filterDataID (map Some gs) = Inr (map Some ids) \<and>
    set ids = {i. \<exists>g \<in> set gs. DataPointGroup.DataIDOrAlias g = DOA_DataID (Some i)}"
proof (induction gs)
  case (Cons g gs)
  then obtain ids where ids: "filterDataID (map Some gs) = Inr (map Some ids)"
    "set ids = {i. \<exists>g \<in> set gs. DataPointGroup.DataIDOrAlias g = DOA_DataID (Some i)}" by auto
  show ?case
  proof (cases "DataPointGroup.DataIDOrAlias g")
    case (DOA_DataID i)
    then obtain j where "i = Some j"
      using Cons.prems by (auto simp: clean_group_def)
    with DOA_DataID ids show ?thesis
      by (intro exI [of _ "j # ids"]) auto
  qed (use Cons.prems ids in \<open>auto simp: clean_group_def\<close>)
qed simp

lemma assign_loop_total: "\<exists>d' m. assignDataIDAlias_loop (map Some ids) res d = Inr (d', m)"
  by (induction ids arbitrary: res d) (auto split: prod.split)

lemma assign_loop_all:
  "assignDataIDAlias_loop ids res d = Inr (d', m) \<Longrightarrow>
    dom (dataIDAliases d) \<subseteq> dom (dataIDAliases d') \<and> dom (revDataIDAliases d) \<subseteq> dom (revDataIDAliases d') \<and> (\<forall>i. Some i \<in> set ids \<longrightarrow> i \<in> dom (revDataIDAliases d'))"
proof (induction ids res d rule: assignDataIDAlias_loop.induct)
  case (3 i ids res d)
  show ?case
  proof (cases "revDataIDAliases d i = None")
    case False
    with 3 show ?thesis by auto
  next
    case True
    obtain g a where "AliasGenerator_Next (dataIDAliasGenerator d) = (g, a)" by fastforce
    with 3 True show ?thesis by fastforce
  qed
qed auto



text \<open>
  The table of upstreams is searched by address: two chunks that carry the same upstream information in two
  allocations, as any two decoded messages do, are given two aliases for it.
\<close>
theorem same_upstream_two_aliases:
  assumes "p \<noteq> q"
  shows "case assignUpstreamInfoAlias p info (downstream_init ids al token) of
    (d1, m1) \<Rightarrow> (case assignUpstreamInfoAlias q info d1 of
      (d2, m2) \<Rightarrow> m1 = [(1, info)] \<and> m2 = [(2, info)] \<and> upstreamInfos d2 = [(1, p, info), (2, q, info)])"
  using assms
  by (simp add: assignUpstreamInfoAlias_def downstream_init_def Let_def NewAliasGenerator_def AliasGenerator_Next_eq)

theorem same_upstream_two_aliases_witness:
  "snd (assignUpstreamInfoAlias 4 sample_info (fst (assignUpstreamInfoAlias 3 sample_info (downstream_init [] 1 [])))) =
    [(2, sample_info)]"
  using same_upstream_two_aliases [of 3 4 sample_info "[]" 1 "[]"] by (simp add: case_prod_beta)

end
