(* ===== verification/Step_Systems.thy ===== *)
theory Step_Systems
  imports Main
begin

text \<open>
  The reasoning that the models of concurrent components share: a system is its start states and its step
  relation; an invariant is proved over its reachable states; and a detailed system implements an abstract one when
  a function that forgets the details maps its steps to steps of the abstract system or to nothing.
\<close>

locale step_system =
  fixes start :: "'s \<Rightarrow> bool" and step :: "'s \<Rightarrow> 's \<Rightarrow> bool"
begin

inductive reachable :: "'s \<Rightarrow> bool" where
  Start: "start s \<Longrightarrow> reachable s"
| Step: "reachable s \<Longrightarrow> step s s' \<Longrightarrow> reachable s'"

lemma invariant [consumes 1, case_names Start Step]:
  assumes "reachable s"
    and "\<And>s. start s \<Longrightarrow> P s"
    and "\<And>s s'. reachable s \<Longrightarrow> P s \<Longrightarrow> step s s' \<Longrightarrow> P s'"
  shows "P s"
  using assms by (rule reachable.induct)

lemma reachable_steps: "step\<^sup>*\<^sup>* s s' \<Longrightarrow> reachable s \<Longrightarrow> reachable s'"
  by (induction rule: rtranclp_induct) (auto intro: reachable.Step)

lemma steps_preserve:
  assumes "step\<^sup>*\<^sup>* s s'" and "\<And>s s'. step s s' \<Longrightarrow> P s \<Longrightarrow> P s'" and "P s"
  shows "P s'"
  using assms(1) by (induction rule: rtranclp_induct) (auto intro: assms(2,3))

end

locale step_refinement =
  abstract: step_system astart astep + detailed: step_system start step
  for astart :: "'a \<Rightarrow> bool" and astep :: "'a \<Rightarrow> 'a \<Rightarrow> bool"
    and start :: "'s \<Rightarrow> bool" and step :: "'s \<Rightarrow> 's \<Rightarrow> bool" +
  fixes view :: "'s \<Rightarrow> 'a"
  assumes start_view: "start s \<Longrightarrow> astart (view s)"
    and step_view: "detailed.reachable s \<Longrightarrow> step s s' \<Longrightarrow> astep (view s) (view s') \<or> view s' = view s"
begin

lemma view_reachable: "detailed.reachable s \<Longrightarrow> abstract.reachable (view s)"
proof (induction rule: detailed.invariant)
  case (Step s s')
  then show ?case
    using step_view [of s s'] by (metis abstract.reachable.Step)
qed (auto intro: abstract.reachable.Start start_view)

end

end
