(* ===== verification/Wire.thy ===== *)
theory Wire
  imports Message Generators Step_Systems "HOL-Library.Sublist"
begin

text \<open>
  The client's side of an iSCP connection over one or two transports (\<open>src/wire/client_conn.go\<close>): requests are
  numbered and their responses routed back by number; messages of streams are routed to the channel subscribed for
  their alias.

  A Go channel is a number, and its buffer is in \<open>buf\<close> of the \<open>wireworld\<close>. A map of channels is a map to these
  numbers.
\<close>

section \<open>State\<close>

type_synonym chan = nat

datatype writer = Reliable | Unreliable

record wireconn =
  idGenerator :: u32
  replyCh :: "u32 \<rightharpoonup> chan"
  acks :: "u32 \<rightharpoonup> chan"  \<comment> \<open>\<open>upstreams\<close>\<close>
  upAliases :: "uuid \<rightharpoonup> u32"
  messageWriters :: "u32 \<rightharpoonup> writer"
  dps :: "u32 \<rightharpoonup> chan"  \<comment> \<open>\<open>downstreams\<close>\<close>
  dpsUnreliable :: "u32 \<rightharpoonup> chan"
  ackCompletes :: "u32 \<rightharpoonup> chan"
  metadata :: "u32 \<rightharpoonup> (string \<rightharpoonup> chan)"
  downAliases :: "uuid \<rightharpoonup> u32"
  hasUnreliable :: bool  \<comment> \<open>\<open>unreliableTransport != nil\<close>\<close>

definition wireconn_init :: "bool \<Rightarrow> wireconn" where
  "wireconn_init u =
     \<lparr>idGenerator = newRequestIDGeneratorForClient, replyCh = Map.empty, acks = Map.empty, upAliases = Map.empty,
      messageWriters = Map.empty, dps = Map.empty, dpsUnreliable = Map.empty, ackCompletes = Map.empty,
      metadata = Map.empty, downAliases = Map.empty, hasUnreliable = u\<rparr>"

section \<open>Dispatch\<close>

text \<open>
  The messages that are a \<open>message.Request\<close>, with their \<open>GetRequestID\<close>. A \<open>nil\<close> pointer, which no transport
  delivers, is no message.
\<close>

fun GetRequestID :: "Message \<Rightarrow> u32 option" where
  "GetRequestID (M_ConnectRequest m) = map_option ConnectRequest.RequestID m"
| "GetRequestID (M_ConnectResponse m) = map_option ConnectResponse.RequestID m"
| "GetRequestID (M_UpstreamOpenRequest m) = map_option UpstreamOpenRequest.RequestID m"
| "GetRequestID (M_UpstreamOpenResponse m) = map_option UpstreamOpenResponse.RequestID m"
| "GetRequestID (M_UpstreamResumeRequest m) = map_option UpstreamResumeRequest.RequestID m"
| "GetRequestID (M_UpstreamResumeResponse m) = map_option UpstreamResumeResponse.RequestID m"
| "GetRequestID (M_UpstreamCloseRequest m) = map_option UpstreamCloseRequest.RequestID m"
| "GetRequestID (M_UpstreamCloseResponse m) = map_option UpstreamCloseResponse.RequestID m"
| "GetRequestID (M_DownstreamOpenRequest m) = map_option DownstreamOpenRequest.RequestID m"
| "GetRequestID (M_DownstreamOpenResponse m) = map_option DownstreamOpenResponse.RequestID m"
| "GetRequestID (M_DownstreamResumeRequest m) = map_option DownstreamResumeRequest.RequestID m"
| "GetRequestID (M_DownstreamResumeResponse m) = map_option DownstreamResumeResponse.RequestID m"
| "GetRequestID (M_DownstreamCloseRequest m) = map_option DownstreamCloseRequest.RequestID m"
| "GetRequestID (M_DownstreamCloseResponse m) = map_option DownstreamCloseResponse.RequestID m"
| "GetRequestID (M_UpstreamMetadata m) = map_option UpstreamMetadata.RequestID m"
| "GetRequestID (M_UpstreamMetadataAck m) = map_option UpstreamMetadataAck.RequestID m"
| "GetRequestID (M_Ping m) = map_option Ping.RequestID m"
| "GetRequestID (M_Pong m) = map_option Pong.RequestID m"
| "GetRequestID m = None"

text \<open>The queues between the reading loops and the loops that handle one kind of message each.\<close>

datatype qkind =
  msgRequestCh | msgPingCh | msgDisconnectCh | msgUpstreamChunkAckCh | msgDownstreamChunkCh
| msgDownstreamChunkUnreliableCh | msgDownstreamChunkAckCompleteCh | msgDownstreamMetaDataCh | msgDownstreamCallCh
| msgUpstreamCallAckCh

text \<open>The type switches of \<open>readReliableLoop\<close> and \<open>readUnreliableLoop\<close>; \<open>None\<close> is ignored.\<close>

definition dispatch :: "Message \<Rightarrow> qkind option" where
  "dispatch msg =
     (case msg of
        M_Ping (Some m) \<Rightarrow> Some msgPingCh
      | _ \<Rightarrow>
        if GetRequestID msg \<noteq> None then Some msgRequestCh
        else case msg of
          M_Disconnect (Some m) \<Rightarrow> Some msgDisconnectCh
        | M_UpstreamChunkAck (Some m) \<Rightarrow> Some msgUpstreamChunkAckCh
        | M_DownstreamChunk (Some m) \<Rightarrow> Some msgDownstreamChunkCh
        | M_DownstreamChunkAckComplete (Some m) \<Rightarrow> Some msgDownstreamChunkAckCompleteCh
        | M_DownstreamMetadata (Some m) \<Rightarrow> Some msgDownstreamMetaDataCh
        | M_DownstreamCall (Some m) \<Rightarrow> Some msgDownstreamCallCh
        | M_UpstreamCallAck (Some m) \<Rightarrow> Some msgUpstreamCallAckCh
        | _ \<Rightarrow> None)"

definition dispatchUnreliable :: "Message \<Rightarrow> qkind option" where
  "dispatchUnreliable msg =
     (case msg of M_DownstreamChunk (Some m) \<Rightarrow> Some msgDownstreamChunkUnreliableCh | _ \<Rightarrow> None)"

section \<open>Tables of streams\<close>

text \<open>
  \<open>ch\<close> is the channel that \<open>make\<close> returns. \<open>None\<close> is the panic of an unknown QoS.
\<close>

definition openUpstream :: "QoS \<Rightarrow> uuid \<Rightarrow> u32 \<Rightarrow> chan \<Rightarrow> wireconn \<Rightarrow> wireconn option" where
  "openUpstream qoS streamID streamIDAlias ch c =
     (let c = c\<lparr>upAliases := (upAliases c)(streamID \<mapsto> streamIDAlias), acks := (acks c)(streamIDAlias \<mapsto> ch)\<rparr>
      in case qoS of
        QoSReliable \<Rightarrow> Some (c\<lparr>messageWriters := (messageWriters c)(streamIDAlias \<mapsto> Reliable)\<rparr>)
      | QoSPartial \<Rightarrow> Some (c\<lparr>messageWriters := (messageWriters c)(streamIDAlias \<mapsto> Reliable)\<rparr>)
      | QoSUnreliable \<Rightarrow>
          Some (c\<lparr>messageWriters := (messageWriters c)(streamIDAlias \<mapsto> (if hasUnreliable c then Unreliable else Reliable))\<rparr>)
      | QoSOther _ \<Rightarrow> None)"

definition SubscribeUpstreamChunkAck :: "u32 \<Rightarrow> wireconn \<Rightarrow> chan option" where
  "SubscribeUpstreamChunkAck a c = acks c a"

text \<open>The end of \<open>SendUpstreamCloseRequest\<close>.\<close>

definition closeUpstream :: "uuid \<Rightarrow> wireconn \<Rightarrow> wireconn" where
  "closeUpstream streamID c =
     (case upAliases c streamID of
        None \<Rightarrow> c
      | Some a \<Rightarrow> c\<lparr>upAliases := (upAliases c)(streamID := None), acks := (acks c)(a := None),
                    messageWriters := (messageWriters c)(a := None)\<rparr>)"

text \<open>The transport that \<open>SendUpstreamChunk\<close> writes to; \<open>None\<close> is the error \<open>stream not exist\<close>.\<close>

definition SendUpstreamChunk :: "UpstreamChunk \<Rightarrow> wireconn \<Rightarrow> writer option" where
  "SendUpstreamChunk req c = messageWriters c (UpstreamChunk.StreamIDAlias req)"

datatype sub_error = AlreadySubscribed | PanicUnsupportedQoS

definition newDownstreamChunkCh :: "u32 \<Rightarrow> chan \<Rightarrow> wireconn \<Rightarrow> sub_error + wireconn" where
  "newDownstreamChunkCh a ch c =
     (if dps c a \<noteq> None then Inl AlreadySubscribed else Inr (c\<lparr>dps := (dps c)(a \<mapsto> ch)\<rparr>))"

definition newDownstreamChunkUnreliableCh :: "u32 \<Rightarrow> chan \<Rightarrow> wireconn \<Rightarrow> sub_error + wireconn" where
  "newDownstreamChunkUnreliableCh a ch c =
     (if dpsUnreliable c a \<noteq> None then Inl AlreadySubscribed else Inr (c\<lparr>dpsUnreliable := (dpsUnreliable c)(a \<mapsto> ch)\<rparr>))"

definition SubscribeDownstreamChunk :: "u32 \<Rightarrow> QoS \<Rightarrow> chan \<Rightarrow> wireconn \<Rightarrow> sub_error + wireconn" where
  "SubscribeDownstreamChunk a qoS ch c =
     (case qoS of
        QoSReliable \<Rightarrow> newDownstreamChunkCh a ch c
      | QoSPartial \<Rightarrow> newDownstreamChunkCh a ch c
      | QoSUnreliable \<Rightarrow> (if hasUnreliable c then newDownstreamChunkUnreliableCh a ch c else newDownstreamChunkCh a ch c)
      | QoSOther _ \<Rightarrow> Inl PanicUnsupportedQoS)"

definition SubscribeDownstreamChunkAckComplete :: "u32 \<Rightarrow> chan \<Rightarrow> wireconn \<Rightarrow> sub_error + wireconn" where
  "SubscribeDownstreamChunkAckComplete a ch c =
     (if ackCompletes c a \<noteq> None then Inl AlreadySubscribed else Inr (c\<lparr>ackCompletes := (ackCompletes c)(a \<mapsto> ch)\<rparr>))"

definition SubscribeDownstreamMeta :: "u32 \<Rightarrow> string \<Rightarrow> chan \<Rightarrow> wireconn \<Rightarrow> wireconn" where
  "SubscribeDownstreamMeta a srcNodeID ch c =
     (let chs = (case metadata c a of None \<Rightarrow> Map.empty | Some chs \<Rightarrow> chs)
      in c\<lparr>metadata := (metadata c)(a \<mapsto> chs(srcNodeID \<mapsto> ch))\<rparr>)"

text \<open>The end of \<open>SendDownstreamCloseRequest\<close>.\<close>

definition closeDownstream :: "uuid \<Rightarrow> wireconn \<Rightarrow> wireconn" where
  "closeDownstream streamID c =
     (case downAliases c streamID of
        None \<Rightarrow> c
      | Some a \<Rightarrow> c\<lparr>downAliases := (downAliases c)(streamID := None), dps := (dps c)(a := None),
          dpsUnreliable := (dpsUnreliable c)(a := None), ackCompletes := (ackCompletes c)(a := None),
          metadata := (metadata c)(a := None)\<rparr>)"

text \<open>The end of \<open>SendDownstreamOpenRequest\<close> and \<open>SendDownstreamResumeRequest\<close>.\<close>

definition openDownstream :: "uuid \<Rightarrow> u32 \<Rightarrow> wireconn \<Rightarrow> wireconn" where
  "openDownstream streamID a c = c\<lparr>downAliases := (downAliases c)(streamID \<mapsto> a)\<rparr>"

section \<open>Calls\<close>

text \<open>The operations that send a request and wait for its response.\<close>

datatype call_kind =
  SendPing
| SendUpstreamMetadata UpstreamMetadata
| SendUpstreamOpenRequest UpstreamOpenRequest
| SendUpstreamResumeRequest UpstreamResumeRequest QoS
| SendUpstreamCloseRequest UpstreamCloseRequest
| SendDownstreamOpenRequest DownstreamOpenRequest
| SendDownstreamResumeRequest DownstreamResumeRequest
| SendDownstreamCloseRequest DownstreamCloseRequest

text \<open>The request with its number, as it is written to the transport.\<close>

fun request_message :: "u32 \<Rightarrow> call_kind \<Rightarrow> Message" where
  "request_message n SendPing = M_Ping (Some \<lparr>Ping.RequestID = n, Ping.ExtensionFields = None\<rparr>)"
| "request_message n (SendUpstreamMetadata m) = M_UpstreamMetadata (Some (m\<lparr>UpstreamMetadata.RequestID := n\<rparr>))"
| "request_message n (SendUpstreamOpenRequest m) = M_UpstreamOpenRequest (Some (m\<lparr>UpstreamOpenRequest.RequestID := n\<rparr>))"
| "request_message n (SendUpstreamResumeRequest m q) = M_UpstreamResumeRequest (Some (m\<lparr>UpstreamResumeRequest.RequestID := n\<rparr>))"
| "request_message n (SendUpstreamCloseRequest m) = M_UpstreamCloseRequest (Some (m\<lparr>UpstreamCloseRequest.RequestID := n\<rparr>))"
| "request_message n (SendDownstreamOpenRequest m) = M_DownstreamOpenRequest (Some (m\<lparr>DownstreamOpenRequest.RequestID := n\<rparr>))"
| "request_message n (SendDownstreamResumeRequest m) = M_DownstreamResumeRequest (Some (m\<lparr>DownstreamResumeRequest.RequestID := n\<rparr>))"
| "request_message n (SendDownstreamCloseRequest m) = M_DownstreamCloseRequest (Some (m\<lparr>DownstreamCloseRequest.RequestID := n\<rparr>))"

text \<open>
  What a call does with its response, \<open>ch\<close> being the channel it may make. \<open>None\<close> is a panic: the type assertion
  on the response fails, or the QoS is unknown.
\<close>

definition finish_call :: "call_kind \<Rightarrow> Message \<Rightarrow> chan \<Rightarrow> wireconn \<Rightarrow> wireconn option" where
  "finish_call k msg ch c =
     (case k of
        SendPing \<Rightarrow> (case msg of M_Pong (Some r) \<Rightarrow> Some c | _ \<Rightarrow> None)
      | SendUpstreamMetadata m \<Rightarrow> (case msg of M_UpstreamMetadataAck (Some r) \<Rightarrow> Some c | _ \<Rightarrow> None)
      | SendUpstreamOpenRequest m \<Rightarrow> (case msg of
          M_UpstreamOpenResponse (Some r) \<Rightarrow> openUpstream (UpstreamOpenRequest.QoS m)
            (UpstreamOpenResponse.AssignedStreamID r) (UpstreamOpenResponse.AssignedStreamIDAlias r) ch c
        | _ \<Rightarrow> None)
      | SendUpstreamResumeRequest m q \<Rightarrow> (case msg of
          M_UpstreamResumeResponse (Some r) \<Rightarrow> openUpstream q (UpstreamResumeRequest.StreamID m)
            (UpstreamResumeResponse.AssignedStreamIDAlias r) ch c
        | _ \<Rightarrow> None)
      | SendUpstreamCloseRequest m \<Rightarrow> (case msg of
          M_UpstreamCloseResponse (Some r) \<Rightarrow> Some (closeUpstream (UpstreamCloseRequest.StreamID m) c)
        | _ \<Rightarrow> None)
      | SendDownstreamOpenRequest m \<Rightarrow> (case msg of
          M_DownstreamOpenResponse (Some r) \<Rightarrow>
            Some (openDownstream (DownstreamOpenResponse.AssignedStreamID r) (DownstreamOpenRequest.DesiredStreamIDAlias m) c)
        | _ \<Rightarrow> None)
      | SendDownstreamResumeRequest m \<Rightarrow> (case msg of
          M_DownstreamResumeResponse (Some r) \<Rightarrow>
            Some (openDownstream (DownstreamResumeRequest.StreamID m) (DownstreamResumeRequest.DesiredStreamIDAlias m) c)
        | _ \<Rightarrow> None)
      | SendDownstreamCloseRequest m \<Rightarrow> (case msg of
          M_DownstreamCloseResponse (Some r) \<Rightarrow> Some (closeDownstream (DownstreamCloseRequest.StreamID m) c)
        | _ \<Rightarrow> None))"

section \<open>The handshake\<close>

text \<open>
  \<open>Connect\<close>: one request, one answer. \<open>valid\<close> and \<open>cmp\<close> stand for \<open>semver.IsValid\<close> and \<open>semver.Compare\<close> of
  \<open>golang.org/x/mod\<close>. Durations are in nanoseconds.
\<close>

record connect_config =
  CfgProtocolVersion :: string
  CfgNodeID :: string
  CfgAccessToken :: string
  CfgIntdash :: "IntdashExtensionFields option"
  CfgPingInterval :: duration
  CfgPingTimeout :: duration

definition defaultPingInterval :: duration where "defaultPingInterval = 10000000000"
definition defaultPingTimeout :: duration where "defaultPingTimeout = 1000000000"
definition minAcceptableVersion :: string where "minAcceptableVersion = ''v2.0.0''"
definition maxAcceptableVersion :: string where "maxAcceptableVersion = ''v3.1.0''"
definition resumeTokenMinVersion :: string where "resumeTokenMinVersion = ''v3.0.0''"

definition isAcceptableProtocolVersion :: "(string \<Rightarrow> bool) \<Rightarrow> (string \<Rightarrow> string \<Rightarrow> int) \<Rightarrow> string \<Rightarrow> bool" where
  "isAcceptableProtocolVersion valid cmp version =
     (let v = CHR ''v'' # version
      in if \<not> valid v then False
         else cmp v minAcceptableVersion \<ge> 0 \<and> cmp v maxAcceptableVersion < 0)"

definition SupportsResumeToken :: "(string \<Rightarrow> string \<Rightarrow> int) \<Rightarrow> string \<Rightarrow> bool" where
  "SupportsResumeToken cmp version = (cmp (CHR ''v'' # version) resumeTokenMinVersion \<ge> 0)"

text \<open>The intervals \<open>Connect\<close> passes to \<open>waitForConnected\<close>, which has the same defaults.\<close>

definition connect_request :: "connect_config \<Rightarrow> u32 \<Rightarrow> ConnectRequest" where
  "connect_request cfg n =
     \<lparr>ConnectRequest.RequestID = n,
      ConnectRequest.ProtocolVersion = CfgProtocolVersion cfg,
      ConnectRequest.NodeID = CfgNodeID cfg,
      ConnectRequest.PingInterval = (if CfgPingInterval cfg = 0 then defaultPingInterval else CfgPingInterval cfg),
      ConnectRequest.PingTimeout = (if CfgPingTimeout cfg = 0 then defaultPingTimeout else CfgPingTimeout cfg),
      ConnectRequest.ExtensionFields = Some
        \<lparr>ConnectRequestExtensionFields.AccessToken = CfgAccessToken cfg,
         ConnectRequestExtensionFields.Intdash = CfgIntdash cfg\<rparr>\<rparr>"

datatype connect_error =
  HandshakeIO | Disconnected string | InvalidMessage | NilResponse
| ErrUnauthorized | ErrUnsupportedProtocolVersion string | FailedMessage ResultCode string

text \<open>\<open>ans\<close> is the message read, \<open>None\<close> when the write or the read fails, as it does when the watchdog closes the transport.\<close>

definition waitForConnected :: "Message option \<Rightarrow> connect_error + ConnectResponse" where
  "waitForConnected ans =
     (case ans of
        None \<Rightarrow> Inl HandshakeIO
      | Some msg \<Rightarrow>
        (case msg of
           M_ConnectResponse m \<Rightarrow> (case m of None \<Rightarrow> Inl NilResponse | Some m \<Rightarrow> Inr m)
         | M_Disconnect m \<Rightarrow> (case m of None \<Rightarrow> Inl NilResponse | Some m \<Rightarrow> Inl (Disconnected (Disconnect.ResultString m)))
         | _ \<Rightarrow> Inl InvalidMessage))"

text \<open>The request written, and the connection with the version it speaks, or the error.\<close>

definition Connect ::
    "(string \<Rightarrow> bool) \<Rightarrow> (string \<Rightarrow> string \<Rightarrow> int) \<Rightarrow> connect_config \<Rightarrow> bool \<Rightarrow> Message option \<Rightarrow>
      Message \<times> (connect_error + wireconn \<times> string)" where
  "Connect valid cmp cfg unreliable ans =
     (let c = wireconn_init unreliable; (g, n) = IDGenerator_Next (idGenerator c); c = c\<lparr>idGenerator := g\<rparr>
      in (M_ConnectRequest (Some (connect_request cfg n)),
          bindE (waitForConnected ans) (\<lambda>msg.
            if ConnectResponse.ResultCode msg = ResultCodeAuthFailed then Inl ErrUnauthorized
            else if ConnectResponse.ResultCode msg \<in> {ResultCodeSucceeded, ResultCodeOther 0} then
              (if \<not> isAcceptableProtocolVersion valid cmp (ConnectResponse.ProtocolVersion msg)
               then Inl (ErrUnsupportedProtocolVersion (ConnectResponse.ProtocolVersion msg))
               else Inr (c, ConnectResponse.ProtocolVersion msg))
            else Inl (FailedMessage (ConnectResponse.ResultCode msg) (ConnectResponse.ResultString msg)))))"

section \<open>Resuming a downstream\<close>

text \<open>
  The attempts of \<open>Downstream.resume\<close> on one connection: each subscribes anew, then sends its request. \<open>resp\<close> is
  the result code of the response, \<open>None\<close> when the request fails; \<open>ch\<close> and the following numbers are the
  channels the attempt makes.
\<close>

datatype resume_error = SubscribeFailed sub_error | RequestFailed | BadResult ResultCode
datatype resume_end = ResumeConflict | ResumeFailed resume_error | Resumed

definition resume_attempt ::
    "u32 \<Rightarrow> QoS \<Rightarrow> string list \<Rightarrow> uuid \<Rightarrow> chan \<Rightarrow> ResultCode option \<Rightarrow> wireconn \<Rightarrow> wireconn \<times> resume_end" where
  "resume_attempt a q srcs sid ch resp c =
     (case SubscribeDownstreamChunk a q ch c of
        Inl e \<Rightarrow> (c, ResumeFailed (SubscribeFailed e))
      | Inr c \<Rightarrow>
        (case SubscribeDownstreamChunkAckComplete a (ch + 1) c of
           Inl e \<Rightarrow> (c, ResumeFailed (SubscribeFailed e))
         | Inr c \<Rightarrow>
           (let c = fold (\<lambda>(i, src). SubscribeDownstreamMeta a src (ch + 2 + i)) (enumerate 0 srcs) c
            in case resp of
                 None \<Rightarrow> (c, ResumeFailed RequestFailed)
               | Some rc \<Rightarrow>
                 (let c = openDownstream sid a c
                  in if rc = ResultCodeResumeRequestConflict then (c, ResumeConflict)
                     else if rc \<noteq> ResultCodeSucceeded then (c, ResumeFailed (BadResult rc))
                     else (c, Resumed)))))"

text \<open>The retries, with the responses the peer gives; the context is cancelled after the last one.\<close>

fun resume_loop ::
    "u32 \<Rightarrow> QoS \<Rightarrow> string list \<Rightarrow> uuid \<Rightarrow> chan \<Rightarrow> ResultCode option list \<Rightarrow> wireconn \<Rightarrow> wireconn \<times> resume_end" where
  "resume_loop a q srcs sid ch [] c = (c, ResumeConflict)"
| "resume_loop a q srcs sid ch (r # rs) c =
     (case resume_attempt a q srcs sid ch r c of
        (c, ResumeConflict) \<Rightarrow> resume_loop a q srcs sid (ch + 2 + length srcs) rs c
      | res \<Rightarrow> res)"

section \<open>Channels and loops\<close>

text \<open>
  What a channel was made for. \<open>table c\<close> reads the maps of the connection as one map over these keys, and
  \<open>key_of q\<close> is the key that the loop of queue \<open>q\<close> looks a message up with.
\<close>

datatype ckey = KReply u32 | KAck u32 | KDown u32 | KDownUnreliable u32 | KAckComplete u32 | KMeta u32 string

fun table :: "wireconn \<Rightarrow> ckey \<Rightarrow> chan option" where
  "table c (KReply n) = replyCh c n"
| "table c (KAck a) = acks c a"
| "table c (KDown a) = dps c a"
| "table c (KDownUnreliable a) = dpsUnreliable c a"
| "table c (KAckComplete a) = ackCompletes c a"
| "table c (KMeta a src) = (case metadata c a of None \<Rightarrow> None | Some chs \<Rightarrow> chs src)"

fun queue_of :: "ckey \<Rightarrow> qkind" where
  "queue_of (KReply n) = msgRequestCh"
| "queue_of (KAck a) = msgUpstreamChunkAckCh"
| "queue_of (KDown a) = msgDownstreamChunkCh"
| "queue_of (KDownUnreliable a) = msgDownstreamChunkUnreliableCh"
| "queue_of (KAckComplete a) = msgDownstreamChunkAckCompleteCh"
| "queue_of (KMeta a src) = msgDownstreamMetaDataCh"

definition key_of :: "qkind \<Rightarrow> Message \<Rightarrow> ckey option" where
  "key_of q msg =
     (case q of
        msgRequestCh \<Rightarrow> map_option KReply (GetRequestID msg)
      | msgUpstreamChunkAckCh \<Rightarrow>
          (case msg of M_UpstreamChunkAck (Some m) \<Rightarrow> Some (KAck (UpstreamChunkAck.StreamIDAlias m)) | _ \<Rightarrow> None)
      | msgDownstreamChunkCh \<Rightarrow>
          (case msg of M_DownstreamChunk (Some m) \<Rightarrow> Some (KDown (DownstreamChunk.StreamIDAlias m)) | _ \<Rightarrow> None)
      | msgDownstreamChunkUnreliableCh \<Rightarrow>
          (case msg of M_DownstreamChunk (Some m) \<Rightarrow> Some (KDownUnreliable (DownstreamChunk.StreamIDAlias m)) | _ \<Rightarrow> None)
      | msgDownstreamChunkAckCompleteCh \<Rightarrow>
          (case msg of
             M_DownstreamChunkAckComplete (Some m) \<Rightarrow> Some (KAckComplete (DownstreamChunkAckComplete.StreamIDAlias m))
           | _ \<Rightarrow> None)
      | msgDownstreamMetaDataCh \<Rightarrow>
          (case msg of
             M_DownstreamMetadata (Some m) \<Rightarrow>
               Some (KMeta (DownstreamMetadata.StreamIDAlias m) (DownstreamMetadata.SourceNodeID m))
           | _ \<Rightarrow> None)
      | _ \<Rightarrow> None)"

datatype call =
  Numbered u32 call_kind  \<comment> \<open>has drawn its number\<close>
| Registered u32 call_kind chan  \<comment> \<open>waits to write\<close>
| Waiting u32 call_kind chan  \<comment> \<open>has written\<close>

text \<open>
  The connection with its queues and channels. The last fields are histories, which no step reads: \<open>owner\<close>, what
  each channel was made for; \<open>arrived\<close>, the messages in the order in which they entered the queues; \<open>pushed\<close> and
  \<open>taken\<close>, those sent to and received from the channels; \<open>drawn\<close>, the request numbers; \<open>written\<close>, what was written
  to the reliable transport; \<open>answered\<close>, the calls that returned, with the message they took for their response.
\<close>

record wireworld =
  conn :: wireconn
  queue :: "qkind \<Rightarrow> Message list"
  buf :: "chan \<Rightarrow> Message list"
  nextCh :: chan
  calling :: "call list"
  panicked :: bool
  owner :: "chan \<Rightarrow> ckey option"
  arrived :: "(qkind \<times> Message) list"
  pushed :: "(chan \<times> Message) list"
  taken :: "(chan \<times> Message) list"
  drawn :: "u32 list"
  written :: "Message list"
  answered :: "(u32 \<times> call_kind \<times> Message) list"

text \<open>After \<open>Connect\<close>, whose request has the first number.\<close>

definition wireworld_init :: "bool \<Rightarrow> wireworld" where
  "wireworld_init u =
     \<lparr>conn = (wireconn_init u)\<lparr>idGenerator := fst (IDGenerator_Next newRequestIDGeneratorForClient)\<rparr>, queue = (\<lambda>q. []), buf = (\<lambda>ch. []), nextCh = 0, calling = [], panicked = False,
      owner = Map.empty, arrived = [], pushed = [], taken = [], drawn = [newRequestIDGeneratorForClient], written = [], answered = []\<rparr>"

definition queue_cap :: nat where "queue_cap = 8"
definition stream_cap :: nat where "stream_cap = 1024"

text \<open>A message read from a transport.\<close>

definition enqueue :: "qkind \<Rightarrow> Message \<Rightarrow> wireworld \<Rightarrow> wireworld" where
  "enqueue q m w = w\<lparr>queue := (queue w)(q := queue w q @ [m]), arrived := arrived w @ [(q, m)]\<rparr>"

definition push :: "chan \<Rightarrow> Message \<Rightarrow> wireworld \<Rightarrow> wireworld" where
  "push ch m w = w\<lparr>buf := (buf w)(ch := buf w ch @ [m]), pushed := pushed w @ [(ch, m)]\<rparr>"

text \<open>\<open>select\<close> with a \<open>default\<close> that drops the message.\<close>

definition try_push :: "chan \<Rightarrow> Message \<Rightarrow> wireworld \<Rightarrow> wireworld" where
  "try_push ch m w = (if length (buf w ch) < stream_cap then push ch m w else w)"

definition pop_queue :: "qkind \<Rightarrow> wireworld \<Rightarrow> wireworld" where
  "pop_queue q w = w\<lparr>queue := (queue w)(q := tl (queue w q))\<rparr>"

definition readRequestLoop :: "Message \<Rightarrow> wireworld \<Rightarrow> wireworld" where
  "readRequestLoop msg w =
     (case GetRequestID msg of None \<Rightarrow> w
      | Some n \<Rightarrow>
        (case replyCh (conn w) n of None \<Rightarrow> w
         | Some ch \<Rightarrow> push ch msg (w\<lparr>conn := (conn w)\<lparr>replyCh := (replyCh (conn w))(n := None)\<rparr>\<rparr>)))"

definition readPingLoop :: "Message \<Rightarrow> wireworld \<Rightarrow> wireworld" where
  "readPingLoop msg w =
     (case msg of
        M_Ping (Some m) \<Rightarrow>
          w\<lparr>written := written w @ [M_Pong (Some \<lparr>Pong.RequestID = Ping.RequestID m, Pong.ExtensionFields = None\<rparr>)]\<rparr>
      | _ \<Rightarrow> w)"

definition readUpstreamChunkAckLoop :: "Message \<Rightarrow> wireworld \<Rightarrow> wireworld" where
  "readUpstreamChunkAckLoop msg w =
     (case msg of
        M_UpstreamChunkAck (Some m) \<Rightarrow>
          (case acks (conn w) (UpstreamChunkAck.StreamIDAlias m) of None \<Rightarrow> w | Some ch \<Rightarrow> try_push ch msg w)
      | _ \<Rightarrow> w)"

definition readDownstreamChunkLoop :: "Message \<Rightarrow> wireworld \<Rightarrow> wireworld" where
  "readDownstreamChunkLoop msg w =
     (case msg of
        M_DownstreamChunk (Some m) \<Rightarrow>
          (case dps (conn w) (DownstreamChunk.StreamIDAlias m) of None \<Rightarrow> w | Some ch \<Rightarrow> try_push ch msg w)
      | _ \<Rightarrow> w)"

definition readDownstreamChunkUnreliableLoop :: "Message \<Rightarrow> wireworld \<Rightarrow> wireworld" where
  "readDownstreamChunkUnreliableLoop msg w =
     (case msg of
        M_DownstreamChunk (Some m) \<Rightarrow>
          (case dpsUnreliable (conn w) (DownstreamChunk.StreamIDAlias m) of None \<Rightarrow> w | Some ch \<Rightarrow> try_push ch msg w)
      | _ \<Rightarrow> w)"

definition readDownstreamChunkAckCompleteLoop :: "Message \<Rightarrow> wireworld \<Rightarrow> wireworld" where
  "readDownstreamChunkAckCompleteLoop msg w =
     (case msg of
        M_DownstreamChunkAckComplete (Some m) \<Rightarrow>
          (case ackCompletes (conn w) (DownstreamChunkAckComplete.StreamIDAlias m) of
             None \<Rightarrow> w
           | Some ch \<Rightarrow> try_push ch msg w)
      | _ \<Rightarrow> w)"

definition readDownstreamMetadataLoop :: "Message \<Rightarrow> wireworld \<Rightarrow> wireworld" where
  "readDownstreamMetadataLoop msg w =
     (case msg of
        M_DownstreamMetadata (Some m) \<Rightarrow>
          (case metadata (conn w) (DownstreamMetadata.StreamIDAlias m) of
             None \<Rightarrow> w
           | Some chs \<Rightarrow>
             (case chs (DownstreamMetadata.SourceNodeID m) of None \<Rightarrow> w | Some ch \<Rightarrow> try_push ch msg w))
      | _ \<Rightarrow> w)"

text \<open>
  One round of the loop over a queue. The calls between nodes are read by the application from their queue itself,
  and a \<open>Disconnect\<close> only closes the transport.
\<close>

definition handle :: "qkind \<Rightarrow> Message \<Rightarrow> wireworld \<Rightarrow> wireworld" where
  "handle q msg w =
     (case q of
        msgRequestCh \<Rightarrow> readRequestLoop msg w
      | msgPingCh \<Rightarrow> readPingLoop msg w
      | msgDisconnectCh \<Rightarrow> w
      | msgUpstreamChunkAckCh \<Rightarrow> readUpstreamChunkAckLoop msg w
      | msgDownstreamChunkCh \<Rightarrow> readDownstreamChunkLoop msg w
      | msgDownstreamChunkUnreliableCh \<Rightarrow> readDownstreamChunkUnreliableLoop msg w
      | msgDownstreamChunkAckCompleteCh \<Rightarrow> readDownstreamChunkAckCompleteLoop msg w
      | msgDownstreamMetaDataCh \<Rightarrow> readDownstreamMetadataLoop msg w
      | msgDownstreamCallCh \<Rightarrow> w
      | msgUpstreamCallAckCh \<Rightarrow> w)"

section \<open>Steps\<close>

definition draw :: "call_kind \<Rightarrow> wireworld \<Rightarrow> wireworld" where
  "draw k w =
     (let (g, n) = IDGenerator_Next (idGenerator (conn w))
      in w\<lparr>conn := (conn w)\<lparr>idGenerator := g\<rparr>, drawn := drawn w @ [n], calling := calling w @ [Numbered n k]\<rparr>)"

text \<open>The first section of \<open>sendRequest\<close>.\<close>

definition register :: "u32 \<Rightarrow> wireworld \<Rightarrow> wireworld" where
  "register n w =
     w\<lparr>conn := (conn w)\<lparr>replyCh := (replyCh (conn w))(n \<mapsto> nextCh w)\<rparr>, nextCh := Suc (nextCh w),
       owner := (owner w)(nextCh w \<mapsto> KReply n)\<rparr>"

text \<open>The rest of a call when its reply channel holds \<open>msg\<close>; an opened upstream makes the channel of its acknowledgements.\<close>

definition opened_alias :: "call_kind \<Rightarrow> Message \<Rightarrow> u32 option" where
  "opened_alias k msg =
     (case (k, msg) of
        (SendUpstreamOpenRequest m, M_UpstreamOpenResponse (Some r)) \<Rightarrow> Some (UpstreamOpenResponse.AssignedStreamIDAlias r)
      | (SendUpstreamResumeRequest m q, M_UpstreamResumeResponse (Some r)) \<Rightarrow> Some (UpstreamResumeResponse.AssignedStreamIDAlias r)
      | _ \<Rightarrow> None)"

definition return_call :: "u32 \<Rightarrow> call_kind \<Rightarrow> Message \<Rightarrow> wireworld \<Rightarrow> wireworld" where
  "return_call n k msg w =
     (case finish_call k msg (nextCh w) (conn w) of
        None \<Rightarrow> w\<lparr>panicked := True\<rparr>
      | Some c \<Rightarrow>
        w\<lparr>conn := c, nextCh := Suc (nextCh w), owner := (owner w)(nextCh w := map_option KAck (opened_alias k msg)),
          answered := answered w @ [(n, k, msg)]\<rparr>)"

definition take_from :: "chan \<Rightarrow> wireworld \<Rightarrow> wireworld" where
  "take_from ch w = w\<lparr>buf := (buf w)(ch := tl (buf w ch)), taken := taken w @ [(ch, hd (buf w ch))]\<rparr>"

text \<open>The subscription of key \<open>k\<close> on a new channel.\<close>

definition subscribe :: "ckey \<Rightarrow> wireconn \<Rightarrow> wireworld \<Rightarrow> wireworld" where
  "subscribe k c w = w\<lparr>conn := c, nextCh := Suc (nextCh w), owner := (owner w)(nextCh w \<mapsto> k)\<rparr>"

inductive wstep :: "wireworld \<Rightarrow> wireworld \<Rightarrow> bool" where
  Arrive: "\<not> panicked w \<Longrightarrow> dispatch m = Some q \<Longrightarrow> length (queue w q) < queue_cap \<Longrightarrow> wstep w (enqueue q m w)"
| ArriveUnreliable: "\<not> panicked w \<Longrightarrow> hasUnreliable (conn w) \<Longrightarrow> dispatchUnreliable m = Some q \<Longrightarrow>
    length (queue w q) < queue_cap \<Longrightarrow> wstep w (enqueue q m w)"
| Handle: "\<not> panicked w \<Longrightarrow> queue w q = m # ms \<Longrightarrow> wstep w (handle q m (pop_queue q w))"
| Draw: "\<not> panicked w \<Longrightarrow> wstep w (draw k w)"
| Register: "\<not> panicked w \<Longrightarrow> calling w = cs @ Numbered n k # cs' \<Longrightarrow>
    wstep w (register n (w\<lparr>calling := cs @ Registered n k (nextCh w) # cs'\<rparr>))"
| Write: "\<not> panicked w \<Longrightarrow> calling w = cs @ Registered n k ch # cs' \<Longrightarrow>
    wstep w (w\<lparr>calling := cs @ Waiting n k ch # cs', written := written w @ [request_message n k]\<rparr>)"
| WriteError: "\<not> panicked w \<Longrightarrow> calling w = cs @ Registered n k ch # cs' \<Longrightarrow> wstep w (w\<lparr>calling := cs @ cs'\<rparr>)"
| GiveUp: "\<not> panicked w \<Longrightarrow> calling w = cs @ Waiting n k ch # cs' \<Longrightarrow> wstep w (w\<lparr>calling := cs @ cs'\<rparr>)"
| Return: "\<not> panicked w \<Longrightarrow> calling w = cs @ Waiting n k ch # cs' \<Longrightarrow> buf w ch = m # ms \<Longrightarrow>
    wstep w (return_call n k m (take_from ch (w\<lparr>calling := cs @ cs'\<rparr>)))"
| SubscribeChunk: "\<not> panicked w \<Longrightarrow> SubscribeDownstreamChunk a q (nextCh w) (conn w) = Inr c \<Longrightarrow>
    wstep w (subscribe (if q = QoSUnreliable \<and> hasUnreliable (conn w) then KDownUnreliable a else KDown a) c w)"
| SubscribeAckComplete: "\<not> panicked w \<Longrightarrow> SubscribeDownstreamChunkAckComplete a (nextCh w) (conn w) = Inr c \<Longrightarrow>
    wstep w (subscribe (KAckComplete a) c w)"
| SubscribeMeta: "\<not> panicked w \<Longrightarrow>
    wstep w (subscribe (KMeta a src) (SubscribeDownstreamMeta a src (nextCh w) (conn w)) w)"
| Receive: "\<not> panicked w \<Longrightarrow> buf w ch = m # ms \<Longrightarrow> (\<forall>n. owner w ch \<noteq> Some (KReply n)) \<Longrightarrow> wstep w (take_from ch w)"

end
