(* ===== verification/Wire_Properties.thy ===== *)
theory Wire_Properties
  imports Wire Step_Systems "HOL-Library.Multiset"
begin

text \<open>
  What the connection guarantees to its callers in every interleaving: responses reach the call that made the
  request, and a subscriber receives messages of its stream only, in the order in which they came.
\<close>

section \<open>The connection as a step system\<close>

interpretation wire: step_system "\<lambda>w. \<exists>u. w = wireworld_init u" wstep .

definition pushed_to :: "chan \<Rightarrow> wireworld \<Rightarrow> Message list" where
  "pushed_to ch w = map snd (filter (\<lambda>p. fst p = ch) (pushed w))"

definition taken_from :: "chan \<Rightarrow> wireworld \<Rightarrow> Message list" where
  "taken_from ch w = map snd (filter (\<lambda>p. fst p = ch) (taken w))"

definition arrived_at :: "qkind \<Rightarrow> wireworld \<Rightarrow> Message list" where
  "arrived_at q w = map snd (filter (\<lambda>p. fst p = q) (arrived w))"

text \<open>The messages a channel with key \<open>k\<close> is for.\<close>

definition for_key :: "ckey \<Rightarrow> Message list \<Rightarrow> Message list" where
  "for_key k ms = filter (\<lambda>m. key_of (queue_of k) m = Some k) ms"

lemma for_key_simps [simp]:
  "for_key k [] = []" "for_key k (ms @ ms') = for_key k ms @ for_key k ms'"
  "for_key k (m # ms) = (if key_of (queue_of k) m = Some k then m # for_key k ms else for_key k ms)"
  by (simp_all add: for_key_def)

lemma key_of_queue: "key_of q m = Some k \<Longrightarrow> queue_of k = q"
  by (auto simp: key_of_def split: qkind.splits Message.splits option.splits)

section \<open>Handling a message\<close>

text \<open>Every loop looks its message up by key, and either drops it or sends it on.\<close>

definition deliver :: "qkind \<Rightarrow> Message \<Rightarrow> ckey \<Rightarrow> chan \<Rightarrow> wireworld \<Rightarrow> wireworld" where
  "deliver q m k ch w =
     (case k of
        KReply n \<Rightarrow> push ch m (w\<lparr>conn := (conn w)\<lparr>replyCh := (replyCh (conn w))(n := None)\<rparr>\<rparr>)
      | _ \<Rightarrow> try_push ch m w)"

lemma handle_eq:
  "handle q m w =
     (if q = msgPingCh then readPingLoop m w
      else case key_of q m of None \<Rightarrow> w
        | Some k \<Rightarrow> (case table (conn w) k of None \<Rightarrow> w | Some ch \<Rightarrow> deliver q m k ch w))"
proof (cases q)
  case msgRequestCh
  then show ?thesis
    by (simp add: handle_def key_of_def readRequestLoop_def deliver_def split: option.splits)
next
  case msgUpstreamChunkAckCh
  then show ?thesis
    by (simp add: handle_def key_of_def readUpstreamChunkAckLoop_def deliver_def split: Message.splits option.splits)
next
  case msgDownstreamChunkCh
  then show ?thesis
    by (simp add: handle_def key_of_def readDownstreamChunkLoop_def deliver_def split: Message.splits option.splits)
next
  case msgDownstreamChunkUnreliableCh
  then show ?thesis
    by (simp add: handle_def key_of_def readDownstreamChunkUnreliableLoop_def deliver_def split: Message.splits option.splits)
next
  case msgDownstreamChunkAckCompleteCh
  then show ?thesis
    by (simp add: handle_def key_of_def readDownstreamChunkAckCompleteLoop_def deliver_def split: Message.splits option.splits)
next
  case msgDownstreamMetaDataCh
  then show ?thesis
    by (simp add: handle_def key_of_def readDownstreamMetadataLoop_def deliver_def split: Message.splits option.splits)
qed (simp_all add: handle_def key_of_def)

section \<open>Invariants of the channels\<close>

definition inv_tables :: "wireworld \<Rightarrow> bool" where
  "inv_tables w \<longleftrightarrow> (\<forall>k ch. table (conn w) k = Some ch \<longrightarrow> owner w ch = Some k)"

definition inv_fresh :: "wireworld \<Rightarrow> bool" where
  "inv_fresh w \<longleftrightarrow> (\<forall>ch \<ge> nextCh w. owner w ch = None \<and> buf w ch = [] \<and> pushed_to ch w = [] \<and> taken_from ch w = [])"

definition inv_queues :: "wireworld \<Rightarrow> bool" where
  "inv_queues w \<longleftrightarrow> (\<forall>q. \<exists>done. arrived_at q w = done @ queue w q)"

definition inv_routes :: "wireworld \<Rightarrow> bool" where
  "inv_routes w \<longleftrightarrow> (\<forall>ch k. owner w ch = Some k \<longrightarrow>
     subseq (pushed_to ch w @ for_key k (queue w (queue_of k))) (for_key k (arrived_at (queue_of k) w)))"

definition inv_bufs :: "wireworld \<Rightarrow> bool" where
  "inv_bufs w \<longleftrightarrow> (\<forall>ch. taken_from ch w @ buf w ch = pushed_to ch w)"

definition inv_replies :: "wireworld \<Rightarrow> bool" where
  "inv_replies w \<longleftrightarrow> (\<forall>ch n. owner w ch = Some (KReply n) \<longrightarrow>
     length (pushed_to ch w) \<le> (if replyCh (conn w) n = Some ch then 0 else 1))"

definition inv_chans :: "wireworld \<Rightarrow> bool" where
  "inv_chans w \<longleftrightarrow>
     inv_tables w \<and> inv_fresh w \<and> inv_queues w \<and> inv_routes w \<and> inv_bufs w \<and> inv_replies w"

lemmas inv_chan_defs = inv_tables_def inv_fresh_def inv_queues_def inv_routes_def inv_bufs_def inv_replies_def

lemma inv_chansI:
  "inv_tables w \<Longrightarrow> inv_fresh w \<Longrightarrow> inv_queues w \<Longrightarrow> inv_routes w \<Longrightarrow> inv_bufs w \<Longrightarrow> inv_replies w \<Longrightarrow> inv_chans w"
  by (simp add: inv_chans_def)

lemma histories [simp]:
  "pushed_to ch (push ch' m w) = (if ch = ch' then pushed_to ch w @ [m] else pushed_to ch w)"
  "taken_from ch (push ch' m w) = taken_from ch w" "arrived_at q (push ch' m w) = arrived_at q w"
  "pushed_to ch (enqueue q' m w) = pushed_to ch w" "taken_from ch (enqueue q' m w) = taken_from ch w"
  "arrived_at q (enqueue q' m w) = (if q = q' then arrived_at q w @ [m] else arrived_at q w)"
  "pushed_to ch (take_from ch' w) = pushed_to ch w"
  "taken_from ch (take_from ch' w) = (if ch = ch' then taken_from ch w @ [hd (buf w ch)] else taken_from ch w)"
  "arrived_at q (take_from ch' w) = arrived_at q w"
  by (auto simp: pushed_to_def taken_from_def arrived_at_def push_def enqueue_def take_from_def)

lemma histories_update [simp]:
  "pushed_to ch (pop_queue q w) = pushed_to ch w" "taken_from ch (pop_queue q w) = taken_from ch w"
  "arrived_at q' (pop_queue q w) = arrived_at q' w"
  "pushed_to ch (w\<lparr>conn := c\<rparr>) = pushed_to ch w" "taken_from ch (w\<lparr>conn := c\<rparr>) = taken_from ch w"
  "arrived_at q (w\<lparr>conn := c\<rparr>) = arrived_at q w"
  by (simp_all add: pop_queue_def pushed_to_def taken_from_def arrived_at_def)

lemma subseq_snoc2: "subseq (xs @ ys) zs \<Longrightarrow> subseq (xs @ ys @ [z]) (zs @ [z])"
  by (metis append_assoc subseq_append)

lemma subseq_drop_middle: "subseq (xs @ y # ys) zs \<Longrightarrow> subseq (xs @ ys) zs"
  using list_emb_append_mono [OF subseq_order.refl list_emb_Cons [OF subseq_order.refl], of xs ys y]
  by (rule subseq_order.trans)

text \<open>Steps that leave the channels alone.\<close>

lemma inv_chans_cong:
  assumes "inv_chans w" "\<forall>k. table (conn w') k = table (conn w) k" "queue w' = queue w" "buf w' = buf w"
    "nextCh w' = nextCh w" "owner w' = owner w" "arrived w' = arrived w" "pushed w' = pushed w" "taken w' = taken w"
  shows "inv_chans w'"
proof -
  have "replyCh (conn w') n = replyCh (conn w) n" for n
    using assms(2) [THEN spec, of "KReply n"] by simp
  moreover have "pushed_to ch w' = pushed_to ch w" "taken_from ch w' = taken_from ch w" "arrived_at q w' = arrived_at q w" for ch q
    using assms by (simp_all add: pushed_to_def taken_from_def arrived_at_def)
  ultimately show ?thesis
    using assms unfolding inv_chans_def inv_chan_defs by simp
qed

lemma inv_chans_enqueue:
  assumes "inv_chans w" shows "inv_chans (enqueue q m w)"
proof (rule inv_chansI)
  have unchanged: "conn (enqueue q m w) = conn w" "owner (enqueue q m w) = owner w" "buf (enqueue q m w) = buf w"
      "nextCh (enqueue q m w) = nextCh w" and queue: "queue (enqueue q m w) = (queue w)(q := queue w q @ [m])"
    by (simp_all add: enqueue_def)
  note simps = unchanged queue
  show "inv_tables (enqueue q m w)" "inv_fresh (enqueue q m w)"
    using assms by (simp_all add: inv_chans_def inv_tables_def inv_fresh_def simps)
  show "inv_bufs (enqueue q m w)" "inv_replies (enqueue q m w)"
    using assms unfolding inv_chans_def inv_bufs_def inv_replies_def by (simp_all add: simps)
  show "inv_queues (enqueue q m w)"
    using assms by (auto simp: inv_chans_def inv_queues_def simps)
  show "inv_routes (enqueue q m w)"
    unfolding inv_routes_def
  proof (intro allI impI)
    fix ch k assume "owner (enqueue q m w) ch = Some k"
    with assms have "subseq (pushed_to ch w @ for_key k (queue w (queue_of k))) (for_key k (arrived_at (queue_of k) w))"
      by (simp add: inv_chans_def inv_routes_def simps)
    then show "subseq (pushed_to ch (enqueue q m w) @ for_key k (queue (enqueue q m w) (queue_of k)))
        (for_key k (arrived_at (queue_of k) (enqueue q m w)))"
      by (cases "queue_of k = q") (auto simp: simps subseq_snoc2 intro: list_emb_prefix)
  qed
qed

lemma inv_chans_pop:
  assumes "inv_chans w" "queue w q = m # ms" shows "inv_chans (pop_queue q w)"
proof (rule inv_chansI)
  have simps: "conn (pop_queue q w) = conn w" "owner (pop_queue q w) = owner w" "buf (pop_queue q w) = buf w"
      "nextCh (pop_queue q w) = nextCh w" "queue (pop_queue q w) = (queue w)(q := ms)"
    using assms(2) by (simp_all add: pop_queue_def)
  show "inv_tables (pop_queue q w)" "inv_fresh (pop_queue q w)"
    using assms by (simp_all add: inv_chans_def inv_tables_def inv_fresh_def simps)
  show "inv_bufs (pop_queue q w)" "inv_replies (pop_queue q w)"
    using assms unfolding inv_chans_def inv_bufs_def inv_replies_def by (simp_all add: simps)
  show "inv_queues (pop_queue q w)"
    unfolding inv_queues_def histories_update simps
  proof
    fix q'
    obtain pre where "arrived_at q' w = pre @ queue w q'"
      using assms(1) by (auto simp: inv_chans_def inv_queues_def)
    then show "\<exists>done. arrived_at q' w = done @ ((queue w)(q := ms)) q'"
      using assms(2) by (cases "q' = q") (auto intro: exI [of _ "pre @ [m]"])
  qed
  show "inv_routes (pop_queue q w)"
    unfolding inv_routes_def
  proof (intro allI impI)
    fix ch k assume "owner (pop_queue q w) ch = Some k"
    with assms(1) have "subseq (pushed_to ch w @ for_key k (queue w (queue_of k))) (for_key k (arrived_at (queue_of k) w))"
      by (simp add: inv_chans_def inv_routes_def simps)
    then show "subseq (pushed_to ch (pop_queue q w) @ for_key k (queue (pop_queue q w) (queue_of k)))
        (for_key k (arrived_at (queue_of k) (pop_queue q w)))"
      using assms(2) by (auto simp: simps split: if_splits dest: subseq_drop_middle)
  qed
qed

text \<open>A message taken off its queue is sent to the channel of its key.\<close>

lemma inv_chans_deliver:
  assumes "inv_chans w" "queue w q = m # ms" "key_of q m = Some k" "table (conn w) k = Some ch"
    "\<And>n. k = KReply n \<Longrightarrow> c = (conn w)\<lparr>replyCh := (replyCh (conn w))(n := None)\<rparr>"
    "\<And>n. k \<noteq> KReply n \<Longrightarrow> True" "(\<forall>n. k \<noteq> KReply n) \<longrightarrow> c = conn w"
  shows "inv_chans (push ch m ((pop_queue q w)\<lparr>conn := c\<rparr>))" (is "inv_chans ?w")
proof (rule inv_chansI)
  have q: "queue_of k = q"
    using assms(3) by (rule key_of_queue)
  have own: "owner w ch = Some k"
    using assms(1,4) by (simp add: inv_chans_def inv_tables_def)
  have old: "inv_chans (pop_queue q w)"
    using assms(1,2) by (rule inv_chans_pop)
  have sub: "table c k' = Some ch' \<Longrightarrow> table (conn w) k' = Some ch'" for k' ch'
    using assms(5,7) by (cases k; cases k') (auto split: if_splits)
  have simps: "conn ?w = c" "owner ?w = owner w" "buf ?w = (buf w)(ch := buf w ch @ [m])"
      "nextCh ?w = nextCh w" "queue ?w = (queue w)(q := ms)"
    using assms(2) by (simp_all add: pop_queue_def push_def)
  show "inv_tables ?w"
    using assms(1) sub by (simp add: inv_chans_def inv_tables_def simps)
  have "ch < nextCh w"
    using assms(1) own by (fastforce simp: inv_chans_def inv_fresh_def not_le [symmetric])
  then show "inv_fresh ?w"
    using assms(1) by (auto simp: inv_chans_def inv_fresh_def simps)
  show "inv_queues ?w"
  proof -
    have "queue (pop_queue q w) = (queue w)(q := ms)"
      using assms(2) by (simp add: pop_queue_def)
    then show ?thesis
      using old by (simp add: inv_chans_def inv_queues_def simps)
  qed
  show "inv_bufs ?w"
    using assms(1) by (simp add: inv_chans_def inv_bufs_def simps)
  show "inv_replies ?w"
    unfolding inv_replies_def
  proof (intro allI impI)
    fix ch' n assume o: "owner ?w ch' = Some (KReply n)"
    have base: "length (pushed_to ch' w) \<le> (if replyCh (conn w) n = Some ch' then 0 else 1)"
      using assms(1) o by (simp add: inv_chans_def inv_replies_def simps)
    show "length (pushed_to ch' ?w) \<le> (if replyCh (conn ?w) n = Some ch' then 0 else 1)"
    proof (cases "ch' = ch")
      case True
      with o own have "k = KReply n" by (simp add: simps)
      then have "replyCh c n = None" "replyCh (conn w) n = Some ch"
        using assms(4,5) by simp_all
      with base True show ?thesis by (simp add: simps)
    next
      case False
      then have "replyCh c n = Some ch' \<Longrightarrow> replyCh (conn w) n = Some ch'"
        using sub [of "KReply n" ch'] by simp
      moreover have "k \<noteq> KReply n \<Longrightarrow> replyCh c n = replyCh (conn w) n"
        using assms(5,7) by (cases k) auto
      moreover have "k = KReply n \<Longrightarrow> replyCh (conn w) n = Some ch"
        using assms(4) by simp
      ultimately show ?thesis
        using base False by (cases "k = KReply n") (auto simp: simps split: if_splits)
    qed
  qed
  show "inv_routes ?w"
    unfolding inv_routes_def
  proof (intro allI impI)
    fix ch' k' assume o: "owner ?w ch' = Some k'"
    then have s: "subseq (pushed_to ch' w @ for_key k' (queue w (queue_of k'))) (for_key k' (arrived_at (queue_of k') w))"
      using assms(1) by (simp add: inv_chans_def inv_routes_def simps)
    show "subseq (pushed_to ch' ?w @ for_key k' (queue ?w (queue_of k'))) (for_key k' (arrived_at (queue_of k') ?w))"
    proof (cases "ch' = ch")
      case True
      with o own have "k' = k" by (simp add: simps)
      with s True show ?thesis
        using q assms(2,3) by (simp add: simps)
    next
      case False
      with s show ?thesis
        using assms(2) by (auto simp: simps split: if_splits dest: subseq_drop_middle)
    qed
  qed
qed


text \<open>A new channel, entered in the tables under its key at most.\<close>

lemma inv_chans_fresh:
  assumes "inv_chans w"
    "\<And>k ch. table c k = Some ch \<Longrightarrow> table (conn w) k = Some ch \<or> ch = nextCh w \<and> ko = Some k"
  shows "inv_chans (w\<lparr>conn := c, nextCh := Suc (nextCh w), owner := (owner w)(nextCh w := ko)\<rparr>)" (is "inv_chans ?w")
proof (rule inv_chansI)
  have new: "owner w (nextCh w) = None" "pushed_to (nextCh w) w = []"
    using assms(1) by (simp_all add: inv_chans_def inv_fresh_def)
  have hist: "pushed_to ch ?w = pushed_to ch w" "taken_from ch ?w = taken_from ch w" "arrived_at q ?w = arrived_at q w" for ch q
    by (simp_all add: pushed_to_def taken_from_def arrived_at_def)
  have old: "table (conn w) k = Some ch \<Longrightarrow> ch \<noteq> nextCh w" for k ch
    using assms(1) new by (auto simp: inv_chans_def inv_tables_def)
  show "inv_tables ?w"
    using assms old by (fastforce simp: inv_chans_def inv_tables_def)
  show "inv_fresh ?w" "inv_queues ?w" "inv_bufs ?w"
    using assms(1) by (simp_all add: inv_chans_def inv_fresh_def inv_queues_def inv_bufs_def hist)
  show "inv_routes ?w"
    unfolding inv_routes_def
  proof (intro allI impI)
    fix ch k assume o: "owner ?w ch = Some k"
    show "subseq (pushed_to ch ?w @ for_key k (queue ?w (queue_of k))) (for_key k (arrived_at (queue_of k) ?w))"
    proof (cases "ch = nextCh w")
      case True
      obtain pre where "arrived_at (queue_of k) w = pre @ queue w (queue_of k)"
        using assms(1) by (auto simp: inv_chans_def inv_queues_def)
      with True new show ?thesis by (simp add: hist list_emb_append2)
    next
      case False
      with assms(1) o show ?thesis by (simp add: inv_chans_def inv_routes_def hist)
    qed
  qed
  show "inv_replies ?w"
    unfolding inv_replies_def hist
  proof (intro allI impI)
    fix ch n assume o: "owner ?w ch = Some (KReply n)"
    show "length (pushed_to ch w) \<le> (if replyCh (conn ?w) n = Some ch then 0 else 1)"
    proof (cases "ch = nextCh w")
      case True
      with new show ?thesis by simp
    next
      case False
      then have "replyCh c n = Some ch \<Longrightarrow> replyCh (conn w) n = Some ch"
        using assms(2) [of "KReply n" ch] by simp
      moreover have "length (pushed_to ch w) \<le> (if replyCh (conn w) n = Some ch then 0 else 1)"
        using assms(1) o False by (simp add: inv_chans_def inv_replies_def)
      ultimately show ?thesis
        by (auto split: if_splits)
    qed
  qed
qed


lemma inv_chans_take:
  assumes "inv_chans w" "buf w ch = m # ms" shows "inv_chans (take_from ch w)"
proof (rule inv_chansI)
  have simps: "conn (take_from ch w) = conn w" "owner (take_from ch w) = owner w" "buf (take_from ch w) = (buf w)(ch := ms)"
      "nextCh (take_from ch w) = nextCh w" "queue (take_from ch w) = queue w"
    using assms(2) by (simp_all add: take_from_def)
  show "inv_tables (take_from ch w)" "inv_queues (take_from ch w)" "inv_routes (take_from ch w)" "inv_replies (take_from ch w)"
    using assms(1) by (simp_all add: inv_chans_def inv_tables_def inv_queues_def inv_routes_def inv_replies_def simps)
  show "inv_fresh (take_from ch w)" "inv_bufs (take_from ch w)"
    using assms by (auto simp: inv_chans_def inv_fresh_def inv_bufs_def simps) (metis append_Cons append_Nil append_assoc)?
qed

section \<open>Tables\<close>

lemma closeUpstream_table: "table (closeUpstream s c) k = Some ch \<Longrightarrow> table c k = Some ch"
  by (cases k) (auto simp: closeUpstream_def split: option.splits if_splits)

lemma closeDownstream_table: "table (closeDownstream s c) k = Some ch \<Longrightarrow> table c k = Some ch"
  by (cases k) (auto simp: closeDownstream_def split: option.splits if_splits)

lemma openUpstream_table:
  "openUpstream q s a new c = Some c' \<Longrightarrow> table c' k = Some ch \<Longrightarrow> table c k = Some ch \<or> ch = new \<and> k = KAck a"
  by (cases k) (auto simp: openUpstream_def Let_def split: QoS.splits if_splits)

lemma finish_call_table:
  assumes "finish_call k msg new c = Some c'" "table c' key = Some ch"
  shows "table c key = Some ch \<or> ch = new \<and> map_option KAck (opened_alias k msg) = Some key"
proof -
  have upd: "table (c\<lparr>downAliases := m\<rparr>) key = table c key" for m
    by (cases key) simp_all
  show ?thesis
    using assms
    by (cases k)
      (auto simp: finish_call_def opened_alias_def openDownstream_def upd split: Message.splits option.splits
        dest: openUpstream_table closeUpstream_table closeDownstream_table)
qed

lemma subscribe_tables:
  "SubscribeDownstreamChunk a q new c = Inr c' \<Longrightarrow> table c' k = Some ch \<Longrightarrow>
    table c k = Some ch \<or> ch = new \<and> k = (if q = QoSUnreliable \<and> hasUnreliable c then KDownUnreliable a else KDown a)"
  "SubscribeDownstreamChunkAckComplete a new c = Inr c' \<Longrightarrow> table c' k = Some ch \<Longrightarrow>
    table c k = Some ch \<or> ch = new \<and> k = KAckComplete a"
  "table (SubscribeDownstreamMeta a src new c) k = Some ch \<Longrightarrow> table c k = Some ch \<or> ch = new \<and> k = KMeta a src"
  by (cases k; auto simp: SubscribeDownstreamChunk_def newDownstreamChunkCh_def newDownstreamChunkUnreliableCh_def
      split: QoS.splits if_splits)
    (cases k; auto simp: SubscribeDownstreamChunkAckComplete_def SubscribeDownstreamMeta_def Let_def
      split: option.splits if_splits)+


section \<open>Invariants of reachable worlds\<close>

lemma inv_chans_handle:
  assumes "inv_chans w" "queue w q = m # ms"
  shows "inv_chans (handle q m (pop_queue q w))"
proof -
  have pop: "inv_chans (pop_queue q w)" and conn: "conn (pop_queue q w) = conn w"
    using inv_chans_pop [OF assms] by (simp_all add: pop_queue_def)
  have ping: "inv_chans (readPingLoop m (pop_queue q w))"
    using pop by (rule inv_chans_cong) (simp_all add: readPingLoop_def split: Message.splits option.splits)
  have deliver: "inv_chans (deliver q m k ch (pop_queue q w))"
    if k: "key_of q m = Some k" and t: "table (conn w) k = Some ch" for k ch
  proof (cases "\<exists>n. k = KReply n")
    case True
    then obtain n where n: "k = KReply n" by blast
    with inv_chans_deliver [OF assms k t, of "(conn w)\<lparr>replyCh := (replyCh (conn w))(n := None)\<rparr>"]
    show ?thesis by (simp add: deliver_def conn)
  next
    case False
    then have "deliver q m k ch (pop_queue q w) = try_push ch m (pop_queue q w)"
      by (cases k) (simp_all add: deliver_def)
    moreover have "(pop_queue q w)\<lparr>conn := conn w\<rparr> = pop_queue q w"
      by (simp add: pop_queue_def)
    ultimately show ?thesis
      using inv_chans_deliver [OF assms k t, of "conn w"] False pop by (simp add: try_push_def)
  qed
  show ?thesis
    using ping pop deliver by (auto simp: handle_eq conn split: option.splits)
qed

lemma inv_chans_return:
  assumes "inv_chans w" shows "inv_chans (return_call n k m w)"
proof (cases "finish_call k m (nextCh w) (conn w)")
  case None
  then show ?thesis
    using inv_chans_cong [OF assms, of "w\<lparr>panicked := True\<rparr>"] by (simp add: return_call_def)
next
  case (Some c)
  let ?w = "w\<lparr>conn := c, nextCh := Suc (nextCh w), owner := (owner w)(nextCh w := map_option KAck (opened_alias k m))\<rparr>"
  have "inv_chans ?w"
    using finish_call_table [OF Some] by (intro inv_chans_fresh [OF assms]) blast
  then have "inv_chans (?w\<lparr>answered := answered w @ [(n, k, m)]\<rparr>)"
    by (rule inv_chans_cong) simp_all
  with Some show ?thesis by (simp add: return_call_def)
qed

lemma inv_chans_subscribe:
  assumes "inv_chans w" "\<And>k' ch. table c k' = Some ch \<Longrightarrow> table (conn w) k' = Some ch \<or> ch = nextCh w \<and> k' = k"
  shows "inv_chans (subscribe k c w)"
  unfolding subscribe_def using assms(2) by (intro inv_chans_fresh [OF assms(1)]) blast

lemma inv_chans_wstep: "wstep w w' \<Longrightarrow> inv_chans w \<Longrightarrow> inv_chans w'"
proof (induction rule: wstep.induct)
  case (Draw w k)
  have "table (c\<lparr>idGenerator := g\<rparr>) key = table c key" for c g key
    by (cases key) simp_all
  then show ?case
    by (intro inv_chans_cong [OF Draw(2)]) (simp_all add: draw_def IDGenerator_Next_def)
next
  case (Register w cs n k cs')
  have "table ((conn w)\<lparr>replyCh := (replyCh (conn w))(n \<mapsto> nextCh w)\<rparr>) key = Some ch \<Longrightarrow>
      table (conn w) key = Some ch \<or> ch = nextCh w \<and> Some (KReply n) = Some key" for key ch
    by (cases key) (auto split: if_splits)
  then have "inv_chans (w\<lparr>conn := (conn w)\<lparr>replyCh := (replyCh (conn w))(n \<mapsto> nextCh w)\<rparr>, nextCh := Suc (nextCh w),
      owner := (owner w)(nextCh w \<mapsto> KReply n)\<rparr>)"
    by (intro inv_chans_fresh [OF Register(3)]) blast
  then show ?case
    by (rule inv_chans_cong) (simp_all add: register_def)
next
  case (Return w cs n k ch cs' m ms)
  have "inv_chans (w\<lparr>calling := cs @ cs'\<rparr>)"
    using Return(4) by (rule inv_chans_cong) simp_all
  then show ?case
    using Return(3) by (intro inv_chans_return inv_chans_take) simp_all
next
  case (Write w cs n k ch cs')
  show ?case
    using Write(3) by (rule inv_chans_cong) simp_all
next
  case (WriteError w cs n k ch cs')
  show ?case
    using WriteError(3) by (rule inv_chans_cong) simp_all
next
  case (GiveUp w cs n k ch cs')
  show ?case
    using GiveUp(3) by (rule inv_chans_cong) simp_all
next
  case (SubscribeChunk w a q c)
  then show ?case
    using subscribe_tables(1) by (intro inv_chans_subscribe) blast+
next
  case (SubscribeAckComplete w a c)
  then show ?case
    using subscribe_tables(2) by (intro inv_chans_subscribe) blast+
next
  case (SubscribeMeta w a src)
  then show ?case
    using subscribe_tables(3) by (intro inv_chans_subscribe) blast+
qed (auto intro: inv_chans_enqueue inv_chans_handle inv_chans_take)

lemma wire_chans: "wire.reachable w \<Longrightarrow> inv_chans w"
proof (induction rule: wire.invariant)
  case (Start s)
  have "table ((wireconn_init u)\<lparr>idGenerator := g\<rparr>) k = None" for u g k
    by (cases k) (simp_all add: wireconn_init_def)
  with Start show ?case
    by (auto simp: wireworld_init_def inv_chans_def inv_chan_defs pushed_to_def taken_from_def arrived_at_def)
qed (rule inv_chans_wstep)

section \<open>Calls and their numbers\<close>

fun call_number :: "call \<Rightarrow> u32" where
  "call_number (Numbered n k) = n" | "call_number (Registered n k ch) = n" | "call_number (Waiting n k ch) = n"

fun call_owns :: "(chan \<Rightarrow> ckey option) \<Rightarrow> call \<Rightarrow> bool" where
  "call_owns own (Numbered n k) = True"
| "call_owns own (Registered n k ch) = (own ch = Some (KReply n))"
| "call_owns own (Waiting n k ch) = (own ch = Some (KReply n))"

definition inv_calls :: "wireworld \<Rightarrow> bool" where
  "inv_calls w \<longleftrightarrow>
     idGenerator (conn w) = 2 * of_nat (length (drawn w)) \<and> drawn w = map (\<lambda>i. 2 * of_nat i) [0..<length (drawn w)] \<and>
     (\<forall>c \<in> set (calling w). call_owns (owner w) c) \<and>
     mset (map call_number (calling w)) + mset (map fst (answered w)) \<subseteq># mset (drawn w) \<and>
     (\<forall>(n, k, m) \<in> set (answered w). GetRequestID m = Some n \<and> m \<in> set (arrived_at msgRequestCh w))"

lemma call_owns_fresh: "own new = None \<Longrightarrow> call_owns own c \<Longrightarrow> call_owns (own(new := x)) c"
  by (cases c) auto

lemma inv_routesD: "inv_chans w \<Longrightarrow> owner w ch = Some k \<Longrightarrow>
    subseq (pushed_to ch w @ for_key k (queue w (queue_of k))) (for_key k (arrived_at (queue_of k) w))"
  by (simp add: inv_chans_def inv_routes_def)

lemma reply_fits:
  assumes "inv_chans w" "owner w ch = Some (KReply n)" "buf w ch = m # ms"
  shows "GetRequestID m = Some n" "m \<in> set (arrived_at msgRequestCh w)"
proof -
  have "m \<in> set (pushed_to ch w)"
  proof -
    have "pushed_to ch w = taken_from ch w @ m # ms"
      using assms(1,3) by (auto simp: inv_chans_def inv_bufs_def dest: spec [of _ ch])
    then show ?thesis by simp
  qed
  moreover have "subseq (pushed_to ch w @ for_key (KReply n) (queue w msgRequestCh)) (for_key (KReply n) (arrived_at msgRequestCh w))"
    using inv_routesD [OF assms(1,2)] by simp
  ultimately have "m \<in> set (for_key (KReply n) (arrived_at msgRequestCh w))"
    by (auto dest: list_emb_set)
  then show "GetRequestID m = Some n" "m \<in> set (arrived_at msgRequestCh w)"
    by (auto simp: for_key_def key_of_def)
qed


lemma handle_keeps:
  "idGenerator (conn (handle q m w)) = idGenerator (conn w)" "drawn (handle q m w) = drawn w"
  "calling (handle q m w) = calling w" "answered (handle q m w) = answered w" "owner (handle q m w) = owner w"
  "arrived (handle q m w) = arrived w" "panicked (handle q m w) = panicked w"
proof (unfold handle_eq)
qed (simp_all add: readPingLoop_def deliver_def try_push_def push_def split: option.split ckey.split Message.split)

lemma finish_call_keeps: "finish_call k m new c = Some c' \<Longrightarrow> idGenerator c' = idGenerator c"
  by (cases k)
    (auto simp: finish_call_def openUpstream_def openDownstream_def closeUpstream_def closeDownstream_def Let_def
      split: Message.splits option.splits QoS.splits)

lemma subscribe_keeps:
  "SubscribeDownstreamChunk a q new c = Inr c' \<Longrightarrow> idGenerator c' = idGenerator c"
  "SubscribeDownstreamChunkAckComplete a new c = Inr c' \<Longrightarrow> idGenerator c' = idGenerator c"
  "idGenerator (SubscribeDownstreamMeta a src new c) = idGenerator c"
  by (auto simp: SubscribeDownstreamChunk_def newDownstreamChunkCh_def newDownstreamChunkUnreliableCh_def
    SubscribeDownstreamChunkAckComplete_def SubscribeDownstreamMeta_def Let_def split: QoS.splits if_splits)

lemma fresh_unowned: "inv_chans w \<Longrightarrow> owner w (nextCh w) = None"
  by (simp add: inv_chans_def inv_fresh_def)

text \<open>A step that changes none of the things the calls depend on, or gives a new channel to someone else.\<close>

lemma inv_calls_cong:
  assumes "inv_calls w" "idGenerator (conn w') = idGenerator (conn w)" "drawn w' = drawn w" "answered w' = answered w"
    "arrived w' = arrived w" "mset (map call_number (calling w')) \<subseteq># mset (map call_number (calling w))"
    "\<forall>c \<in> set (calling w'). call_owns (owner w') c"
  shows "inv_calls w'"
proof -
  have "mset (map call_number (calling w')) + mset (map fst (answered w)) \<subseteq># mset (drawn w)"
    using subset_mset.add_right_mono [OF assms(6)] assms(1) unfolding inv_calls_def by (blast intro: subset_mset.order_trans)
  with assms show ?thesis
    unfolding inv_calls_def arrived_at_def by simp
qed

lemma inv_calls_subscribe:
  assumes "inv_calls w" "inv_chans w" "idGenerator c = idGenerator (conn w)"
  shows "inv_calls (subscribe k c w)"
  using assms fresh_unowned [of w] call_owns_fresh [of "owner w" "nextCh w" _ "Some k"]
  by (intro inv_calls_cong [OF assms(1)]) (auto simp: subscribe_def inv_calls_def)

lemma inv_calls_wstep: "wstep w w' \<Longrightarrow> inv_chans w \<Longrightarrow> inv_calls w \<Longrightarrow> inv_calls w'"
proof (induction rule: wstep.induct)
  case (Arrive w m q)
  then show ?case
    by (auto simp: inv_calls_def enqueue_def arrived_at_def split: if_splits)
next
  case (ArriveUnreliable w m q)
  then show ?case
    by (auto simp: inv_calls_def enqueue_def arrived_at_def split: if_splits)
next
  case (Handle w q m ms)
  then show ?case
    by (intro inv_calls_cong [OF Handle(4)]) (auto simp: handle_keeps pop_queue_def inv_calls_def)
next
  case (Draw w k)
  have g: "idGenerator (conn w) = 2 * of_nat (length (drawn w))" and d: "drawn w = map (\<lambda>i. 2 * of_nat i) [0..<length (drawn w)]"
    and m: "mset (map call_number (calling w)) + mset (map fst (answered w)) \<subseteq># mset (drawn w)"
    using Draw(3) by (simp_all add: inv_calls_def)
  have w': "drawn (draw k w) = drawn w @ [2 * of_nat (length (drawn w))]" "idGenerator (conn (draw k w)) = 2 * of_nat (length (drawn w)) + 2"
    "calling (draw k w) = calling w @ [Numbered (2 * of_nat (length (drawn w))) k]" "owner (draw k w) = owner w"
    "answered (draw k w) = answered w" "arrived (draw k w) = arrived w"
    by (simp_all add: draw_def IDGenerator_Next_def g)
  have "drawn w @ [2 * of_nat (length (drawn w))] = map (\<lambda>i. 2 * of_nat i) [0..<Suc (length (drawn w))]"
    by (subst d) simp
  with Draw(3) m show ?case
    by (simp add: inv_calls_def w' arrived_at_def)
next
  case (Register w cs n k cs')
  then show ?case
    using fresh_unowned [of w] call_owns_fresh [of "owner w" "nextCh w" _ "Some (KReply n)"]
    by (intro inv_calls_cong [OF Register(4)]) (auto simp: register_def inv_calls_def)
next
  case (Write w cs n k ch cs')
  then show ?case
    by (intro inv_calls_cong [OF Write(4)]) (auto simp: inv_calls_def)
next
  case (WriteError w cs n k ch cs')
  then show ?case
    by (intro inv_calls_cong [OF WriteError(4)]) (auto simp: inv_calls_def)
next
  case (GiveUp w cs n k ch cs')
  then show ?case
    by (intro inv_calls_cong [OF GiveUp(4)]) (auto simp: inv_calls_def)
next
  case (Return w cs n k ch cs' m ms)
  have own: "owner w ch = Some (KReply n)" and owns: "\<forall>c \<in> set (cs @ cs'). call_owns (owner w) c"
    using Return(2,5) by (auto simp: inv_calls_def)
  note fits = reply_fits [OF Return(4) own Return(3)]
  show ?case
  proof (cases "finish_call k m (nextCh w) (conn w)")
    case None
    then show ?thesis
      using Return(2,5) owns
      by (intro inv_calls_cong [OF Return(5)]) (auto simp: return_call_def take_from_def)
  next
    case (Some c)
    have "call_owns ((owner w)(nextCh w := x)) c'" if "c' \<in> set (cs @ cs')" for c' x
      using owns that fresh_unowned [OF Return(4)] by (auto intro: call_owns_fresh)
    with Some Return(2,3,5) fits show ?thesis
      by (auto simp: return_call_def take_from_def inv_calls_def finish_call_keeps arrived_at_def)
  qed
next
  case (SubscribeChunk w a q c)
  then show ?case
    by (intro inv_calls_subscribe) (simp_all add: subscribe_keeps)
next
  case (SubscribeAckComplete w a c)
  then show ?case
    by (intro inv_calls_subscribe) (simp_all add: subscribe_keeps)
next
  case (SubscribeMeta w a src)
  then show ?case
    by (intro inv_calls_subscribe) (simp_all add: subscribe_keeps)
next
  case (Receive w ch m ms)
  then show ?case
    by (intro inv_calls_cong [OF Receive(5)]) (auto simp: take_from_def inv_calls_def)
qed

lemma wire_calls: "wire.reachable w \<Longrightarrow> inv_calls w"
proof (induction rule: wire.invariant)
  case (Start s)
  then show ?case
    by (auto simp: wireworld_init_def inv_calls_def wireconn_init_def newRequestIDGeneratorForClient_def IDGenerator_Next_def)
next
  case (Step s s')
  then show ?case
    using inv_calls_wstep wire_chans by blast
qed


section \<open>Numbers and deliveries\<close>

lemma wire_reachable: "wstep\<^sup>*\<^sup>* (wireworld_init u) w \<Longrightarrow> wire.reachable w"
  by (erule wire.reachable_steps) (auto intro: wire.reachable.Start)

lemma drawn_distinct:
  assumes "inv_calls w" "length (drawn w) \<le> 2 ^ 31" shows "distinct (drawn w)"
proof -
  have "inj_on (\<lambda>i. 2 * of_nat i :: u32) {0..<length (drawn w)}"
  proof (rule inj_onI)
    fix i j assume ij: "i \<in> {0..<length (drawn w)}" "j \<in> {0..<length (drawn w)}" and eq: "(2 * of_nat i :: u32) = 2 * of_nat j"
    then have "(of_nat (2 * i) :: u32) = of_nat (2 * j)" by simp
    moreover have "2 * i < 2 ^ 32" "2 * j < 2 ^ 32"
      using ij assms(2) by simp_all
    ultimately show "i = j"
      using of_nat_u32_eq [of "2 * i" "2 * j"] by simp
  qed
  then have "distinct (map (\<lambda>i. 2 * of_nat i :: u32) [0..<length (drawn w)])"
    by (simp add: distinct_map)
  moreover have "map (\<lambda>i. 2 * of_nat i) [0..<length (drawn w)] = drawn w"
    using assms(1) unfolding inv_calls_def by simp
  ultimately show ?thesis
    by (rule back_subst [where P = distinct])
qed

lemma answered_distinct:
  assumes "inv_calls w" "length (drawn w) \<le> 2 ^ 31" shows "distinct (map fst (answered w))"
proof -
  have "mset (map fst (answered w)) \<subseteq># mset (drawn w)"
    using assms(1) unfolding inv_calls_def by (meson mset_subset_eq_add_right subset_mset.order_trans)
  then obtain rest where "mset (drawn w) = mset (map fst (answered w)) + rest"
    by (auto simp: mset_subset_eq_exists_conv)
  moreover obtain xs where "mset xs = rest"
    using ex_mset by blast
  ultimately have "mset (drawn w) = mset (map fst (answered w) @ xs)" by simp
  then have "distinct (map fst (answered w) @ xs)"
    using drawn_distinct [OF assms] mset_eq_imp_distinct_iff by blast
  then show ?thesis by simp
qed

text \<open>Several rounds of the loop over one queue.\<close>

fun run_loop :: "nat \<Rightarrow> qkind \<Rightarrow> wireworld \<Rightarrow> wireworld" where
  "run_loop 0 q w = w"
| "run_loop (Suc j) q w = (case queue w q of [] \<Rightarrow> w | m # ms \<Rightarrow> run_loop j q (handle q m (pop_queue q w)))"

lemma handle_request:
  "queue (handle msgRequestCh m w) = queue w"
  "GetRequestID m = Some n' \<Longrightarrow> n' \<noteq> n \<Longrightarrow> replyCh (conn (handle msgRequestCh m w)) n = replyCh (conn w) n"
  "GetRequestID m = None \<Longrightarrow> handle msgRequestCh m w = w"
  by (auto simp: handle_def readRequestLoop_def push_def split: option.splits)

lemma run_loop_skips:
  assumes "queue w msgRequestCh = pre @ rest" "\<forall>m' \<in> set pre. GetRequestID m' \<noteq> Some n" "replyCh (conn w) n = Some ch"
  shows "\<exists>w'. run_loop (length pre + j) msgRequestCh w = run_loop j msgRequestCh w' \<and> queue w' msgRequestCh = rest \<and>
    replyCh (conn w') n = Some ch \<and> (wire.reachable w \<and> \<not> panicked w \<longrightarrow> wire.reachable w' \<and> \<not> panicked w') \<and>
    calling w' = calling w"
  using assms
proof (induction pre arbitrary: w)
  case (Cons m pre)
  let ?w = "handle msgRequestCh m (pop_queue msgRequestCh w)"
  have q: "queue ?w msgRequestCh = pre @ rest" and c: "calling ?w = calling w" and p: "panicked ?w = panicked w"
    using Cons.prems(1) by (simp_all add: handle_request handle_keeps pop_queue_def)
  have r: "replyCh (conn ?w) n = Some ch"
    using Cons.prems(2,3)
    by (cases "GetRequestID m") (auto simp: handle_request pop_queue_def)
  have s: "wire.reachable w \<Longrightarrow> \<not> panicked w \<Longrightarrow> wire.reachable ?w"
    using Cons.prems(1) by (auto intro: wire.reachable.Step wstep.Handle)
  from Cons.IH [OF q _ r] Cons.prems(1,2) c p s show ?case by auto
qed auto

lemma replies_empty:
  assumes "inv_chans w" "replyCh (conn w) n = Some ch" shows "buf w ch = []"
proof -
  have "owner w ch = Some (KReply n)"
    using assms unfolding inv_chans_def inv_tables_def by (metis table.simps(1))
  then have "pushed_to ch w = []"
    using assms by (fastforce simp: inv_chans_def inv_replies_def)
  then show ?thesis
    using assms(1) unfolding inv_chans_def inv_bufs_def by (metis append_is_Nil_conv)
qed

lemma response_delivered:
  assumes "wire.reachable w" "\<not> panicked w" "replyCh (conn w) n = Some ch"
    "queue w msgRequestCh = pre @ m # post" "\<forall>m' \<in> set pre. GetRequestID m' \<noteq> Some n" "GetRequestID m = Some n"
  shows "buf (run_loop (Suc (length pre)) msgRequestCh w) ch = [m]"
proof -
  obtain w' where w': "run_loop (length pre + 1) msgRequestCh w = run_loop 1 msgRequestCh w'"
      "queue w' msgRequestCh = m # post" "replyCh (conn w') n = Some ch" "wire.reachable w'"
    using run_loop_skips [OF assms(4,5,3), of 1] assms(1,2) by blast
  have "buf w' ch = []"
    using replies_empty [OF wire_chans [OF w'(4)] w'(3)] .
  with w' assms(6) show ?thesis
    by (simp add: handle_def readRequestLoop_def pop_queue_def push_def)
qed


section \<open>Sample runs\<close>

text \<open>A ping is sent, and \<open>m\<close> comes back.\<close>

definition sample_waiting :: "Message \<Rightarrow> wireworld" where
  "sample_waiting m =
     (let w = draw SendPing (wireworld_init False);
          w = register 2 (w\<lparr>calling := [Registered 2 SendPing 0]\<rparr>);
          w = w\<lparr>calling := [Waiting 2 SendPing 0], written := written w @ [request_message 2 SendPing]\<rparr>
      in enqueue msgRequestCh m w)"

definition sample_returned :: "Message \<Rightarrow> wireworld" where
  "sample_returned m =
     return_call 2 SendPing m (take_from 0 ((handle msgRequestCh m (pop_queue msgRequestCh (sample_waiting m)))\<lparr>calling := []\<rparr>))"

definition sample_pong :: Message where
  "sample_pong = M_Pong (Some \<lparr>Pong.RequestID = 2, Pong.ExtensionFields = None\<rparr>)"

definition sample_wrong :: Message where
  "sample_wrong = M_UpstreamCloseResponse (Some
     \<lparr>UpstreamCloseResponse.RequestID = 2, UpstreamCloseResponse.ResultCode = ResultCodeSucceeded,
      UpstreamCloseResponse.ResultString = [], UpstreamCloseResponse.ExtensionFields = None\<rparr>)"

lemmas sample_defs = sample_waiting_def Let_def enqueue_def draw_def register_def wireworld_init_def IDGenerator_Next_def
  wireconn_init_def newRequestIDGeneratorForClient_def

lemma sample_waiting_reached:
  assumes "dispatch m = Some msgRequestCh"
  shows "wstep\<^sup>*\<^sup>* (wireworld_init False) (sample_waiting m)"
proof -
  let ?w0 = "wireworld_init False"
  let ?w1 = "draw SendPing ?w0"
  let ?w2 = "register 2 (?w1\<lparr>calling := [Registered 2 SendPing 0]\<rparr>)"
  let ?w3 = "?w2\<lparr>calling := [Waiting 2 SendPing 0], written := written ?w2 @ [request_message 2 SendPing]\<rparr>"
  have 1: "wstep ?w0 ?w1"
    by (rule wstep.Draw) (simp add: sample_defs)
  have "\<not> panicked ?w1" "calling ?w1 = [] @ Numbered 2 SendPing # []" "nextCh ?w1 = 0"
    by (simp_all add: sample_defs)
  from wstep.Register [OF this(1,2)] this(3) have 2: "wstep ?w1 ?w2"
    unfolding append_Nil by metis
  have "\<not> panicked ?w2" "calling ?w2 = [] @ Registered 2 SendPing 0 # []"
    by (simp_all add: sample_defs)
  from wstep.Write [OF this] have 3: "wstep ?w2 ?w3"
    unfolding append_Nil .
  have "\<not> panicked ?w3" "length (queue ?w3 msgRequestCh) < queue_cap"
    by (simp_all add: sample_defs queue_cap_def)
  with wstep.Arrive [of ?w3 m msgRequestCh] assms have 4: "wstep ?w3 (sample_waiting m)"
    unfolding sample_waiting_def Let_def by blast
  note into = converse_rtranclp_into_rtranclp [of wstep]
  show ?thesis
    by (rule into [OF 1 into [OF 2 into [OF 3 into [OF 4 rtranclp.rtrancl_refl]]]])
qed

lemma sample_waiting_state:
  "queue (sample_waiting m) msgRequestCh = [m]" "replyCh (conn (sample_waiting m)) 2 = Some 0"
  "calling (sample_waiting m) = [Waiting 2 SendPing 0]" "\<not> panicked (sample_waiting m)"
  by (simp_all add: sample_defs)

lemma sample_returned_reached:
  assumes "dispatch m = Some msgRequestCh" "GetRequestID m = Some 2"
  shows "wstep\<^sup>*\<^sup>* (wireworld_init False) (sample_returned m)"
proof -
  let ?w = "handle msgRequestCh m (pop_queue msgRequestCh (sample_waiting m))"
  have "buf (sample_waiting m) 0 = []"
    by (simp add: sample_defs)
  then have "buf ?w 0 = [m]"
    using assms(2) sample_waiting_state [of m] by (simp add: handle_def readRequestLoop_def pop_queue_def push_def)
  moreover have "wstep (sample_waiting m) ?w"
    using sample_waiting_state [of m] by (intro wstep.Handle) auto
  moreover have "calling ?w = [] @ Waiting 2 SendPing 0 # []" "\<not> panicked ?w"
    using sample_waiting_state [of m] by (simp_all add: handle_keeps pop_queue_def)
  ultimately have "wstep ?w (sample_returned m)" "wstep (sample_waiting m) ?w"
    using wstep.Return [of ?w "[]" 2 SendPing 0 "[]" m "[]"] by (simp_all add: sample_returned_def)
  then show ?thesis
    by (intro rtranclp.rtrancl_into_rtrancl [OF rtranclp.rtrancl_into_rtrancl [OF sample_waiting_reached [OF assms(1)]]])
qed

lemma sample_dispatch:
  "dispatch sample_pong = Some msgRequestCh" "GetRequestID sample_pong = Some 2"
  "dispatch sample_wrong = Some msgRequestCh" "GetRequestID sample_wrong = Some 2"
  by (simp_all add: dispatch_def sample_pong_def sample_wrong_def)

lemma sample_returned_simps:
  "answered (sample_returned sample_pong) = [(2, SendPing, sample_pong)]" "length (drawn (sample_returned sample_pong)) = 2"
  "panicked (sample_returned sample_wrong)"
  by (simp_all add: sample_returned_def return_call_def take_from_def handle_keeps pop_queue_def finish_call_def
    sample_pong_def sample_wrong_def sample_defs)

section \<open>Properties\<close>

text \<open>
  C3: Whatever the interleaving of calls, loops and messages, a call only ever returns with a message that the
  peer sent under the number of its own request, and, for the first \<open>2 ^ 31\<close> requests of a connection, no two calls
  return under the same number.
\<close>
theorem responses_match_requests:
  assumes "wstep\<^sup>*\<^sup>* (wireworld_init u) w" and "length (drawn w) \<le> 2 ^ 31"
  shows "(\<forall>(n, k, m) \<in> set (answered w). GetRequestID m = Some n \<and> m \<in> set (arrived_at msgRequestCh w)) \<and>
    distinct (map fst (answered w))"
  using wire_calls [OF wire_reachable [OF assms(1)]] answered_distinct assms(2) by (auto simp: inv_calls_def)

theorem responses_match_requests_witness:
  "sample_pong \<in> set (arrived_at msgRequestCh (sample_returned sample_pong))"
  using responses_match_requests [OF sample_returned_reached [OF sample_dispatch(1,2)]] sample_returned_simps(1,2) by simp

text \<open>
  C4: What the holder of a channel has received from it, followed by what the channel still holds, is a
  subsequence, in order and without repetition, of the messages that came for the key the channel was made for: the
  stream alias and, for metadata, the source node of the subscription. Opening, closing and reusing aliases never
  sends a message of one stream to another stream's channel.
\<close>
theorem subscriber_gets_its_stream:
  assumes "wstep\<^sup>*\<^sup>* (wireworld_init u) w" and "owner w ch = Some k"
  shows "subseq (taken_from ch w @ buf w ch)
    (filter (\<lambda>m. key_of (queue_of k) m = Some k) (arrived_at (queue_of k) w))"
proof -
  have inv: "inv_chans w"
    using assms(1) by (intro wire_chans wire_reachable)
  then have "taken_from ch w @ buf w ch = pushed_to ch w"
    by (simp add: inv_chans_def inv_bufs_def)
  moreover have "subseq (pushed_to ch w) (for_key k (arrived_at (queue_of k) w))"
    using inv_routesD [OF inv assms(2)] subseq_order.trans [OF list_emb_prefix [OF subseq_order.refl]] by blast
  ultimately show ?thesis
    by (simp add: for_key_def)
qed

theorem subscriber_gets_its_stream_witness:
  "subseq (taken_from 0 (sample_returned sample_pong) @ buf (sample_returned sample_pong) 0)
    (filter (\<lambda>m. key_of msgRequestCh m = Some (KReply 2)) (arrived_at msgRequestCh (sample_returned sample_pong)))"
proof -
  have "owner (sample_returned sample_pong) 0 = Some (KReply 2)"
    by (simp add: sample_returned_def return_call_def take_from_def handle_keeps pop_queue_def finish_call_def
      sample_pong_def sample_defs)
       (simp add: handle_def readRequestLoop_def push_def)
  with subscriber_gets_its_stream [OF sample_returned_reached [OF sample_dispatch(1,2)]] show ?thesis by fastforce
qed

text \<open>
  C5: A response reaches its call. When the response \<open>m\<close> to a registered request waits in the queue behind \<open>pre\<close>,
  which holds no other response with its number, the channel of the call is empty, so the send that the code marks
  as not blocking does not block, and after the loop has handled \<open>pre\<close> and \<open>m\<close> the channel holds exactly \<open>m\<close>.
\<close>
theorem response_reaches_its_call:
  assumes "wstep\<^sup>*\<^sup>* (wireworld_init u) w" and "\<not> panicked w" and "replyCh (conn w) n = Some ch"
    and "queue w msgRequestCh = pre @ m # post" and "\<forall>m' \<in> set pre. GetRequestID m' \<noteq> Some n" and "GetRequestID m = Some n"
  shows "buf w ch = [] \<and> buf (run_loop (Suc (length pre)) msgRequestCh w) ch = [m]"
  using response_delivered [OF wire_reachable [OF assms(1)] assms(2-6)] replies_empty [OF wire_chans assms(3)]
    wire_reachable [OF assms(1)] by blast

theorem response_reaches_its_call_witness:
  "buf (run_loop 1 msgRequestCh (sample_waiting sample_pong)) 0 = [sample_pong]"
  using response_reaches_its_call [OF sample_waiting_reached [OF sample_dispatch(1)], where n = 2 and ch = 0 and pre = "[]"]
    sample_waiting_state [of sample_pong] sample_dispatch(2) by simp

text \<open>
  A peer can crash the client: a response of another type under the number of a pending request fails an
  unchecked type assertion.
\<close>
theorem peer_can_crash_client: "\<exists>w. wstep\<^sup>*\<^sup>* (wireworld_init False) w \<and> panicked w"
  using sample_returned_reached [OF sample_dispatch(3,4)] sample_returned_simps(3) by blast

text \<open>
  Opening an upstream whose stream and alias are not in use enters exactly that stream: its acknowledgements
  can be subscribed, its chunks go to the transport its QoS asks for if there is one, every other alias is read as
  before, and closing the stream restores the tables.
\<close>
theorem upstream_open_then_close:
  assumes "upAliases c s = None" and "acks c a = None" and "messageWriters c a = None" and "\<forall>x. q \<noteq> QoSOther x"
  shows "case openUpstream q s a ch c of None \<Rightarrow> False | Some c' \<Rightarrow>
    SubscribeUpstreamChunkAck a c' = Some ch \<and>
    (\<forall>req. SendUpstreamChunk req c' =
       (if UpstreamChunk.StreamIDAlias req = a then Some (if q = QoSUnreliable \<and> hasUnreliable c then Unreliable else Reliable)
        else SendUpstreamChunk req c)) \<and>
    (\<forall>b. b \<noteq> a \<longrightarrow> SubscribeUpstreamChunkAck b c' = SubscribeUpstreamChunkAck b c) \<and>
    closeUpstream s c' = c"
proof -
  have "(upAliases c)(s := None) = upAliases c" "(acks c)(a := None) = acks c" "(messageWriters c)(a := None) = messageWriters c"
    using assms(1-3) by (simp_all add: fun_upd_idem)
  with assms(4) show ?thesis
    by (cases q) (simp_all add: openUpstream_def SubscribeUpstreamChunkAck_def SendUpstreamChunk_def closeUpstream_def)
qed

theorem upstream_open_then_close_witness:
  "(case openUpstream QoSReliable 4 3 7 (wireconn_init True) of None \<Rightarrow> False | Some c' \<Rightarrow>
     SubscribeUpstreamChunkAck 3 c' = Some 7 \<and> closeUpstream 4 c' = wireconn_init True)"
  using upstream_open_then_close [of "wireconn_init True" 4 3 QoSReliable 7]
  by (simp add: wireconn_init_def openUpstream_def split: option.splits)

text \<open>
  When the peer answers the resumption of a downstream with a conflict, the retry that the code makes for this
  case cannot succeed: whatever the peer would answer, it fails because the alias is already subscribed.
\<close>
theorem resume_retry_fails:
  assumes "dps c a = None" and "dpsUnreliable c a = None" and "ackCompletes c a = None" and "\<forall>x. q \<noteq> QoSOther x"
  shows "snd (resume_loop a q srcs sid ch (Some ResultCodeResumeRequestConflict # r # rs) c) =
    ResumeFailed (SubscribeFailed AlreadySubscribed)"
proof -
  have meta: "dps (fold (\<lambda>(i, src). SubscribeDownstreamMeta a src (n i)) xs c) = dps c"
      "dpsUnreliable (fold (\<lambda>(i, src). SubscribeDownstreamMeta a src (n i)) xs c) = dpsUnreliable c"
      "hasUnreliable (fold (\<lambda>(i, src). SubscribeDownstreamMeta a src (n i)) xs c) = hasUnreliable c" for n :: "nat \<Rightarrow> nat" and xs c
    by (induction xs arbitrary: c) (auto simp: SubscribeDownstreamMeta_def Let_def)
  show ?thesis
    using assms
    by (cases q)
      (simp_all add: resume_attempt_def SubscribeDownstreamChunk_def newDownstreamChunkCh_def newDownstreamChunkUnreliableCh_def
        SubscribeDownstreamChunkAckComplete_def openDownstream_def Let_def meta)
qed

theorem resume_retry_fails_witness:
  "snd (resume_loop 1 QoSReliable [] 4 0 [Some ResultCodeResumeRequestConflict, Some ResultCodeSucceeded] (wireconn_init False)) =
    ResumeFailed (SubscribeFailed AlreadySubscribed)"
  by (rule resume_retry_fails) (simp_all add: wireconn_init_def)



end
