(* ===== verification/Conn.thy ===== *)
theory Conn
  imports Prelude
begin

text \<open>
  The life of an \<open>iscp.Conn\<close> (\<open>src/iscp/conn.go\<close>, \<open>src/iscp/state.go\<close>): its status, the background goroutine
  that reconnects, the calls of \<open>Close\<close> and the senders that repeat a request after a reconnection. A session is a
  \<open>wire.ClientConn\<close>; sessions are numbered in the order in which they are dialled.
\<close>

section \<open>Status\<close>

datatype connStatusValue = connStatusConnected | connStatusReconnecting | connStatusClosed

definition newConnState :: connStatusValue where
  "newConnState = connStatusConnected"

definition Swap :: "connStatusValue \<Rightarrow> connStatusValue \<Rightarrow> connStatusValue \<times> connStatusValue" where
  "Swap new cur = (new, cur)"

definition CompareAndSwap :: "connStatusValue \<Rightarrow> connStatusValue \<Rightarrow> connStatusValue \<Rightarrow> connStatusValue \<times> bool" where
  "CompareAndSwap old new cur = (if cur \<noteq> old then (cur, False) else (new, True))"

definition CompareAndSwapNot :: "connStatusValue \<Rightarrow> connStatusValue \<Rightarrow> connStatusValue \<Rightarrow> connStatusValue \<times> bool" where
  "CompareAndSwapNot old new cur = (if cur = old then (cur, False) else (new, True))"

datatype conn_error = ErrConnectionClosed | ErrContext | ErrOther

text \<open>
  One look of \<open>waitUntil\<close> at the status: it returns, or waits for the next change. \<open>hook\<close> is that of
  \<open>WaitUntilOrClosed\<close>, and \<open>done\<close> that the context is done.
\<close>

datatype wait_result = WaitAgain | WaitReturns "conn_error option"

definition waitUntil :: "connStatusValue \<Rightarrow> bool \<Rightarrow> bool \<Rightarrow> connStatusValue \<Rightarrow> wait_result" where
  "waitUntil status hook done cur =
     (if status \<noteq> cur then
        (if hook \<and> cur = connStatusClosed then WaitReturns (Some ErrConnectionClosed)
         else if done then WaitReturns (Some ErrContext)
         else WaitAgain)
      else WaitReturns (if done then Some ErrContext else None))"

section \<open>Goroutines\<close>

text \<open>The background goroutine: \<open>run\<close>, then \<open>reconnect\<close>, and again.\<close>

datatype background =
  Running
| RunFailed  \<comment> \<open>\<open>run\<close> returned an error\<close>
| ClosingOld nat  \<comment> \<open>before \<open>old.Close()\<close>\<close>
| Dialling
| Dialled nat  \<comment> \<open>waits for \<open>wireConnMu\<close>\<close>
| Installing nat  \<comment> \<open>holds \<open>wireConnMu\<close>; the connection was not closed\<close>
| Installed nat  \<comment> \<open>holds \<open>wireConnMu\<close>; before \<open>CompareAndSwap\<close>\<close>
| BackgroundEnded

text \<open>A call of \<open>Close\<close>, after it has set the status.\<close>

datatype closer = CloseWaiting | CloseLocked | CloseReturned

text \<open>A call of \<open>send\<close>.\<close>

datatype sender =
  SendWaiting
| SendReady
| SendUsing nat  \<comment> \<open>runs \<open>f\<close> on this session\<close>
| SendFailed conn_error
| SendReturned "conn_error option"

text \<open>\<open>failed\<close> are the sessions that ended on their own, through a lost transport or a missed pong.\<close>

record connworld =
  status :: connStatusValue
  wireConn :: nat
  dialled :: nat
  closed :: "nat \<Rightarrow> bool"
  failed :: "nat \<Rightarrow> bool"
  background :: background
  closers :: "closer list"
  senders :: "sender list"

definition connworld_init :: connworld where
  "connworld_init =
     \<lparr>status = newConnState, wireConn = 0, dialled = 1, closed = (\<lambda>s. False), failed = (\<lambda>s. False),
      background = Running, closers = [], senders = []\<rparr>"

text \<open>Nobody holds \<open>wireConnMu\<close> over more than one step.\<close>

definition wireConnMu_free :: "connworld \<Rightarrow> bool" where
  "wireConnMu_free w =
     (CloseLocked \<notin> set (closers w) \<and> (case background w of Installing n \<Rightarrow> False | Installed n \<Rightarrow> False | _ \<Rightarrow> True))"

definition close_session :: "nat \<Rightarrow> connworld \<Rightarrow> connworld" where
  "close_session s w = w\<lparr>closed := (closed w)(s := True)\<rparr>"

text \<open>The first critical section of \<open>reconnect\<close>.\<close>

definition reconnect_begin :: "connworld \<Rightarrow> connworld" where
  "reconnect_begin w =
     (case CompareAndSwapNot connStatusClosed connStatusReconnecting (status w) of
        (st, False) \<Rightarrow> w\<lparr>background := BackgroundEnded\<rparr>
      | (st, True) \<Rightarrow> w\<lparr>status := st, background := ClosingOld (wireConn w)\<rparr>)"

definition reconnect_dialled :: "connworld \<Rightarrow> connworld" where
  "reconnect_dialled w = w\<lparr>dialled := Suc (dialled w), background := Dialled (dialled w)\<rparr>"

text \<open>The second: the check, the assignment, and the change of status.\<close>

definition reconnect_check :: "nat \<Rightarrow> connworld \<Rightarrow> connworld" where
  "reconnect_check n w =
     (if status w = connStatusClosed then (close_session n w)\<lparr>background := BackgroundEnded\<rparr>
      else w\<lparr>background := Installing n\<rparr>)"

definition reconnect_assign :: "nat \<Rightarrow> connworld \<Rightarrow> connworld" where
  "reconnect_assign n w = w\<lparr>wireConn := n, background := Installed n\<rparr>"

definition reconnect_end :: "connworld \<Rightarrow> connworld" where
  "reconnect_end w =
     (case CompareAndSwap connStatusReconnecting connStatusConnected (status w) of
        (st, True) \<Rightarrow> w\<lparr>status := st, background := Running\<rparr>
      | (st, False) \<Rightarrow> w\<lparr>background := BackgroundEnded\<rparr>)"

definition Close :: "connworld \<Rightarrow> connworld" where
  "Close w = w\<lparr>status := fst (Swap connStatusClosed (status w)), closers := closers w @ [CloseWaiting]\<rparr>"

text \<open>What \<open>send\<close> does when \<open>f\<close> has failed.\<close>

definition send_failed :: "nat \<Rightarrow> conn_error \<Rightarrow> connworld \<Rightarrow> connworld" where
  "send_failed i e w =
     (if e \<noteq> ErrConnectionClosed then w\<lparr>senders := (senders w)[i := SendReturned (Some e)]\<rparr>
      else case CompareAndSwapNot connStatusClosed connStatusReconnecting (status w) of
        (st, True) \<Rightarrow> w\<lparr>status := st, senders := (senders w)[i := SendWaiting]\<rparr>
      | (st, False) \<Rightarrow> w\<lparr>senders := (senders w)[i := SendReturned (Some ErrConnectionClosed)]\<rparr>)"

section \<open>Steps\<close>

inductive cstep :: "connworld \<Rightarrow> connworld \<Rightarrow> bool" where
  Fail: "s < dialled w \<Longrightarrow> cstep w ((close_session s w)\<lparr>failed := (failed w)(s := True)\<rparr>)"
| RunFails: "background w = Running \<Longrightarrow> status w \<noteq> connStatusClosed \<Longrightarrow>
    status w = connStatusReconnecting \<or> closed w (wireConn w) \<Longrightarrow> cstep w (w\<lparr>background := RunFailed\<rparr>)"
| RunReturns: "background w = Running \<Longrightarrow> status w = connStatusClosed \<Longrightarrow> cstep w (w\<lparr>background := BackgroundEnded\<rparr>)"
| ReconnectBegin: "background w = RunFailed \<Longrightarrow> wireConnMu_free w \<Longrightarrow> cstep w (reconnect_begin w)"
| CloseOld: "background w = ClosingOld s \<Longrightarrow> cstep w ((close_session s w)\<lparr>background := Dialling\<rparr>)"
| DialGivesUp: "background w = Dialling \<Longrightarrow> status w = connStatusClosed \<Longrightarrow> cstep w (w\<lparr>background := BackgroundEnded\<rparr>)"
| DialSucceeds: "background w = Dialling \<Longrightarrow> cstep w (reconnect_dialled w)"
| Check: "background w = Dialled n \<Longrightarrow> wireConnMu_free w \<Longrightarrow> cstep w (reconnect_check n w)"
| Assign: "background w = Installing n \<Longrightarrow> cstep w (reconnect_assign n w)"
| End: "background w = Installed n \<Longrightarrow> cstep w (reconnect_end w)"
| Close: "cstep w (Close w)"
| CloseLock: "i < length (closers w) \<Longrightarrow> closers w ! i = CloseWaiting \<Longrightarrow> wireConnMu_free w \<Longrightarrow>
    cstep w (w\<lparr>closers := (closers w)[i := CloseLocked]\<rparr>)"
| CloseReturn: "i < length (closers w) \<Longrightarrow> closers w ! i = CloseLocked \<Longrightarrow>
    cstep w ((close_session (wireConn w) w)\<lparr>closers := (closers w)[i := CloseReturned]\<rparr>)"
| Send: "cstep w (w\<lparr>senders := senders w @ [SendWaiting]\<rparr>)"
| SendWait: "i < length (senders w) \<Longrightarrow> senders w ! i = SendWaiting \<Longrightarrow>
    waitUntil connStatusConnected True done (status w) = WaitReturns r \<Longrightarrow>
    cstep w (w\<lparr>senders := (senders w)[i := (case r of None \<Rightarrow> SendReady | Some e \<Rightarrow> SendReturned (Some e))]\<rparr>)"
| SendSnapshot: "i < length (senders w) \<Longrightarrow> senders w ! i = SendReady \<Longrightarrow> wireConnMu_free w \<Longrightarrow>
    cstep w (w\<lparr>senders := (senders w)[i := SendUsing (wireConn w)]\<rparr>)"
| SendError: "i < length (senders w) \<Longrightarrow> senders w ! i = SendUsing s \<Longrightarrow> e = ErrConnectionClosed \<Longrightarrow> closed w s \<Longrightarrow>
    cstep w (w\<lparr>senders := (senders w)[i := SendFailed e]\<rparr>)"
| SendOtherError: "i < length (senders w) \<Longrightarrow> senders w ! i = SendUsing s \<Longrightarrow> e \<noteq> ErrConnectionClosed \<Longrightarrow>
    cstep w (w\<lparr>senders := (senders w)[i := SendFailed e]\<rparr>)"
| SendSucceeds: "i < length (senders w) \<Longrightarrow> senders w ! i = SendUsing s \<Longrightarrow>
    cstep w (w\<lparr>senders := (senders w)[i := SendReturned None]\<rparr>)"
| SendHandle: "i < length (senders w) \<Longrightarrow> senders w ! i = SendFailed e \<Longrightarrow> cstep w (send_failed i e w)"

end
