(* ===== verification/Conn_Properties.thy ===== *)
theory Conn_Properties
  imports Conn Step_Systems
begin

text \<open>What the connection guarantees about its sessions, whatever its goroutines do and in whatever order.\<close>

interpretation conn: step_system "\<lambda>w. w = connworld_init" cstep .

section \<open>Invariants\<close>

text \<open>The sessions that may be open, by the state of the background goroutine.\<close>

fun may_be_open :: "nat \<Rightarrow> background \<Rightarrow> nat list" where
  "may_be_open cur Running = [cur]"
| "may_be_open cur RunFailed = [cur]"
| "may_be_open cur (ClosingOld s) = [cur]"
| "may_be_open cur Dialling = []"
| "may_be_open cur (Dialled n) = [n]"
| "may_be_open cur (Installing n) = [n]"
| "may_be_open cur (Installed n) = [n]"
| "may_be_open cur BackgroundEnded = [cur]"

definition inv_known :: "connworld \<Rightarrow> bool" where
  "inv_known w \<longleftrightarrow>
     wireConn w < dialled w \<and> (\<forall>s. closed w s \<longrightarrow> s < dialled w) \<and>
     (\<forall>s. background w = ClosingOld s \<longrightarrow> s = wireConn w) \<and>
     (\<forall>n. background w = Dialled n \<or> background w = Installing n \<longrightarrow> n < dialled w) \<and>
     (\<forall>n. background w = Installed n \<longrightarrow> n = wireConn w)"

definition inv_open :: "connworld \<Rightarrow> bool" where
  "inv_open w \<longleftrightarrow> (\<forall>s. s < dialled w \<and> \<not> closed w s \<longrightarrow> s \<in> set (may_be_open (wireConn w) (background w)))"

definition inv_sessions :: "connworld \<Rightarrow> bool" where
  "inv_sessions w \<longleftrightarrow> inv_known w \<and> inv_open w"

definition inv_closers :: "connworld \<Rightarrow> bool" where
  "inv_closers w \<longleftrightarrow>
     (closers w \<noteq> [] \<longrightarrow> status w = connStatusClosed) \<and>
     (CloseReturned \<in> set (closers w) \<longrightarrow> closed w (wireConn w)) \<and>
     ((\<exists>n. background w = Installing n \<or> background w = Installed n) \<longrightarrow> set (closers w) \<subseteq> {CloseWaiting})"

lemmas connstep_defs = close_session_def reconnect_begin_def reconnect_dialled_def reconnect_check_def reconnect_assign_def
  reconnect_end_def Close_def send_failed_def Swap_def CompareAndSwap_def CompareAndSwapNot_def

lemma inv_known_cstep: "cstep w w' \<Longrightarrow> inv_known w \<Longrightarrow> inv_known w'"
  by (induction rule: cstep.induct; simp add: inv_known_def connstep_defs split: if_splits; fastforce?)

lemma inv_open_cstep: "cstep w w' \<Longrightarrow> inv_known w \<Longrightarrow> inv_open w \<Longrightarrow> inv_open w'"
  by (induction rule: cstep.induct; simp add: inv_known_def inv_open_def connstep_defs less_Suc_eq split: if_splits; fastforce?)

lemma inv_sessions_cstep: "cstep w w' \<Longrightarrow> inv_sessions w \<Longrightarrow> inv_sessions w'"
  using inv_known_cstep inv_open_cstep by (simp add: inv_sessions_def)

lemma inv_closers_keep:
  assumes "inv_closers w" "closers w' = closers w" "status w = connStatusClosed \<Longrightarrow> status w' = connStatusClosed"
    "wireConn w' = wireConn w" "\<And>s. closed w s \<Longrightarrow> closed w' s"
    "\<And>n. background w' = Installing n \<or> background w' = Installed n \<Longrightarrow> background w' = background w \<or> closers w = []"
  shows "inv_closers w'"
proof -
  have "set (closers w) \<subseteq> {CloseWaiting}" if "background w' = Installing n \<or> background w' = Installed n" for n
    using assms(1,6) [unfolded inv_closers_def] that by (metis empty_subsetI list.set(1))
  then show ?thesis
    using assms(1-5) unfolding inv_closers_def by auto
qed

lemma inv_closers_cstep: "cstep w w' \<Longrightarrow> inv_closers w \<Longrightarrow> inv_closers w'"
proof (induction rule: cstep.induct)
  case (Assign w n)
  then have "CloseReturned \<notin> set (closers w)"
    by (auto simp: inv_closers_def)
  with Assign show ?case
    by (auto simp: inv_closers_def reconnect_assign_def)
next
  case (Check w n)
  then have "status w \<noteq> connStatusClosed \<Longrightarrow> closers w = []"
    by (auto simp: inv_closers_def)
  with Check show ?case
    by (intro inv_closers_keep [OF Check(3)]) (auto simp: connstep_defs split: if_splits)
next
  case (Close w)
  then show ?case
    by (auto simp: inv_closers_def connstep_defs)
next
  case (CloseLock i w)
  have "CloseReturned \<in> set ((closers w)[i := CloseLocked]) \<Longrightarrow> CloseReturned \<in> set (closers w)"
    using set_update_subset_insert [of "closers w" i CloseLocked] by auto
  moreover have "closers w \<noteq> []"
    using CloseLock(1) by auto
  ultimately show ?case
    using CloseLock(3,4) by (auto simp: inv_closers_def wireConnMu_free_def)
next
  case (CloseReturn i w)
  then have "CloseLocked \<in> set (closers w)" "closers w \<noteq> []"
    by (auto simp: in_set_conv_nth)
  with CloseReturn(3) show ?case
    by (auto simp: inv_closers_def connstep_defs)
qed (rule inv_closers_keep; auto simp: connstep_defs split: if_splits)+

lemma conn_sessions: "conn.reachable w \<Longrightarrow> inv_sessions w"
proof (induction rule: conn.invariant)
  case (Start s)
  then show ?case by (simp add: inv_sessions_def inv_known_def inv_open_def connworld_init_def)
qed (rule inv_sessions_cstep)

lemma conn_closers: "conn.reachable w \<Longrightarrow> inv_closers w"
proof (induction rule: conn.invariant)
  case (Start s)
  then show ?case by (simp add: inv_closers_def connworld_init_def)
qed (rule inv_closers_cstep)

lemma conn_reachable: "cstep\<^sup>*\<^sup>* connworld_init w \<Longrightarrow> conn.reachable w"
  by (erule conn.reachable_steps) (rule conn.reachable.Start [OF refl])

lemma one_open:
  assumes "inv_sessions w" "s < dialled w" "t < dialled w" "\<not> closed w s" "\<not> closed w t" shows "s = t"
proof -
  have "s \<in> set (may_be_open (wireConn w) (background w))" "t \<in> set (may_be_open (wireConn w) (background w))"
    using assms by (auto simp: inv_sessions_def inv_open_def)
  then show ?thesis
    by (cases "background w") auto
qed

section \<open>The contract\<close>

text \<open>
  The connection as its users see it: a status, and the one session that is open, if there is one.
\<close>

type_synonym connview = "connStatusValue \<times> nat option"

inductive cview_step :: "connview \<Rightarrow> connview \<Rightarrow> bool" where
  Lost: "cview_step (st, Some s) (st, None)"
| Dial: "cview_step (st, None) (st, Some n)"
| Reconnecting: "st \<noteq> connStatusClosed \<Longrightarrow> cview_step (st, x) (connStatusReconnecting, x)"
| Reconnected: "cview_step (connStatusReconnecting, x) (connStatusConnected, x)"
| Closed: "cview_step (st, x) (connStatusClosed, x)"

definition open_session :: "connworld \<Rightarrow> nat option" where
  "open_session w = List.find (\<lambda>s. \<not> closed w s) [0..<dialled w]"

definition connview :: "connworld \<Rightarrow> connview" where
  "connview w = (status w, open_session w)"

lemma open_session_None: "open_session w = None \<longleftrightarrow> (\<forall>s < dialled w. closed w s)"
  by (auto simp: open_session_def find_None_iff)

lemma open_session_Some:
  assumes "inv_sessions w" shows "open_session w = Some s \<longleftrightarrow> s < dialled w \<and> \<not> closed w s"
proof
  assume "open_session w = Some s"
  then show "s < dialled w \<and> \<not> closed w s"
    unfolding open_session_def by (auto dest!: find_Some_iff [THEN iffD1])
next
  assume s: "s < dialled w \<and> \<not> closed w s"
  then obtain t where t: "open_session w = Some t"
    using open_session_None [of w] by (cases "open_session w") auto
  then have "t < dialled w \<and> \<not> closed w t"
    unfolding open_session_def by (auto dest!: find_Some_iff [THEN iffD1])
  with s t one_open [OF assms] show "open_session w = Some s" by blast
qed

lemma open_session_cong:
  "dialled w' = dialled w \<Longrightarrow> closed w' = closed w \<Longrightarrow> open_session w' = open_session w"
  by (simp add: open_session_def)

lemma open_session_close:
  assumes "inv_sessions w" "dialled w' = dialled w" "closed w' = (closed w)(s := True)"
  shows "open_session w' = (if open_session w = Some s then None else open_session w)"
proof (cases "open_session w")
  case None
  with assms open_session_None [of w] open_session_None [of w'] show ?thesis by auto
next
  case (Some t)
  then have t: "t < dialled w \<and> \<not> closed w t" using open_session_Some [OF assms(1)] by blast
  have old: "u = t" if "u < dialled w" "\<not> closed w u" for u
    using one_open [OF assms(1)] t that by blast
  show ?thesis
  proof (cases "s = t")
    case True
    then have "open_session w' = None"
      unfolding open_session_None using assms(2,3) old by auto
    with True Some show ?thesis by simp
  next
    case False
    then obtain u where u: "open_session w' = Some u"
      using t assms(2,3) open_session_None [of w'] by (cases "open_session w'") auto
    then have "u < dialled w'" "\<not> closed w' u"
      unfolding open_session_def by (auto dest!: find_Some_iff [THEN iffD1])
    with old assms(2,3) have "u = t" by (auto split: if_splits)
    with u Some False show ?thesis by simp
  qed
qed

lemma cview_close:
  assumes "inv_sessions w" "dialled w' = dialled w" "closed w' = (closed w)(s := True)" "status w' = status w"
  shows "cview_step (connview w) (connview w') \<or> connview w' = connview w"
proof (cases "open_session w = Some s")
  case True
  then have "open_session w' = None"
    using open_session_close [OF assms(1-3)] by simp
  with True assms(4) show ?thesis
    by (simp add: connview_def cview_step.Lost)
next
  case False
  then have "open_session w' = open_session w"
    using open_session_close [OF assms(1-3)] by simp
  with assms(4) show ?thesis
    by (simp add: connview_def)
qed

lemma cview_same: "dialled w' = dialled w \<Longrightarrow> closed w' = closed w \<Longrightarrow> status w' = status w \<Longrightarrow> connview w' = connview w"
  using open_session_cong [of w' w] by (simp add: connview_def)

lemma cview_dial:
  assumes "inv_sessions w" "background w = Dialling"
  shows "cview_step (connview w) (connview (reconnect_dialled w))"
proof -
  have "\<forall>s < dialled w. closed w s"
    using assms by (auto simp: inv_sessions_def inv_open_def)
  then have none: "open_session w = None"
    by (simp add: open_session_None)
  have new: "inv_sessions (reconnect_dialled w)"
    using assms by (intro inv_sessions_cstep [OF cstep.DialSucceeds])
  have "dialled w < dialled (reconnect_dialled w) \<and> \<not> closed (reconnect_dialled w) (dialled w)"
    using assms(1) by (auto simp: reconnect_dialled_def inv_sessions_def inv_known_def)
  with new have "open_session (reconnect_dialled w) = Some (dialled w)"
    by (rule open_session_Some [THEN iffD2])
  with none show ?thesis
    by (simp add: connview_def cview_step.Dial) (simp add: reconnect_dialled_def cview_step.Dial)
qed

text \<open>Steps that change nothing but the status.\<close>

lemma cview_status:
  assumes "dialled w' = dialled w" "closed w' = closed w" "cview_step (status w, open_session w) (status w', open_session w)"
  shows "cview_step (connview w) (connview w')"
  using assms(3) open_session_cong [OF assms(1,2)] by (simp add: connview_def)

lemma cview_cstep: "cstep w w' \<Longrightarrow> inv_sessions w \<Longrightarrow> cview_step (connview w) (connview w') \<or> connview w' = connview w"
proof (induction rule: cstep.induct)
  case (Fail s w)
  then show ?case by (intro cview_close [of _ _ s]) (simp_all add: connstep_defs)
next
  case (CloseOld w s)
  then show ?case by (intro cview_close [of _ _ s]) (simp_all add: connstep_defs)
next
  case (CloseReturn i w)
  then show ?case by (intro cview_close [of _ _ "wireConn w"]) (simp_all add: connstep_defs)
next
  case (Check w n)
  show ?case
  proof (cases "status w = connStatusClosed")
    case True
    with Check show ?thesis by (intro cview_close [of _ _ n]) (simp_all add: connstep_defs)
  qed (intro disjI2 cview_same; simp add: connstep_defs)
next
  case (DialSucceeds w)
  then show ?case using cview_dial by blast
next
  case (ReconnectBegin w)
  show ?case
  proof (cases "status w = connStatusClosed")
    case False
    then show ?thesis
      by (intro disjI1 cview_status) (simp_all add: connstep_defs cview_step.Reconnecting)
  qed (intro disjI2 cview_same; simp add: connstep_defs)
next
  case (End w n)
  show ?case
  proof (cases "status w = connStatusReconnecting")
    case True
    then show ?thesis
      by (intro disjI1 cview_status) (simp_all add: connstep_defs cview_step.Reconnected)
  qed (intro disjI2 cview_same; simp add: connstep_defs)
next
  case (Close w)
  show ?case
    by (intro disjI1 cview_status) (simp_all add: connstep_defs cview_step.Closed)
next
  case (SendHandle i w e)
  show ?case
  proof (cases "e = ErrConnectionClosed \<and> status w \<noteq> connStatusClosed")
    case True
    then show ?thesis
      by (intro disjI1 cview_status) (simp_all add: connstep_defs cview_step.Reconnecting)
  qed (intro disjI2 cview_same; auto simp: connstep_defs)
qed (intro disjI2 cview_same; simp add: connstep_defs)+

lemma connview_init: "connview connworld_init = (connStatusConnected, Some 0)"
  by (simp add: connview_def open_session_def connworld_init_def newConnState_def)

interpretation conn_view: step_refinement "\<lambda>v. v = (connStatusConnected, Some 0)" cview_step
  "\<lambda>w. w = connworld_init" cstep connview
  by unfold_locales (auto simp: connview_init dest: cview_cstep conn_sessions)


section \<open>After a close\<close>

text \<open>How far the background goroutine is from its end once the connection is closed.\<close>

fun steps_left :: "background \<Rightarrow> nat" where
  "steps_left Running = 5"
| "steps_left RunFailed = 4"
| "steps_left (ClosingOld s) = 4"
| "steps_left Dialling = 3"
| "steps_left (Dialled n) = 2"
| "steps_left (Installing n) = 2"
| "steps_left (Installed n) = 1"
| "steps_left BackgroundEnded = 0"

lemma closed_steps: "cstep w w' \<Longrightarrow> status w = connStatusClosed \<Longrightarrow>
    status w' = connStatusClosed \<and> (background w' = background w \<or> steps_left (background w') < steps_left (background w))"
  by (induction rule: cstep.induct) (auto simp: connstep_defs split: if_splits)

lemma progressI: "cstep w w' \<Longrightarrow> steps_left (background w') < steps_left (background w) \<Longrightarrow>
    \<exists>w'. cstep w w' \<and> steps_left (background w') < steps_left (background w)"
  by blast

lemma closed_progress:
  assumes "status w = connStatusClosed" "background w \<noteq> BackgroundEnded" "CloseLocked \<notin> set (closers w)"
  shows "\<exists>w'. cstep w w' \<and> steps_left (background w') < steps_left (background w)"
proof (cases "background w")
  case Running
  then show ?thesis
    by (intro progressI [OF cstep.RunReturns [OF Running assms(1)]]) simp
next
  case RunFailed
  then have "wireConnMu_free w" using assms(3) by (simp add: wireConnMu_free_def)
  then show ?thesis
    using RunFailed assms(1) by (intro progressI [OF cstep.ReconnectBegin [OF RunFailed]]) (simp_all add: connstep_defs)
next
  case (ClosingOld s)
  then show ?thesis
    by (intro progressI [OF cstep.CloseOld [OF ClosingOld]]) simp
next
  case Dialling
  then show ?thesis
    by (intro progressI [OF cstep.DialGivesUp [OF Dialling assms(1)]]) simp
next
  case (Dialled n)
  then have "wireConnMu_free w" using assms(3) by (simp add: wireConnMu_free_def)
  then show ?thesis
    using Dialled assms(1) by (intro progressI [OF cstep.Check [OF Dialled]]) (simp_all add: connstep_defs)
next
  case (Installing n)
  then show ?thesis
    by (intro progressI [OF cstep.Assign [OF Installing]]) (simp add: connstep_defs)
next
  case (Installed n)
  then show ?thesis
    using assms(1) by (intro progressI [OF cstep.End [OF Installed]]) (simp add: connstep_defs)
qed (use assms in auto)


section \<open>Sample runs\<close>

text \<open>
  The first session fails while a sender uses it; the background goroutine reconnects; only then the sender learns
  of the error.
\<close>

definition sample_reconnected :: connworld where
  "sample_reconnected =
     \<lparr>status = connStatusConnected, wireConn = 1, dialled = 2, closed = (\<lambda>s. False)(0 := True), failed = (\<lambda>s. False)(0 := True),
      background = Running, closers = [], senders = [SendFailed ErrConnectionClosed]\<rparr>"

lemma reached_step: "cstep\<^sup>*\<^sup>* w v \<Longrightarrow> cstep v v' \<Longrightarrow> v' = v'' \<Longrightarrow> cstep\<^sup>*\<^sup>* w v''"
  by auto

lemmas sample_conn_simps = sample_reconnected_def connworld_init_def newConnState_def waitUntil_def wireConnMu_free_def

lemma sample_reconnected_reached: "cstep\<^sup>*\<^sup>* connworld_init sample_reconnected"
proof -
  let ?w = "\<lambda>st wc d cl bg se. \<lparr>status = st, wireConn = wc, dialled = d, closed = cl, failed = cl, background = bg,
    closers = [], senders = se\<rparr>"
  let ?n = "\<lambda>s::nat. False" and ?c = "(\<lambda>s::nat. False)(0 := True)"
  have "cstep\<^sup>*\<^sup>* connworld_init (?w connStatusConnected 0 1 ?n Running [SendWaiting])"
    by (rule reached_step [OF rtranclp.rtrancl_refl cstep.Send]) (simp add: sample_conn_simps)
  then have "cstep\<^sup>*\<^sup>* connworld_init (?w connStatusConnected 0 1 ?n Running [SendReady])"
    by (rule reached_step [OF _ cstep.SendWait [of 0 _ False None]]) (simp_all add: sample_conn_simps)
  then have "cstep\<^sup>*\<^sup>* connworld_init (?w connStatusConnected 0 1 ?n Running [SendUsing 0])"
    by (rule reached_step [OF _ cstep.SendSnapshot [of 0]]) (simp_all add: sample_conn_simps)
  then have "cstep\<^sup>*\<^sup>* connworld_init (?w connStatusConnected 0 1 ?c Running [SendUsing 0])"
    by (rule reached_step [OF _ cstep.Fail [of 0]]) (simp_all add: sample_conn_simps connstep_defs)
  then have "cstep\<^sup>*\<^sup>* connworld_init (?w connStatusConnected 0 1 ?c RunFailed [SendUsing 0])"
    by (rule reached_step [OF _ cstep.RunFails]) (simp_all add: sample_conn_simps)
  then have "cstep\<^sup>*\<^sup>* connworld_init (?w connStatusReconnecting 0 1 ?c (ClosingOld 0) [SendUsing 0])"
    by (rule reached_step [OF _ cstep.ReconnectBegin]) (simp_all add: sample_conn_simps connstep_defs)
  then have "cstep\<^sup>*\<^sup>* connworld_init (?w connStatusReconnecting 0 1 ?c Dialling [SendUsing 0])"
    by (rule reached_step [OF _ cstep.CloseOld [of _ 0]]) (simp_all add: sample_conn_simps connstep_defs)
  then have "cstep\<^sup>*\<^sup>* connworld_init (?w connStatusReconnecting 0 2 ?c (Dialled 1) [SendUsing 0])"
    by (rule reached_step [OF _ cstep.DialSucceeds]) (simp_all add: sample_conn_simps connstep_defs)
  then have "cstep\<^sup>*\<^sup>* connworld_init (?w connStatusReconnecting 0 2 ?c (Installing 1) [SendUsing 0])"
    by (rule reached_step [OF _ cstep.Check [of _ 1]]) (simp_all add: sample_conn_simps connstep_defs)
  then have "cstep\<^sup>*\<^sup>* connworld_init (?w connStatusReconnecting 1 2 ?c (Installed 1) [SendUsing 0])"
    by (rule reached_step [OF _ cstep.Assign [of _ 1]]) (simp_all add: sample_conn_simps connstep_defs)
  then have "cstep\<^sup>*\<^sup>* connworld_init (?w connStatusConnected 1 2 ?c Running [SendUsing 0])"
    by (rule reached_step [OF _ cstep.End [of _ 1]]) (simp_all add: sample_conn_simps connstep_defs)
  then show ?thesis
    by (rule reached_step [OF _ cstep.SendError [of 0 _ 0 ErrConnectionClosed]]) (simp_all add: sample_conn_simps)
qed

text \<open>A connection that is closed at once.\<close>

definition sample_closed :: connworld where
  "sample_closed = connworld_init\<lparr>status := connStatusClosed, closed := (\<lambda>s. False)(0 := True), closers := [CloseReturned]\<rparr>"

lemma sample_closed_reached: "cstep\<^sup>*\<^sup>* connworld_init sample_closed"
proof -
  have "cstep\<^sup>*\<^sup>* connworld_init (connworld_init\<lparr>status := connStatusClosed, closers := [CloseWaiting]\<rparr>)"
    by (rule reached_step [OF rtranclp.rtrancl_refl cstep.Close]) (simp add: sample_conn_simps connstep_defs)
  then have "cstep\<^sup>*\<^sup>* connworld_init (connworld_init\<lparr>status := connStatusClosed, closers := [CloseLocked]\<rparr>)"
    by (rule reached_step [OF _ cstep.CloseLock [of 0]]) (simp_all add: sample_conn_simps)
  then show ?thesis
    by (rule reached_step [OF _ cstep.CloseReturn [of 0]]) (simp_all add: sample_conn_simps sample_closed_def connstep_defs)
qed

section \<open>Properties\<close>



text \<open>
  C8: No session is leaked and no two are open. At any time at most one session is open; and once a call of \<open>Close\<close>
  has returned, every session is closed, except possibly one that the background goroutine has just dialled.
\<close>
theorem close_leaks_no_session:
  assumes "cstep\<^sup>*\<^sup>* connworld_init w"
  shows "(\<forall>s t. s < dialled w \<and> \<not> closed w s \<and> t < dialled w \<and> \<not> closed w t \<longrightarrow> s = t) \<and>
    (CloseReturned \<in> set (closers w) \<longrightarrow> (\<forall>s < dialled w. closed w s \<or> background w = Dialled s))"
proof
  note reach = conn_reachable [OF assms]
  have inv: "inv_sessions w" "inv_closers w"
    using conn_sessions [OF reach] conn_closers [OF reach] .
  show "\<forall>s t. s < dialled w \<and> \<not> closed w s \<and> t < dialled w \<and> \<not> closed w t \<longrightarrow> s = t"
    using one_open [OF inv(1)] by blast
  show "CloseReturned \<in> set (closers w) \<longrightarrow> (\<forall>s < dialled w. closed w s \<or> background w = Dialled s)"
  proof (intro impI allI)
    fix s assume c: "CloseReturned \<in> set (closers w)" and "s < dialled w"
    then have "\<not> closed w s \<Longrightarrow> s \<in> set (may_be_open (wireConn w) (background w))"
      using inv(1) by (auto simp: inv_sessions_def inv_open_def)
    moreover have "closed w (wireConn w)"
      using inv(2) c by (auto simp: inv_closers_def)
    moreover have "background w \<noteq> Installing n" "background w \<noteq> Installed n" for n
      using inv(2) c by (auto simp: inv_closers_def)
    ultimately show "closed w s \<or> background w = Dialled s"
      by (cases "background w") auto
  qed
qed

theorem close_leaks_no_session_witness: "closed sample_closed 0"
  using close_leaks_no_session [OF sample_closed_reached] by (simp add: sample_closed_def connworld_init_def)



text \<open>
  A sender that learns late that its session has ended sets the status back to reconnecting, and the background
  goroutine then closes the new session, which never failed, although nobody has called \<open>Close\<close>.
\<close>
theorem late_error_closes_new_session:
  "\<exists>w. cstep\<^sup>*\<^sup>* connworld_init w \<and> wireConn w = 1 \<and> closed w 1 \<and> \<not> failed w 1 \<and> closers w = []"
proof -
  let ?w = "sample_reconnected"
  have 1: "cstep\<^sup>*\<^sup>* connworld_init (?w\<lparr>status := connStatusReconnecting, senders := [SendWaiting]\<rparr>)"
    by (rule reached_step [OF sample_reconnected_reached cstep.SendHandle [of 0 _ ErrConnectionClosed]])
      (simp_all add: sample_conn_simps connstep_defs)
  then have "cstep\<^sup>*\<^sup>* connworld_init (?w\<lparr>status := connStatusReconnecting, senders := [SendWaiting], background := RunFailed\<rparr>)"
    by (rule reached_step [OF _ cstep.RunFails]) (simp_all add: sample_conn_simps)
  then have "cstep\<^sup>*\<^sup>* connworld_init (?w\<lparr>status := connStatusReconnecting, senders := [SendWaiting], background := ClosingOld 1\<rparr>)"
    by (rule reached_step [OF _ cstep.ReconnectBegin]) (simp_all add: sample_conn_simps connstep_defs)
  then have "cstep\<^sup>*\<^sup>* connworld_init (?w\<lparr>status := connStatusReconnecting, senders := [SendWaiting], background := Dialling,
      closed := (closed ?w)(1 := True)\<rparr>)"
    by (rule reached_step [OF _ cstep.CloseOld [of _ 1]]) (simp_all add: sample_conn_simps connstep_defs)
  then show ?thesis
    by - (rule exI, erule conjI, simp add: sample_conn_simps)
qed

end
