(* ===== verification/Registry.thy ===== *)
theory Registry
  imports Message "HOL-Library.AList"
begin

text \<open>
  Which streams a connection has open, and what it keeps of them in its repositories (\<open>src/iscp/storage.go\<close> and the
  registration functions of \<open>src/iscp/conn.go\<close>). The functions for upstreams and downstreams are the same but for
  the type \<open>'s\<close> of a stream's state. A stream is known by the address of its object, a \<open>nat\<close>.
\<close>

section \<open>Repositories\<close>

text \<open>The contract of \<open>upstreamRepository\<close> and \<open>downstreamRepository\<close>; \<open>None\<close> is \<open>ErrStreamNotFound\<close>.\<close>

locale stream_repository =
  fixes save :: "uuid \<Rightarrow> 's \<Rightarrow> 'r \<Rightarrow> 'r"
    and found :: "uuid \<Rightarrow> 'r \<Rightarrow> 's option"
    and remove :: "uuid \<Rightarrow> 'r \<Rightarrow> 'r option"
  assumes found_save: "found i (save j s r) = (if i = j then Some s else found i r)"
    and remove_None: "remove i r = None \<longleftrightarrow> found i r = None"
    and found_remove: "remove i r = Some r' \<Longrightarrow> found j r' = (if j = i then None else found j r)"

text \<open>\<open>inmemStreamRepository\<close>.\<close>

type_synonym 's inmem = "(uuid \<times> 's) list"

definition newInmemStreamRepository :: "'s inmem" where
  "newInmemStreamRepository = []"

definition SaveStream :: "uuid \<Rightarrow> 's \<Rightarrow> 's inmem \<Rightarrow> 's inmem" where
  "SaveStream i info r = AList.update i info r"

definition FindStreamByID :: "uuid \<Rightarrow> 's inmem \<Rightarrow> 's option" where
  "FindStreamByID i r = map_of r i"

definition RemoveStreamByID :: "uuid \<Rightarrow> 's inmem \<Rightarrow> 's inmem option" where
  "RemoveStreamByID i r = (if map_of r i = None then None else Some (AList.delete i r))"

interpretation inmem: stream_repository SaveStream FindStreamByID RemoveStreamByID
  by unfold_locales
    (auto simp: SaveStream_def FindStreamByID_def RemoveStreamByID_def AList.update_conv' AList.delete_conv' split: if_splits)

section \<open>Registration\<close>

text \<open>The open streams of the connection, with the repository \<open>r\<close>; \<open>save\<close> and \<open>remove\<close> are the repository's.\<close>

definition registerStream :: "(uuid \<Rightarrow> 's \<Rightarrow> 'r \<Rightarrow> 'r) \<Rightarrow> nat \<Rightarrow> uuid \<Rightarrow> 's \<Rightarrow> nat list \<times> 'r \<Rightarrow> nat list \<times> 'r" where
  "registerStream save p i s = (\<lambda>(open_streams, r). (List.insert p open_streams, save i s r))"

definition unregisterStream :: "(uuid \<Rightarrow> 'r \<Rightarrow> 'r option) \<Rightarrow> nat \<Rightarrow> uuid \<Rightarrow> nat list \<times> 'r \<Rightarrow> nat list \<times> 'r" where
  "unregisterStream remove p i = (\<lambda>(open_streams, r).
     if p \<notin> set open_streams then (open_streams, r)
     else (remove1 p open_streams, (case remove i r of None \<Rightarrow> r | Some r' \<Rightarrow> r')))"

text \<open>\<open>ident\<close> and \<open>state\<close> read the streams.\<close>

definition saveAndClearAllStreams ::
    "(uuid \<Rightarrow> 's \<Rightarrow> 'r \<Rightarrow> 'r) \<Rightarrow> (nat \<Rightarrow> uuid) \<Rightarrow> (nat \<Rightarrow> 's) \<Rightarrow> nat list \<times> 'r \<Rightarrow> nat list \<times> 'r" where
  "saveAndClearAllStreams save ident state =
     (\<lambda>(open_streams, r). ([], fold (\<lambda>p. save (ident p) (state p)) open_streams r))"

section \<open>Lives of streams\<close>

text \<open>Streams are opened, with the state they then have, and end; in the end the connection is closed.\<close>

datatype 's life = Opened nat 's | Ended nat

fun do_life :: "(uuid \<Rightarrow> 's \<Rightarrow> 'r \<Rightarrow> 'r) \<Rightarrow> (uuid \<Rightarrow> 'r \<Rightarrow> 'r option) \<Rightarrow> (nat \<Rightarrow> uuid) \<Rightarrow> 's life \<Rightarrow> nat list \<times> 'r \<Rightarrow> nat list \<times> 'r" where
  "do_life save remove ident (Opened p s) w = registerStream save p (ident p) s w"
| "do_life save remove ident (Ended p) w = unregisterStream remove p (ident p) w"

fun still_open :: "'s life list \<Rightarrow> nat \<Rightarrow> bool" where
  "still_open [] p = False"
| "still_open (l # ls) p = (case l of Opened q s \<Rightarrow> q = p \<or> still_open ls p | Ended q \<Rightarrow> q \<noteq> p \<and> still_open ls p)"

fun stream_of :: "'s life \<Rightarrow> nat" where
  "stream_of (Opened p s) = p" | "stream_of (Ended p) = p"

lemma still_open_stream: "still_open ls p \<Longrightarrow> p \<in> stream_of ` set ls"
  by (induction ls) (auto split: life.splits)

context stream_repository
begin

lemma found_fold_save:
  "inj_on ident (set ps) \<Longrightarrow> found i (fold (\<lambda>p. save (ident p) (state p)) ps r) =
     (case List.find (\<lambda>p. ident p = i) ps of Some p \<Rightarrow> Some (state p) | None \<Rightarrow> found i r)"
proof (induction ps arbitrary: r)
  case (Cons p ps)
  then have IH: "found i (fold (\<lambda>p. save (ident p) (state p)) ps r') =
      (case List.find (\<lambda>p. ident p = i) ps of Some p \<Rightarrow> Some (state p) | None \<Rightarrow> found i r')" for r'
    by (simp add: inj_on_insert)
  have same: "List.find (\<lambda>p. ident p = i) ps = Some q \<Longrightarrow> ident p = i \<Longrightarrow> q = p" for q
    using inj_onD [OF Cons.prems, of q p] by (auto dest!: find_Some_iff [THEN iffD1])
  show ?case
    using same by (auto simp: IH found_save split: option.split)
qed simp

text \<open>Histories are newest first.\<close>

definition life_inv :: "nat set \<Rightarrow> (nat \<Rightarrow> uuid) \<Rightarrow> 's life list \<Rightarrow> nat list \<times> 'r \<Rightarrow> bool" where
  "life_inv S ident ls w \<longleftrightarrow> distinct (fst w) \<and> (\<forall>p. p \<in> set (fst w) \<longleftrightarrow> still_open ls p) \<and>
     (\<forall>p \<in> S. found (ident p) (snd w) \<noteq> None \<longleftrightarrow> still_open ls p)"

lemma life_inv_step:
  assumes "life_inv S ident ls w" "inj_on ident S" "stream_of l \<in> S"
  shows "life_inv S ident (l # ls) (do_life save remove ident l w)"
proof -
  obtain ps r where w: "w = (ps, r)" by (cases w)
  note inj = inj_on_eq_iff [OF assms(2)]
  show ?thesis
  proof (cases l)
    case (Opened p s)
    then show ?thesis
      using assms(1,3) by (auto simp: life_inv_def w registerStream_def found_save inj)
  next
    case (Ended p)
    show ?thesis
    proof (cases "p \<in> set ps")
      case True
      with assms(1,3) Ended obtain r' where r': "remove (ident p) r = Some r'"
        using remove_None [of "ident p" r] by (auto simp: life_inv_def w)
      with True show ?thesis
        using assms(1,3) found_remove [OF r'] by (auto simp: life_inv_def w Ended unregisterStream_def inj)
    next
      case False
      then show ?thesis
        using assms(1,3) by (auto simp: life_inv_def w Ended unregisterStream_def)
    qed
  qed
qed

lemma life_inv_run:
  assumes "inj_on ident S" "\<forall>i. found i r0 = None" "stream_of ` set ls \<subseteq> S"
  shows "life_inv S ident ls (foldr (do_life save remove ident) ls ([], r0))"
  using assms(3)
proof (induction ls)
  case Nil
  show ?case using assms(2) by (simp add: life_inv_def)
next
  case (Cons l ls)
  then show ?case using life_inv_step [OF _ assms(1)] by simp
qed

lemma saved_when_closed:
  assumes "inj_on ident (insert p (stream_of ` set ls))" "\<forall>i. found i r0 = None"
  shows "found (ident p) (snd (saveAndClearAllStreams save ident state (foldr (do_life save remove ident) ls ([], r0)))) =
    (if still_open ls p then Some (state p) else None)"
proof -
  let ?S = "insert p (stream_of ` set ls)"
  obtain ps r where w: "foldr (do_life save remove ident) ls ([], r0) = (ps, r)"
    by (cases "foldr (do_life save remove ident) ls ([], r0)")
  then have inv: "life_inv ?S ident ls (ps, r)"
    using life_inv_run [OF assms, of ls] by auto
  then have "q \<in> set ps \<Longrightarrow> still_open ls q" for q
    unfolding life_inv_def fst_conv by blast
  then have "set ps \<subseteq> ?S"
    using still_open_stream by blast
  with assms(1) have inj: "inj_on ident (set ps)"
    by (rule inj_on_subset)
  have "List.find (\<lambda>q. ident q = ident p) ps = (if p \<in> set ps then Some p else None)"
  proof (cases "List.find (\<lambda>q. ident q = ident p) ps")
    case None
    then show ?thesis by (auto simp: find_None_iff)
  next
    case (Some q)
    then have "q \<in> set ps" "ident q = ident p"
      by (auto dest!: find_Some_iff [THEN iffD1])
    with \<open>set ps \<subseteq> ?S\<close> have "q = p"
      by (intro inj_onD [OF assms(1)]) auto
    with \<open>q \<in> set ps\<close> Some show ?thesis by simp
  qed
  with inv inj show ?thesis
    by (cases "found (ident p) r") (simp_all add: w saveAndClearAllStreams_def found_fold_save life_inv_def)
qed

end

text \<open>
  After \<open>Close\<close> the repository holds exactly the streams that were open then, each with its last state: of a
  stream that has ended before nothing is left, whatever the order in which the streams were opened and ended.
\<close>
theorem repository_after_close:
  assumes "inj_on ident (insert p (stream_of ` set ls))"
  shows "FindStreamByID (ident p) (snd (saveAndClearAllStreams SaveStream ident state
      (foldr (do_life SaveStream RemoveStreamByID ident) ls ([], newInmemStreamRepository)))) =
    (if still_open ls p then Some (state p) else None)"
  using assms by (rule inmem.saved_when_closed) (simp add: FindStreamByID_def newInmemStreamRepository_def)

theorem repository_after_close_witness:
  "FindStreamByID 8 (snd (saveAndClearAllStreams SaveStream of_nat Suc
      (foldr (do_life SaveStream RemoveStreamByID of_nat) [Ended 7, Opened 8 0, Opened 7 0] ([], newInmemStreamRepository)))) =
    Some 9"
proof -
  have "inj_on (of_nat :: nat \<Rightarrow> uuid) (insert 8 (stream_of ` set [Ended 7, Opened 8 0, Opened 7 (0 :: nat)]))"
    by (simp add: inj_on_def)
  from repository_after_close [OF this, of Suc] show ?thesis by simp
qed

end
