(* ===== verification/E2E.thy ===== *)
theory E2E
  imports Message
begin

text \<open>
  Calls between nodes (\<open>src/iscp/e2e.go\<close> and the reading loops of \<open>src/iscp/conn.go\<close>): a call waits for the
  acknowledgement of its own identifier, a caller may also wait for the reply to it, and the calls of other nodes are
  queued for the application. Channels are numbered; identifiers are the random strings the code draws, so that the
  check for an identifier in use and its entry in the table are taken together.
\<close>

section \<open>What is sent and received\<close>

record IscpUpstreamCall =  \<comment> \<open>\<open>iscp.UpstreamCall\<close>; a reply call has \<open>ReplyTo\<close> for its \<open>RequestCallID\<close>\<close>
  DestinationNodeID :: string
  Name :: string
  Type :: string
  Payload :: bytes

definition call_message :: "string \<Rightarrow> string \<Rightarrow> IscpUpstreamCall \<Rightarrow> UpstreamCall" where
  "call_message callID requestCallID request =
     \<lparr>UpstreamCall.CallID = callID, UpstreamCall.RequestCallID = requestCallID,
      UpstreamCall.DestinationNodeID = DestinationNodeID request, UpstreamCall.Name = Name request,
      UpstreamCall.Type = Type request, UpstreamCall.Payload = Payload request, UpstreamCall.ExtensionFields = Some ()\<rparr>"

definition SendCall_result :: "string \<Rightarrow> UpstreamCallAck \<Rightarrow> (ResultCode \<times> string) + string" where
  "SendCall_result callID res =
     (if UpstreamCallAck.ResultCode res = ResultCodeSucceeded then Inr callID
      else Inl (UpstreamCallAck.ResultCode res, UpstreamCallAck.ResultString res))"

record DownstreamReplyCall =
  CallID :: string
  RequestCallID :: string
  SourceNodeID :: string
  ReplyName :: string
  ReplyType :: string
  ReplyPayload :: bytes

definition reply_of :: "DownstreamCall \<Rightarrow> DownstreamReplyCall" where
  "reply_of call =
     \<lparr>CallID = DownstreamCall.CallID call, RequestCallID = DownstreamCall.RequestCallID call,
      SourceNodeID = DownstreamCall.SourceNodeID call, ReplyName = DownstreamCall.Name call,
      ReplyType = DownstreamCall.Type call, ReplyPayload = DownstreamCall.Payload call\<rparr>"

section \<open>Tables and channels\<close>

text \<open>The last four fields are histories: for what each channel was made, and what was sent to it.\<close>

record e2e =
  upstreamCallAckCh :: "string \<rightharpoonup> nat"
  replyCallChs :: "string \<rightharpoonup> nat"
  downstreamCallCh :: "DownstreamCall list"
  replyCallCh :: "DownstreamCall list"
  nextCh :: nat
  ackOwner :: "nat \<rightharpoonup> string"
  replyOwner :: "nat \<rightharpoonup> string"
  acked :: "nat \<Rightarrow> UpstreamCallAck list"
  replied :: "nat \<Rightarrow> DownstreamCall list"

definition e2e_init :: e2e where
  "e2e_init = \<lparr>upstreamCallAckCh = Map.empty, replyCallChs = Map.empty, downstreamCallCh = [], replyCallCh = [], nextCh = 0,
     ackOwner = Map.empty, replyOwner = Map.empty, acked = (\<lambda>ch. []), replied = (\<lambda>ch. [])\<rparr>"

definition call_cap :: nat where "call_cap = 1024"

text \<open>The entry that \<open>call\<close> makes before it sends; \<open>None\<close> when the identifier is in use.\<close>

definition call :: "string \<Rightarrow> e2e \<Rightarrow> e2e option" where
  "call callID w =
     (if upstreamCallAckCh w callID \<noteq> None then None
      else Some (w\<lparr>upstreamCallAckCh := (upstreamCallAckCh w)(callID \<mapsto> nextCh w), nextCh := Suc (nextCh w),
        ackOwner := (ackOwner w)(nextCh w \<mapsto> callID)\<rparr>))"

definition subscribeReply :: "string \<Rightarrow> e2e \<Rightarrow> e2e option" where
  "subscribeReply requestID w =
     (if replyCallChs w requestID \<noteq> None then None
      else Some (w\<lparr>replyCallChs := (replyCallChs w)(requestID \<mapsto> nextCh w), nextCh := Suc (nextCh w),
        replyOwner := (replyOwner w)(nextCh w \<mapsto> requestID)\<rparr>))"

definition readUpstreamCallAckLoop :: "UpstreamCallAck \<Rightarrow> e2e \<Rightarrow> e2e" where
  "readUpstreamCallAckLoop ack w =
     (case upstreamCallAckCh w (UpstreamCallAck.CallID ack) of
        None \<Rightarrow> w
      | Some ch \<Rightarrow> w\<lparr>upstreamCallAckCh := (upstreamCallAckCh w)(UpstreamCallAck.CallID ack := None),
          acked := (acked w)(ch := acked w ch @ [ack])\<rparr>)"

definition readDownstreamCallLoop :: "DownstreamCall \<Rightarrow> e2e \<Rightarrow> e2e" where
  "readDownstreamCallLoop dc w =
     (if DownstreamCall.RequestCallID dc = [] then
        (if length (downstreamCallCh w) < call_cap then w\<lparr>downstreamCallCh := downstreamCallCh w @ [dc]\<rparr> else w)
      else
        (let w = (if length (replyCallCh w) < call_cap then w\<lparr>replyCallCh := replyCallCh w @ [dc]\<rparr> else w)
         in case replyCallChs w (DownstreamCall.RequestCallID dc) of
              None \<Rightarrow> w
            | Some ch \<Rightarrow> w\<lparr>replyCallChs := (replyCallChs w)(DownstreamCall.RequestCallID dc := None),
                replied := (replied w)(ch := replied w ch @ [dc])\<rparr>))"

text \<open>\<open>ReceiveCall\<close> and \<open>ReceiveReplyCall\<close> when there is a call; what they return is the head of the queue.\<close>

definition ReceiveCall :: "e2e \<Rightarrow> e2e" where
  "ReceiveCall w = w\<lparr>downstreamCallCh := tl (downstreamCallCh w)\<rparr>"

definition ReceiveReplyCall :: "e2e \<Rightarrow> e2e" where
  "ReceiveReplyCall w = w\<lparr>replyCallCh := tl (replyCallCh w)\<rparr>"

datatype e2e_event =
  Call string | SubscribeReply string | AckArrives UpstreamCallAck | CallArrives DownstreamCall | TakeCall | TakeReplyCall

fun e2e_do :: "e2e_event \<Rightarrow> e2e \<Rightarrow> e2e" where
  "e2e_do (Call i) w = (case call i w of None \<Rightarrow> w | Some w' \<Rightarrow> w')"
| "e2e_do (SubscribeReply i) w = (case subscribeReply i w of None \<Rightarrow> w | Some w' \<Rightarrow> w')"
| "e2e_do (AckArrives a) w = readUpstreamCallAckLoop a w"
| "e2e_do (CallArrives dc) w = readDownstreamCallLoop dc w"
| "e2e_do TakeCall w = ReceiveCall w"
| "e2e_do TakeReplyCall w = ReceiveReplyCall w"

section \<open>Invariants\<close>

text \<open>
  A table \<open>tbl\<close> of channels that are each used once, with their owners and what was sent to them; \<open>n\<close> is the next
  channel and \<open>key\<close> reads the identifier a message is for.
\<close>

definition one_shot ::
    "('k \<rightharpoonup> nat) \<Rightarrow> (nat \<rightharpoonup> 'k) \<Rightarrow> nat \<Rightarrow> (nat \<Rightarrow> 'm list) \<Rightarrow> ('m \<Rightarrow> 'k) \<Rightarrow> bool" where
  "one_shot tbl own n sent key \<longleftrightarrow>
     (\<forall>i ch. tbl i = Some ch \<longrightarrow> own ch = Some i \<and> sent ch = []) \<and>
     (\<forall>ch \<ge> n. own ch = None \<and> sent ch = []) \<and>
     (\<forall>ch. length (sent ch) \<le> 1 \<and> (\<forall>m \<in> set (sent ch). own ch = Some (key m)))"

lemma one_shot_Suc: "one_shot tbl own n sent key \<Longrightarrow> one_shot tbl own (Suc n) sent key"
  by (simp add: one_shot_def)

lemma one_shot_register:
  "one_shot tbl own n sent key \<Longrightarrow> one_shot (tbl(i \<mapsto> n)) (own(n \<mapsto> i)) (Suc n) sent key"
  unfolding one_shot_def by auto

lemma one_shot_deliver:
  assumes "one_shot tbl own n sent key" "tbl (key m) = Some ch"
  shows "one_shot (tbl(key m := None)) own n (sent(ch := sent ch @ [m])) key"
proof -
  have "own ch = Some (key m)" "sent ch = []"
    using assms by (simp_all add: one_shot_def)
  moreover from this have "ch < n" and "tbl i = Some ch \<Longrightarrow> i = key m" for i
    using assms(1) by (auto simp: one_shot_def not_le [symmetric])
  ultimately show ?thesis
    using assms(1) by (auto simp: one_shot_def)
qed

definition inv_e2e :: "e2e \<Rightarrow> bool" where
  "inv_e2e w \<longleftrightarrow>
     one_shot (upstreamCallAckCh w) (ackOwner w) (nextCh w) (acked w) UpstreamCallAck.CallID \<and>
     one_shot (replyCallChs w) (replyOwner w) (nextCh w) (replied w) DownstreamCall.RequestCallID"

lemma inv_e2e_do: "inv_e2e w \<Longrightarrow> inv_e2e (e2e_do e w)"
  by (cases e)
    (auto simp: inv_e2e_def call_def subscribeReply_def readUpstreamCallAckLoop_def readDownstreamCallLoop_def
      ReceiveCall_def ReceiveReplyCall_def Let_def one_shot_Suc one_shot_register one_shot_deliver split: option.split)

lemma e2e_runs: "inv_e2e w \<Longrightarrow> inv_e2e (fold e2e_do es w)"
  by (induction es arbitrary: w) (auto simp: inv_e2e_do)

lemma inv_e2e_init: "inv_e2e e2e_init"
  by (simp add: inv_e2e_def one_shot_def e2e_init_def)

section \<open>Properties\<close>

text \<open>
  C38: Whatever calls, acknowledgements and replies come in whatever order, a caller receives at most one
  acknowledgement, of its own call, and at most one reply, to its own call; so the sends that the code marks as not
  blocking never block.
\<close>
theorem calls_answered_once:
  "let w = fold e2e_do es e2e_init in
    length (acked w ch) \<le> 1 \<and> length (replied w ch) \<le> 1 \<and>
    map (Some \<circ> UpstreamCallAck.CallID) (acked w ch) = map (\<lambda>_. ackOwner w ch) (acked w ch) \<and>
    map (Some \<circ> DownstreamCall.RequestCallID) (replied w ch) = map (\<lambda>_. replyOwner w ch) (replied w ch)"
  using e2e_runs [OF inv_e2e_init, of es] by (auto simp: Let_def inv_e2e_def one_shot_def)

end
