(* ===== verification/Retry.thy ===== *)
theory Retry
  imports Complex_Main "HOL-Library.Monad_Syntax"
begin

text \<open>
  Retries with exponential back-off (\<open>src/internal/retry/retry.go\<close>). Times are in nanoseconds; the products of
  floating point numbers are taken exactly, as rational numbers.
\<close>

record retry_config =
  MaxAttempt :: int
  BaseInterval :: int
  MaxBaseInterval :: int

definition defaultBaseInterval :: int where "defaultBaseInterval = 100000000"
definition defaultMaxInterval :: int where "defaultMaxInterval = 5000000000"

text \<open>\<open>r\<close> is the random number, from 0 up to 1.\<close>

definition nextSleep :: "nat \<Rightarrow> int \<Rightarrow> int \<Rightarrow> rat \<Rightarrow> int" where
  "nextSleep count base maxBase r =
     (let baseInterval = of_int base * 2 ^ count;
          baseInterval = (if baseInterval > of_int maxBase then of_int maxBase else baseInterval);
          jitter = 1 / 2 + r
      in (if baseInterval * jitter < 0 then \<lceil>baseInterval * jitter\<rceil> else \<lfloor>baseInterval * jitter\<rfloor>))"

definition base_of :: "retry_config \<Rightarrow> int" where
  "base_of c = (if BaseInterval c = 0 then defaultBaseInterval else BaseInterval c)"

definition max_base_of :: "retry_config \<Rightarrow> int" where
  "max_base_of c = (if MaxBaseInterval c = 0 then defaultMaxInterval else MaxBaseInterval c)"

text \<open>
  The loop of \<open>DoWithContext\<close> from \<open>retryCount = n\<close> on. In round \<open>i\<close>, \<open>cancelled i\<close> is what it finds of the context at
  its start, \<open>ends i\<close> is what \<open>f\<close> returns, \<open>woken i\<close> is that the context ends the sleep, and \<open>rand i\<close> is the random
  number; the result are the sleeps it asked for, one for each call of \<open>f\<close> that did not end the loop. A loop that
  never ends is \<open>None\<close>.
\<close>

partial_function (option) retry_loop ::
    "retry_config \<Rightarrow> (nat \<Rightarrow> bool) \<Rightarrow> (nat \<Rightarrow> bool) \<Rightarrow> (nat \<Rightarrow> bool) \<Rightarrow> (nat \<Rightarrow> rat) \<Rightarrow> nat \<Rightarrow> (nat \<times> int list) option" where
  "retry_loop c cancelled ends woken rand n =
     (if cancelled n then Some (n, [])
      else if MaxAttempt c \<noteq> 0 \<and> int n > MaxAttempt c then Some (n, [])
      else if ends n then Some (Suc n, [])
      else
        (let sleep = nextSleep n (base_of c) (max_base_of c) (rand n)
         in if woken n then Some (Suc n, [sleep])
            else do { (calls, sleeps) \<leftarrow> retry_loop c cancelled ends woken rand (Suc n); Some (calls, sleep # sleeps) }))"

text \<open>The number of calls of \<open>f\<close>, and the sleeps.\<close>

definition DoWithContext ::
    "retry_config \<Rightarrow> (nat \<Rightarrow> bool) \<Rightarrow> (nat \<Rightarrow> bool) \<Rightarrow> (nat \<Rightarrow> bool) \<Rightarrow> (nat \<Rightarrow> rat) \<Rightarrow> (nat \<times> int list) option" where
  "DoWithContext c cancelled ends woken rand = retry_loop c cancelled ends woken rand 0"

text \<open>\<open>Do\<close> has a context that is never cancelled.\<close>

definition Do :: "retry_config \<Rightarrow> (nat \<Rightarrow> bool) \<Rightarrow> (nat \<Rightarrow> rat) \<Rightarrow> (nat \<times> int list) option" where
  "Do c ends rand = DoWithContext c (\<lambda>i. False) ends (\<lambda>i. False) rand"

section \<open>The loop\<close>

text \<open>The rounds in which the loop ends, and the number of calls it has then made.\<close>

definition stops :: "retry_config \<Rightarrow> (nat \<Rightarrow> bool) \<Rightarrow> (nat \<Rightarrow> bool) \<Rightarrow> (nat \<Rightarrow> bool) \<Rightarrow> nat \<Rightarrow> bool" where
  "stops c cancelled ends woken i \<longleftrightarrow>
     cancelled i \<or> (MaxAttempt c \<noteq> 0 \<and> int i > MaxAttempt c) \<or> ends i \<or> woken i"

definition calls_at :: "retry_config \<Rightarrow> (nat \<Rightarrow> bool) \<Rightarrow> nat \<Rightarrow> nat" where
  "calls_at c cancelled i = (if cancelled i \<or> (MaxAttempt c \<noteq> 0 \<and> int i > MaxAttempt c) then i else Suc i)"

lemma retry_loop_stops:
  assumes "stops c cancelled ends woken k" "\<forall>i. n \<le> i \<and> i < k \<longrightarrow> \<not> stops c cancelled ends woken i" "n \<le> k"
  shows "\<exists>sleeps. retry_loop c cancelled ends woken rand n = Some (calls_at c cancelled k, sleeps)"
  using assms(2,3)
proof (induction "k - n" arbitrary: n)
  case 0
  then have "n = k" by simp
  with assms(1) show ?case
    by (subst retry_loop.simps) (auto simp: stops_def calls_at_def)
next
  case (Suc d)
  then have "\<not> stops c cancelled ends woken n" by simp
  moreover obtain sleeps where "retry_loop c cancelled ends woken rand (Suc n) = Some (calls_at c cancelled k, sleeps)"
    using Suc.hyps(1) [of "Suc n"] Suc.hyps(2) Suc.prems by fastforce
  ultimately show ?case
    by (subst retry_loop.simps) (auto simp: stops_def Let_def)
qed

lemma retry_loop_returns:
  assumes "retry_loop c cancelled ends woken rand n = Some res"
  shows "\<exists>k \<ge> n. stops c cancelled ends woken k"
proof (rule retry_loop.raw_induct [where P = "\<lambda>c cancelled ends woken rand n res. \<exists>k \<ge> n. stops c cancelled ends woken k", OF _ assms])
  fix f c cancelled ends woken rand n res
  assume IH: "\<And>c cancelled ends woken rand n res. f c cancelled ends woken rand n = Some res \<Longrightarrow> \<exists>k \<ge> n. stops c cancelled ends woken k"
    and body: "(if cancelled n then Some (n, [])
      else if MaxAttempt c \<noteq> 0 \<and> int n > MaxAttempt c then Some (n, [])
      else if ends n then Some (Suc n, [])
      else
        (let sleep = nextSleep n (base_of c) (max_base_of c) (rand n)
         in if woken n then Some (Suc n, [sleep])
            else do { (calls, sleeps) \<leftarrow> f c cancelled ends woken rand (Suc n); Some (calls, sleep # sleeps) })) = Some res"
  show "\<exists>k \<ge> n. stops c cancelled ends woken k"
  proof (cases "stops c cancelled ends woken n")
    case False
    then have "\<not> cancelled n" "\<not> (MaxAttempt c \<noteq> 0 \<and> int n > MaxAttempt c)" "\<not> ends n" "\<not> woken n"
      by (auto simp: stops_def)
    with body obtain res' where "f c cancelled ends woken rand (Suc n) = Some res'"
      by (cases "f c cancelled ends woken rand (Suc n)") (simp_all add: Let_def)
    from IH [OF this] obtain k where "Suc n \<le> k" "stops c cancelled ends woken k" by blast
    then show ?thesis
      by (intro exI [of _ k]) simp
  qed auto
qed

section \<open>Properties\<close>

text \<open>
  C39: The loop returns exactly when something can end it: a call of the function that reports the end, a cancelled
  context, or a limit on the attempts. With a positive limit the function is called at most one time more than the
  limit says, and exactly that often when neither it nor the context ends the loop; a negative limit keeps it from
  being called at all.
\<close>
theorem retry_returns:
  "(DoWithContext c cancelled ends woken rand \<noteq> None \<longleftrightarrow>
     (\<exists>i. cancelled i \<or> ends i \<or> woken i) \<or> MaxAttempt c \<noteq> 0) \<and>
   (\<forall>calls sleeps. MaxAttempt c \<noteq> 0 \<and> DoWithContext c cancelled ends woken rand = Some (calls, sleeps) \<longrightarrow>
     int calls \<le> max 0 (MaxAttempt c + 1) \<and>
     ((\<forall>i. \<not> cancelled i \<and> \<not> ends i \<and> \<not> woken i) \<longrightarrow> int calls = max 0 (MaxAttempt c + 1)))"
proof (intro conjI)
  let ?stops = "stops c cancelled ends woken"
  have limit: "?stops (nat (MaxAttempt c + 1))" if "MaxAttempt c \<noteq> 0"
    using that by (auto simp: stops_def)
  have first: "\<exists>k sleeps. ?stops k \<and> (\<forall>i < k. \<not> ?stops i) \<and>
      DoWithContext c cancelled ends woken rand = Some (calls_at c cancelled k, sleeps)" if "?stops i" for i
  proof -
    have "?stops (LEAST k. ?stops k)" "\<forall>i < (LEAST k. ?stops k). \<not> ?stops i"
      using that by (auto intro: LeastI dest: not_less_Least)
    then show ?thesis
      using retry_loop_stops [of c cancelled ends woken _ 0 rand] unfolding DoWithContext_def by blast
  qed
  show "DoWithContext c cancelled ends woken rand \<noteq> None \<longleftrightarrow> (\<exists>i. cancelled i \<or> ends i \<or> woken i) \<or> MaxAttempt c \<noteq> 0"
  proof
    assume "DoWithContext c cancelled ends woken rand \<noteq> None"
    then obtain k where "?stops k"
      using retry_loop_returns [of c cancelled ends woken rand 0] unfolding DoWithContext_def by blast
    then show "(\<exists>i. cancelled i \<or> ends i \<or> woken i) \<or> MaxAttempt c \<noteq> 0"
      by (auto simp: stops_def)
  next
    assume ends: "(\<exists>i. cancelled i \<or> ends i \<or> woken i) \<or> MaxAttempt c \<noteq> 0"
    have "\<exists>i. ?stops i"
    proof (cases "MaxAttempt c = 0")
      case True
      with ends show ?thesis by (auto simp: stops_def)
    qed (use limit in blast)
    then obtain i where "?stops i" by blast
    from first [OF this] show "DoWithContext c cancelled ends woken rand \<noteq> None" by auto
  qed
  show "\<forall>calls sleeps. MaxAttempt c \<noteq> 0 \<and> DoWithContext c cancelled ends woken rand = Some (calls, sleeps) \<longrightarrow>
     int calls \<le> max 0 (MaxAttempt c + 1) \<and>
     ((\<forall>i. \<not> cancelled i \<and> \<not> ends i \<and> \<not> woken i) \<longrightarrow> int calls = max 0 (MaxAttempt c + 1))"
  proof (intro allI impI)
    fix calls sleeps assume m: "MaxAttempt c \<noteq> 0 \<and> DoWithContext c cancelled ends woken rand = Some (calls, sleeps)"
    with limit first obtain k where k: "?stops k" "\<forall>i < k. \<not> ?stops i" and calls: "calls = calls_at c cancelled k"
      by fastforce
    have "k \<le> nat (MaxAttempt c + 1)"
      using k(2) limit m by (meson not_less)
    moreover have "\<not> cancelled k \<Longrightarrow> \<not> ends k \<Longrightarrow> \<not> woken k \<Longrightarrow> int k > MaxAttempt c"
      using k(1) by (auto simp: stops_def)
    ultimately show "int calls \<le> max 0 (MaxAttempt c + 1) \<and>
        ((\<forall>i. \<not> cancelled i \<and> \<not> ends i \<and> \<not> woken i) \<longrightarrow> int calls = max 0 (MaxAttempt c + 1))"
      using m by (auto simp: calls calls_at_def)
  qed
qed

theorem retry_returns_witness:
  "\<exists>sleeps. DoWithContext \<lparr>MaxAttempt = 3, BaseInterval = 0, MaxBaseInterval = 0\<rparr> (\<lambda>i. False) (\<lambda>i. False) (\<lambda>i. False) (\<lambda>i. 0) =
    Some (4, sleeps)"
proof -
  let ?c = "\<lparr>MaxAttempt = 3, BaseInterval = 0, MaxBaseInterval = 0\<rparr>" and ?f = "\<lambda>i::nat. False"
  obtain calls sleeps where r: "DoWithContext ?c ?f ?f ?f (\<lambda>i. 0) = Some (calls, sleeps)"
    using retry_returns [of ?c ?f ?f ?f "\<lambda>i. 0"] by auto
  then have "int calls = 4"
    using retry_returns [of ?c ?f ?f ?f "\<lambda>i. 0"] by simp
  with r show ?thesis by auto
qed

text \<open>
  Every sleep lies between half of the base interval and one and a half times the largest one, up to rounding to
  nanoseconds, and before the limit is reached between half and one and a half times the doubled interval.
\<close>
theorem sleep_bounds:
  assumes "0 < base" and "base \<le> maxBase" and "0 \<le> r" and "r < 1"
  shows "base div 2 \<le> nextSleep n base maxBase r \<and> 2 * nextSleep n base maxBase r \<le> 3 * maxBase \<and>
    (base * 2 ^ n \<le> maxBase \<longrightarrow> base * 2 ^ n div 2 \<le> nextSleep n base maxBase r \<and> 2 * nextSleep n base maxBase r \<le> 3 * (base * 2 ^ n))"
proof -
  define b where "b = (if base * 2 ^ n > maxBase then maxBase else base * 2 ^ n)"
  have "base * 1 \<le> base * 2 ^ n"
    using assms(1) by (intro mult_left_mono) simp_all
  then have b: "base \<le> b" "b \<le> maxBase" "0 < b"
    using assms(1,2) by (auto simp: b_def)
  have b_rat: "(if of_int base * 2 ^ n > (of_int maxBase :: rat) then of_int maxBase else of_int base * 2 ^ n) = (of_int b :: rat)"
  proof -
    have "of_int base * 2 ^ n = (of_int (base * 2 ^ n) :: rat)" by simp
    then show ?thesis by (simp only: b_def of_int_less_iff split: if_split) simp
  qed
  have low: "of_int b / 2 \<le> of_int b * (1 / 2 + r)" and high: "of_int b * (1 / 2 + r) \<le> of_int b * (3 / 2)"
    using b(3) assms(3,4) by (simp_all add: algebra_simps)
  have sleep: "nextSleep n base maxBase r = \<lfloor>of_int b * (1 / 2 + r)\<rfloor>"
  proof -
    have "0 \<le> of_int b * (1 / 2 + r)"
      using b(3) assms(3) by (intro mult_nonneg_nonneg) simp_all
    then show ?thesis
      using b_rat by (simp add: nextSleep_def Let_def)
  qed
  have "b div 2 = \<lfloor>of_int b / (2 :: rat)\<rfloor>"
    by (metis floor_divide_of_int_eq of_int_numeral)
  also have "\<dots> \<le> nextSleep n base maxBase r"
    unfolding sleep using low by (rule floor_mono)
  finally have 1: "b div 2 \<le> nextSleep n base maxBase r" .
  have "(of_int (2 * nextSleep n base maxBase r) :: rat) \<le> of_int (3 * b)"
  proof -
    define x where "x = of_int b * (1 / 2 + r)"
    have "of_int \<lfloor>x\<rfloor> \<le> x" by (rule of_int_floor_le)
    moreover have "x \<le> of_int b * (3 / 2)" using high by (simp add: x_def)
    ultimately show ?thesis
      unfolding sleep x_def [symmetric] of_int_mult of_int_numeral by linarith
  qed
  then have 2: "2 * nextSleep n base maxBase r \<le> 3 * b"
    by (simp only: of_int_le_iff)
  have "base div 2 \<le> b div 2"
    using b(1) by (simp add: zdiv_mono1)
  with 1 2 b(2) show ?thesis
    by (auto simp: b_def split: if_splits)
qed

theorem sleep_bounds_witness: "50000000 \<le> nextSleep 3 100000000 5000000000 0 \<and> nextSleep 3 100000000 5000000000 0 \<le> 1200000000"
  using sleep_bounds [of 100000000 5000000000 0 3] by simp

end
