(* ===== verification/Byte_Link.thy ===== *)
theory Byte_Link
  imports Negotiation Step_Systems "HOL-Library.Sublist"
begin

text \<open>
  What the QUIC, WebTransport and websocket transports share: the compression library, the readers of
  \<open>io\<close>, and the contract they have towards the encoding above (\<open>transport.ReadWriter\<close> in
  \<open>src/transport/transport.go\<close>): messages are read in the order in which they were written.
\<close>

section \<open>The compression library\<close>

text \<open>
  \<open>compress/flate\<close> and \<open>klauspost/compress/flate\<close>: writing a message at a level and with a dictionary to a new
  writer, flushing and closing it, and reading everything from a new reader with a dictionary. \<open>flate_ok\<close> is what their
  documentation promises: a reader whose dictionary is the writer's gives back what was written.
\<close>

record 'e flate_lib =
  deflate :: "i64 \<Rightarrow> bytes \<Rightarrow> bytes \<Rightarrow> 'e + bytes"
  inflate :: "bytes \<Rightarrow> bytes \<Rightarrow> 'e + bytes"

definition flate_ok :: "'e flate_lib \<Rightarrow> bool" where
  "flate_ok F \<longleftrightarrow> (\<forall>level dict m bs. deflate F level dict m = Inr bs \<longrightarrow> inflate F dict bs = Inr m)"

lemma inflate_deflate: "flate_ok F \<Longrightarrow> deflate F level dict m = Inr bs \<Longrightarrow> inflate F dict bs = Inr m"
  by (auto simp: flate_ok_def)

section \<open>Reading from a stream\<close>

text \<open>
  How a stream ends. \<open>ReadFull\<close> on the bytes that have arrived: \<open>None\<close> waits for more, which an ended
  stream does not have.
\<close>

datatype 'e stream_end = StreamEOF | StreamUnexpectedEOF | StreamError 'e

definition ReadFull_stream :: "nat \<Rightarrow> bytes \<Rightarrow> 'e stream_end option \<Rightarrow> ('e stream_end + bytes \<times> bytes) option" where
  "ReadFull_stream n bs end =
     (if n \<le> length bs then Some (Inr (take n bs, drop n bs))
      else case end of
          None \<Rightarrow> None
        | Some err \<Rightarrow> Some (Inl (if err = StreamEOF \<and> bs \<noteq> [] then StreamUnexpectedEOF else err)))"

section \<open>The contract\<close>

text \<open>
  \<open>written\<close> are the messages that were handed to the network, \<open>received\<close> those \<open>Read\<close> returned at the other
  end; \<open>ok\<close> is what the link asks of the run.
\<close>

locale ordered_link = step_system start step
  for start :: "'s \<Rightarrow> bool" and step :: "'s \<Rightarrow> 's \<Rightarrow> bool" +
  fixes ok :: "'s \<Rightarrow> bool" and written received :: "'s \<Rightarrow> bytes list"
  assumes in_order: "reachable s \<Longrightarrow> ok s \<Longrightarrow> prefix (received s) (written s)"
begin

text \<open>What the two ends make of the messages of a run, by the same function, is a prefix too.\<close>

lemma received_of_written:
  assumes "reachable s" "ok s" "list_all2 enc ms (written s)"
  shows "\<exists>k \<le> length ms. received s = take k (written s) \<and> list_all2 enc (take k ms) (received s)"
proof -
  from in_order [OF assms(1,2)] obtain rest where w: "written s = received s @ rest"
    by (auto elim: prefixE)
  let ?k = "length (received s)"
  have "?k \<le> length ms"
    using list_all2_lengthD [OF assms(3)] w by simp
  moreover have "received s = take ?k (written s)"
    using w by simp
  moreover have "list_all2 enc (take ?k ms) (take ?k (written s))"
    using assms(3) by (rule list_all2_takeI)
  ultimately show ?thesis
    by metis
qed

end

end
