(* ===== verification/Encoding.thy ===== *)
theory Encoding
  imports Byte_Link To_Proto From_Proto
begin

text \<open>
  The encodings (\<open>src/encoding/protobuf/main.go\<close>, \<open>src/encoding/json/main.go\<close>) and the transport of encoded
  messages (\<open>src/encoding/main.go\<close>, \<open>counter.go\<close>), which is what a session reads from and writes to. The writer an
  encoding is given is always the \<open>bytes.Buffer\<close> of \<open>Write\<close>, which takes everything, and the reader one that ends with
  the message.
\<close>

section \<open>Encodings\<close>

text \<open>
  Marshalling and unmarshalling of the generated messages, a part of the libraries; an error of theirs may also be a
  panic, which is recovered. \<open>js_Unmarshal\<close> also says how many bytes it has read.
\<close>

record 'p pb_lib =
  pb_Marshal :: "PbMessage \<Rightarrow> 'p + bytes"
  pb_Unmarshal :: "bytes \<Rightarrow> 'p + PbMessage"

record 'p js_lib =
  js_Marshal :: "PbMessage \<Rightarrow> 'p + bytes"
  js_Unmarshal :: "bytes \<Rightarrow> ('p + PbMessage) \<times> nat"

text \<open>
  A panic of the converter is recovered: with protobuf its value is the error, with JSON it is always replaced by
  an error of its text, because the assignment lacks an \<open>else\<close>.
\<close>

datatype 'p enc_error = Converting conv_error | RecoveredPanic conv_error | RecoveredText | Library 'p

definition panics :: "conv_error \<Rightarrow> bool" where
  "panics err \<longleftrightarrow> err = NilPointer \<or> err = UUIDMust"

definition pb_EncodeTo :: "uuid_lib \<Rightarrow> 'p pb_lib \<Rightarrow> Message \<Rightarrow> 'p enc_error + bytes \<times> nat" where
  "pb_EncodeTo L P m =
     (case WireToProto L m of
        Inl err \<Rightarrow> Inl (if panics err then RecoveredPanic err else Converting err)
      | Inr pb \<Rightarrow> (case pb_Marshal P pb of Inl err \<Rightarrow> Inl (Library err) | Inr bs \<Rightarrow> Inr (bs, length bs)))"

definition pb_DecodeFrom :: "uuid_lib \<Rightarrow> 'p pb_lib \<Rightarrow> bytes \<Rightarrow> 'p enc_error + nat \<times> Message" where
  "pb_DecodeFrom L P bs =
     (case pb_Unmarshal P bs of
        Inl err \<Rightarrow> Inl (Library err)
      | Inr pb \<Rightarrow>
          (case ProtoToWire L pb of
             Inl err \<Rightarrow> Inl (if panics err then RecoveredPanic err else Converting err)
           | Inr m \<Rightarrow> Inr (length bs, m)))"

definition js_EncodeTo :: "uuid_lib \<Rightarrow> 'p js_lib \<Rightarrow> Message \<Rightarrow> 'p enc_error + bytes \<times> nat" where
  "js_EncodeTo L J m =
     (case WireToProto L m of
        Inl err \<Rightarrow> Inl (if panics err then RecoveredText else Converting err)
      | Inr pb \<Rightarrow> (case js_Marshal J pb of Inl err \<Rightarrow> Inl (Library err) | Inr bs \<Rightarrow> Inr (bs, length bs)))"

definition js_DecodeFrom :: "uuid_lib \<Rightarrow> 'p js_lib \<Rightarrow> bytes \<Rightarrow> 'p enc_error + nat \<times> Message" where
  "js_DecodeFrom L J bs =
     (case js_Unmarshal J bs of
        (Inl err, n) \<Rightarrow> Inl (Library err)
      | (Inr pb, n) \<Rightarrow>
          (case ProtoToWire L pb of
             Inl err \<Rightarrow> Inl (if panics err then RecoveredText else Converting err)
           | Inr m \<Rightarrow> Inr (n, m)))"

text \<open>The interface \<open>Encoding\<close>, and the two encodings as its values.\<close>

record 'p encoding =
  EncodeTo :: "Message \<Rightarrow> 'p enc_error + bytes \<times> nat"
  DecodeFrom :: "bytes \<Rightarrow> 'p enc_error + nat \<times> Message"
  ContentType :: string
  EncName :: string  \<comment> \<open>the method \<open>Name\<close>\<close>

definition protobuf_NewEncoding :: "uuid_lib \<Rightarrow> 'p pb_lib \<Rightarrow> 'p encoding" where
  "protobuf_NewEncoding L P =
     \<lparr>EncodeTo = pb_EncodeTo L P, DecodeFrom = pb_DecodeFrom L P, ContentType = ''binary'',
      EncName = EncodingNameProtobuf\<rparr>"

definition json_NewEncoding :: "uuid_lib \<Rightarrow> 'p js_lib \<Rightarrow> 'p encoding" where
  "json_NewEncoding L J =
     \<lparr>EncodeTo = js_EncodeTo L J, DecodeFrom = js_DecodeFrom L J, ContentType = ''text'', EncName = EncodingNameJSON\<rparr>"

section \<open>Counters\<close>

text \<open>\<open>reflect.TypeOf\<close> of a message, by the name of the type; the empty name is that of no type.\<close>

fun TypeOf :: "Message \<Rightarrow> string" where
  "TypeOf M_nil = []"
| "TypeOf (M_ConnectRequest p) = ''*message.ConnectRequest''"
| "TypeOf (M_ConnectResponse p) = ''*message.ConnectResponse''"
| "TypeOf (M_Disconnect p) = ''*message.Disconnect''"
| "TypeOf (M_UpstreamOpenRequest p) = ''*message.UpstreamOpenRequest''"
| "TypeOf (M_UpstreamOpenResponse p) = ''*message.UpstreamOpenResponse''"
| "TypeOf (M_UpstreamResumeRequest p) = ''*message.UpstreamResumeRequest''"
| "TypeOf (M_UpstreamResumeResponse p) = ''*message.UpstreamResumeResponse''"
| "TypeOf (M_UpstreamCloseRequest p) = ''*message.UpstreamCloseRequest''"
| "TypeOf (M_UpstreamCloseResponse p) = ''*message.UpstreamCloseResponse''"
| "TypeOf (M_DownstreamOpenRequest p) = ''*message.DownstreamOpenRequest''"
| "TypeOf (M_DownstreamOpenResponse p) = ''*message.DownstreamOpenResponse''"
| "TypeOf (M_DownstreamResumeRequest p) = ''*message.DownstreamResumeRequest''"
| "TypeOf (M_DownstreamResumeResponse p) = ''*message.DownstreamResumeResponse''"
| "TypeOf (M_DownstreamCloseRequest p) = ''*message.DownstreamCloseRequest''"
| "TypeOf (M_DownstreamCloseResponse p) = ''*message.DownstreamCloseResponse''"
| "TypeOf (M_UpstreamCall p) = ''*message.UpstreamCall''"
| "TypeOf (M_UpstreamCallAck p) = ''*message.UpstreamCallAck''"
| "TypeOf (M_DownstreamCall p) = ''*message.DownstreamCall''"
| "TypeOf (M_Ping p) = ''*message.Ping''"
| "TypeOf (M_Pong p) = ''*message.Pong''"
| "TypeOf (M_UpstreamChunk p) = ''*message.UpstreamChunk''"
| "TypeOf (M_UpstreamChunkAck p) = ''*message.UpstreamChunkAck''"
| "TypeOf (M_DownstreamChunk p) = ''*message.DownstreamChunk''"
| "TypeOf (M_DownstreamChunkAck p) = ''*message.DownstreamChunkAck''"
| "TypeOf (M_DownstreamChunkAckComplete p) = ''*message.DownstreamChunkAckComplete''"
| "TypeOf (M_UpstreamMetadata p) = ''*message.UpstreamMetadata''"
| "TypeOf (M_UpstreamMetadataAck p) = ''*message.UpstreamMetadataAck''"
| "TypeOf (M_DownstreamMetadata p) = ''*message.DownstreamMetadata''"
| "TypeOf (M_DownstreamMetadataAck p) = ''*message.DownstreamMetadataAck''"

text \<open>A missing entry of a Go map reads as 0.\<close>

record counter =
  byteCount :: "string \<rightharpoonup> u64"
  messageCount :: "string \<rightharpoonup> u64"

definition newCounter :: counter where
  "newCounter = \<lparr>byteCount = Map.empty, messageCount = Map.empty\<rparr>"

definition count_of :: "(string \<rightharpoonup> u64) \<Rightarrow> string \<Rightarrow> u64" where
  "count_of counts typ = (case counts typ of None \<Rightarrow> 0 | Some n \<Rightarrow> n)"

definition counter_Add :: "Message \<Rightarrow> nat \<Rightarrow> counter \<Rightarrow> counter" where
  "counter_Add msg n c =
     (let typ = TypeOf msg
      in c\<lparr>messageCount := (messageCount c)(typ \<mapsto> count_of (messageCount c) typ + 1),
           byteCount := (byteCount c)(typ \<mapsto> count_of (byteCount c) typ + of_nat n)\<rparr>)"

text \<open>\<open>Count\<close> copies both maps.\<close>

definition counter_Count :: "counter \<Rightarrow> counter" where
  "counter_Count c = \<lparr>byteCount = (\<lambda>k. byteCount c k), messageCount = (\<lambda>k. messageCount c k)\<rparr>"

section \<open>The transport of encoded messages\<close>

record 'p enc_transport =
  encoding_of :: "'p encoding"
  maxMessageSize :: i64
  rx :: u64
  tx :: u64
  txCounter :: counter
  rxCounter :: counter

definition NewTransport :: "'p encoding \<Rightarrow> i64 \<Rightarrow> 'p enc_transport" where
  "NewTransport e maxSize =
     \<lparr>encoding_of = e, maxMessageSize = maxSize, rx = 0, tx = 0, txCounter = newCounter, rxCounter = newCounter\<rparr>"

datatype ('t, 'p) enc_transport_error = Underlying 't | MessageTooLarge | Coding "'p enc_error"

definition validateMessageSize :: "i64 \<Rightarrow> i64 \<Rightarrow> ('t, 'p) enc_transport_error option" where
  "validateMessageSize maxSize target =
     (if maxSize = 0 then None else if sint maxSize < sint target then Some MessageTooLarge else None)"

text \<open>The underlying transport is a pair of functions on its state.\<close>

definition Transport_Read ::
    "('w \<Rightarrow> 'w \<times> ('t + bytes)) \<Rightarrow> 'p enc_transport \<Rightarrow> 'w \<Rightarrow>
      'p enc_transport \<times> 'w \<times> (('t, 'p) enc_transport_error + Message)" where
  "Transport_Read read c w =
     (case read w of
        (w, Inl err) \<Rightarrow> (c, w, Inl (Underlying err))
      | (w, Inr bs) \<Rightarrow>
          (case validateMessageSize (maxMessageSize c) (of_nat (length bs)) of
             Some err \<Rightarrow> (c, w, Inl err)
           | None \<Rightarrow>
               (case DecodeFrom (encoding_of c) bs of
                  Inl err \<Rightarrow> (c, w, Inl (Coding err))
                | Inr (n, m) \<Rightarrow> (c\<lparr>rx := rx c + 1, rxCounter := counter_Add m n (rxCounter c)\<rparr>, w, Inr m))))"

definition Transport_Write ::
    "(bytes \<Rightarrow> 'w \<Rightarrow> 'w \<times> 't option) \<Rightarrow> Message \<Rightarrow> 'p enc_transport \<Rightarrow> 'w \<Rightarrow>
      'p enc_transport \<times> 'w \<times> ('t, 'p) enc_transport_error option" where
  "Transport_Write write message c w =
     (case EncodeTo (encoding_of c) message of
        Inl err \<Rightarrow> (c, w, Some (Coding err))
      | Inr (buf, wrote) \<Rightarrow>
          (case write buf w of
             (w, Some err) \<Rightarrow> (c, w, Some (Underlying err))
           | (w, None) \<Rightarrow> (c\<lparr>tx := tx c + 1, txCounter := counter_Add message wrote (txCounter c)\<rparr>, w, None)))"

section \<open>Many messages\<close>

text \<open>
  A transport that takes every message, and one that returns those of a list; writing many messages, all with
  success, and reading many.
\<close>

definition push :: "bytes \<Rightarrow> bytes list \<Rightarrow> bytes list \<times> unit option" where
  "push bs q = (q @ [bs], None)"

definition pop :: "bytes list \<Rightarrow> bytes list \<times> (unit + bytes)" where
  "pop q = (case q of [] \<Rightarrow> ([], Inl ()) | bs # q \<Rightarrow> (q, Inr bs))"

fun Write_all :: "Message list \<Rightarrow> 'p enc_transport \<Rightarrow> bytes list \<Rightarrow> ('p enc_transport \<times> bytes list) option" where
  "Write_all [] c q = Some (c, q)"
| "Write_all (m # ms) c q =
     (case Transport_Write push m c q of (c, q, Some err) \<Rightarrow> None | (c, q, None) \<Rightarrow> Write_all ms c q)"

fun Read_all :: "bytes list \<Rightarrow> 'p enc_transport \<Rightarrow> 'p enc_transport \<times> ((unit, 'p) enc_transport_error + Message) list" where
  "Read_all [] c = (c, [])"
| "Read_all (bs # q) c =
     (case Transport_Read pop c (bs # q) of
        (c, _, res) \<Rightarrow> (case Read_all q c of (c, results) \<Rightarrow> (c, res # results)))"

end
