(* ===== verification/Quic.thy ===== *)
theory Quic
  imports Byte_Link Segment
begin

text \<open>
  The QUIC transport (\<open>src/transport/quic/transport.go\<close>, \<open>datagram.go\<close>): messages are framed by their length on a
  unidirectional stream, or segmented into datagrams. The library's errors are values of the type \<open>'e\<close>,
  \<open>isErrTransportClosed\<close> is a predicate on them.
\<close>

section \<open>State\<close>

record transport =
  compressConfig :: Config
  rxBytesCounter :: u64
  txBytesCounter :: u64
  sequenceNumber :: u32
  readBufferForUnreliable :: ReadBuffers

text \<open>\<open>New\<close> chooses the two functions by the configuration.\<close>

definition encodeFunc :: "'e flate_lib \<Rightarrow> transport \<Rightarrow> bytes \<Rightarrow> 'e + bytes" where
  "encodeFunc F t m =
     (if \<not> Enable (compressConfig t) then Inr m else deflate F (Level (compressConfig t)) [] m)"

definition decodeFunc :: "'e flate_lib \<Rightarrow> transport \<Rightarrow> bytes \<Rightarrow> 'e + bytes" where
  "decodeFunc F t bs = (if \<not> Enable (compressConfig t) then Inr bs else inflate F [] bs)"

text \<open>The expiry of the buffers: 10 seconds unless configured.\<close>

definition new_transport :: "NegotiationParams \<Rightarrow> Config \<Rightarrow> duration \<Rightarrow> transport" where
  "new_transport params config expiry =
     \<lparr>compressConfig = CompressConfig params config, rxBytesCounter = 0, txBytesCounter = 0,
      sequenceNumber = - 1,
      readBufferForUnreliable =
        \<lparr>Buffers = (\<lambda>k. None), ReadBufferExpiry = (if expiry = 0 then 10 * word_of_int Second else expiry)\<rparr>\<rparr>"

section \<open>Writing\<close>

text \<open>The stream as a writer on its own state.\<close>

definition writeTo :: "('w \<Rightarrow> bytes \<Rightarrow> 'w \<times> 'e option) \<Rightarrow> bytes \<Rightarrow> 'w \<Rightarrow> 'w \<times> ('e + nat)" where
  "writeTo wr payload w =
     (case wr w (be_bytes 4 (of_nat (length payload) :: u32)) of
        (w, Some err) \<Rightarrow> (w, Inl err)
      | (w, None) \<Rightarrow>
          (case wr w payload of
             (w, Some err) \<Rightarrow> (w, Inl err)
           | (w, None) \<Rightarrow> (w, Inr (4 + length payload))))"

text \<open>\<open>AlreadyClosed\<close> is an error that wraps \<open>transport.ErrAlreadyClosed\<close>.\<close>

datatype 'e transport_error = AlreadyClosed | Failure 'e | MessageInvalid

definition closed_error :: "('e \<Rightarrow> bool) \<Rightarrow> 'e \<Rightarrow> 'e transport_error" where
  "closed_error isErrTransportClosed err = (if isErrTransportClosed err then AlreadyClosed else Failure err)"

definition Write ::
    "('e \<Rightarrow> bool) \<Rightarrow> 'e flate_lib \<Rightarrow> ('w \<Rightarrow> bytes \<Rightarrow> 'w \<times> 'e option) \<Rightarrow> bytes \<Rightarrow> transport \<Rightarrow> 'w \<Rightarrow>
      transport \<times> 'w \<times> 'e transport_error option" where
  "Write cl F wr m t w =
     (case encodeFunc F t m of
        Inl err \<Rightarrow> (t, w, Some (closed_error cl err))
      | Inr bs \<Rightarrow>
          (case writeTo wr bs w of
             (w, Inl err) \<Rightarrow> (t, w, Some (closed_error cl err))
           | (w, Inr n) \<Rightarrow> (t\<lparr>txBytesCounter := txBytesCounter t + of_nat n\<rparr>, w, None)))"

text \<open>\<open>WriteUnreliable\<close>, and \<open>Write\<close> of the datagram view, which also counts its own bytes.\<close>

definition WriteUnreliable ::
    "('e \<Rightarrow> bool) \<Rightarrow> 'e flate_lib \<Rightarrow> ('w, 'e) sender \<Rightarrow> bytes \<Rightarrow> transport \<Rightarrow> 'w \<Rightarrow>
      transport \<times> 'w \<times> 'e transport_error option" where
  "WriteUnreliable cl F conn m t w =
     (case encodeFunc F t m of
        Inl err \<Rightarrow> (t, w, Some (closed_error cl err))
      | Inr m \<Rightarrow>
          let t = t\<lparr>sequenceNumber := sequenceNumber t + 1\<rparr>
          in case SendTo conn (sequenceNumber t) m w of
               (w, Inl InvalidMessage) \<Rightarrow> (t, w, Some MessageInvalid)
             | (w, Inl (SenderError err)) \<Rightarrow> (t, w, Some (closed_error cl err))
             | (w, Inr n) \<Rightarrow> (t\<lparr>txBytesCounter := txBytesCounter t + of_nat n\<rparr>, w, None))"

definition datagram_Write ::
    "('e \<Rightarrow> bool) \<Rightarrow> 'e flate_lib \<Rightarrow> ('w, 'e) sender \<Rightarrow> bytes \<Rightarrow> transport \<times> u64 \<Rightarrow> 'w \<Rightarrow>
      (transport \<times> u64) \<times> 'w \<times> 'e transport_error option" where
  "datagram_Write cl F conn m d w =
     (case WriteUnreliable cl F conn m (fst d) w of
        (t, w, Some err) \<Rightarrow> ((t, snd d), w, Some err)
      | (t, w, None) \<Rightarrow> ((t, snd d + of_nat (length m)), w, None))"

section \<open>Reading\<close>

text \<open>
  \<open>decodeFrom\<close> on the bytes that have arrived; \<open>None\<close> waits. The number added to the counter is computed
  in 32 bits.
\<close>

datatype 'e decode_error = StreamFailed "'e stream_end" | DecodeFailed 'e

definition decodeFrom ::
    "'e flate_lib \<Rightarrow> bytes \<Rightarrow> 'e stream_end option \<Rightarrow> transport \<Rightarrow> (transport \<times> bytes \<times> ('e decode_error + bytes)) option" where
  "decodeFrom F bs end t =
     (case ReadFull_stream 4 bs end of
        None \<Rightarrow> None
      | Some (Inl err) \<Rightarrow> Some (t, [], Inl (StreamFailed err))
      | Some (Inr (bytesMsgLength, bs)) \<Rightarrow>
          let msgLength = be_word bytesMsgLength :: u32
          in case ReadFull_stream (unat msgLength) bs end of
               None \<Rightarrow> None
             | Some (Inl err) \<Rightarrow> Some (t, [], Inl (StreamFailed err))
             | Some (Inr (msg, bs)) \<Rightarrow>
                 let t = t\<lparr>rxBytesCounter := rxBytesCounter t + ucast (4 + msgLength)\<rparr>
                 in Some (t, bs, (case decodeFunc F t msg of Inl err \<Rightarrow> Inl (DecodeFailed err) | Inr m \<Rightarrow> Inr m)))"

text \<open>
  \<open>receiveMessage\<close>, where \<open>None\<close> is an unfinished message and a datagram that is too short panics, and the goroutine that
  calls it with each datagram it receives.
\<close>

definition receiveMessage ::
    "'e flate_lib \<Rightarrow> time \<Rightarrow> bytes \<Rightarrow> transport \<Rightarrow> seg_panic + transport \<times> ('e + bytes) option" where
  "receiveMessage F now bs t =
     bindE (Receive now bs (readBufferForUnreliable t)) (\<lambda>(buf, m).
     Inr (t\<lparr>readBufferForUnreliable := buf\<rparr>, map_option (decodeFunc F t) m))"

definition datagram_received ::
    "'e flate_lib \<Rightarrow> time \<Rightarrow> bytes \<Rightarrow> transport \<Rightarrow> seg_panic + transport \<times> ('e + bytes) option" where
  "datagram_received F now bs t =
     receiveMessage F now bs (t\<lparr>rxBytesCounter := rxBytesCounter t + of_nat (length bs)\<rparr>)"

definition clear_read_buffer :: "time \<Rightarrow> transport \<Rightarrow> transport" where
  "clear_read_buffer now t = t\<lparr>readBufferForUnreliable := RemoveExpired now (readBufferForUnreliable t)\<rparr>"

section \<open>Both ends of a stream\<close>

text \<open>
  The goroutine that reads the peer's stream, and the channel \<open>readC\<close>. Every error it puts there is
  wrapped in \<open>transport.ErrAlreadyClosed\<close> by \<open>handleError\<close>.
\<close>

datatype 'e read_set = SetMsg bytes | SetErr "'e decode_error"

datatype 'e reading = Accepting | Reading | Pushing "'e read_set" | ReadingEnded

text \<open>The result of \<open>Read\<close>; \<open>None\<close> is the closed channel.\<close>

fun Read :: "'e read_set option \<Rightarrow> 'e transport_error + bytes" where
  "Read None = Inl AlreadyClosed"
| "Read (Some (SetErr err)) = Inl AlreadyClosed"
| "Read (Some (SetMsg m)) = Inr m"

text \<open>\<open>Read\<close> of the datagram view, from the channel \<open>readUnreliableC\<close>, also counts its bytes.\<close>

definition datagram_Read :: "'e read_set option \<Rightarrow> u64 \<Rightarrow> u64 \<times> ('e transport_error + bytes)" where
  "datagram_Read s rx = (case Read s of Inl err \<Rightarrow> (rx, Inl err) | Inr m \<Rightarrow> (rx + of_nat (length m), Inr m))"

text \<open>
  \<open>flow\<close> are the bytes on the network, \<open>arrived\<close> those the reader has not taken. A stream that failed a
  write (\<open>broken\<close>) takes no further one. \<open>written\<close> are the messages whose bytes were handed to the stream, the last
  perhaps in part, \<open>received\<close> those that \<open>Read\<close> returned.
\<close>

record 'e qworld =
  sender :: transport
  receiver :: transport
  flow :: bytes
  arrived :: bytes
  broken :: bool
  ended :: "'e stream_end option"
  reading :: "'e reading"
  readC :: "'e read_set list"
  queueSize :: nat
  cancelled :: bool
  written :: "bytes list"
  received :: "bytes list"

definition qworld_init :: "transport \<Rightarrow> transport \<Rightarrow> nat \<Rightarrow> 'e qworld" where
  "qworld_init s r n =
     \<lparr>sender = s, receiver = r, flow = [], arrived = [], broken = False, ended = None, reading = Accepting, readC = [],
      queueSize = (if n = 0 then 32 else n), cancelled = False, written = [], received = []\<rparr>"

text \<open>\<open>Close\<close>, with the error of the library's \<open>CloseWithError\<close>: the goroutines are cancelled in any case.\<close>

definition Close :: "('e \<Rightarrow> bool) \<Rightarrow> 'e option \<Rightarrow> 'e qworld \<Rightarrow> 'e qworld \<times> 'e transport_error option" where
  "Close cl err w = (w\<lparr>cancelled := True\<rparr>, map_option (closed_error cl) err)"

text \<open>The stream's own part of a write: all bytes, or some of them and an error.\<close>

definition stream_write :: "bytes \<Rightarrow> bytes \<Rightarrow> bytes \<times> 'e option" where
  "stream_write w bs = (w @ bs, None)"

definition after_read :: "bool \<Rightarrow> 'e read_set \<Rightarrow> 'e reading" where
  "after_read done s = (if done then ReadingEnded else (case s of SetMsg m \<Rightarrow> Reading | SetErr err \<Rightarrow> ReadingEnded))"

inductive qstep :: "'e flate_lib \<Rightarrow> 'e qworld \<Rightarrow> 'e qworld \<Rightarrow> bool" for F where
  WriteDone: "\<not> broken w \<Longrightarrow> Write cl F stream_write m (sender w) (flow w) = (t, fl, None) \<Longrightarrow>
    qstep F w (w\<lparr>sender := t, flow := fl, written := written w @ [m]\<rparr>)"
| WriteCut: "\<not> broken w \<Longrightarrow> Write cl F stream_write m (sender w) (flow w) = (t, fl, None) \<Longrightarrow> length (flow w) \<le> k \<Longrightarrow>
    qstep F w (w\<lparr>flow := take k fl, broken := True, written := written w @ [m]\<rparr>)"
| Deliver: "ended w = None \<Longrightarrow> qstep F w (w\<lparr>flow := drop k (flow w), arrived := arrived w @ take k (flow w)\<rparr>)"
| StreamEnds: "ended w = None \<Longrightarrow> qstep F w (w\<lparr>ended := Some e, broken := True\<rparr>)"
| Accept: "reading w = Accepting \<Longrightarrow> qstep F w (w\<lparr>reading := Reading\<rparr>)"
| AcceptFails: "reading w = Accepting \<Longrightarrow> qstep F w (w\<lparr>reading := Pushing (SetErr (StreamFailed (StreamError e)))\<rparr>)"
| Decode: "reading w = Reading \<Longrightarrow> decodeFrom F (arrived w) (ended w) (receiver w) = Some (t, bs, res) \<Longrightarrow>
    qstep F w (w\<lparr>receiver := t, arrived := bs,
      reading := Pushing (case res of Inl err \<Rightarrow> SetErr err | Inr m \<Rightarrow> SetMsg m)\<rparr>)"
| Push: "reading w = Pushing s \<Longrightarrow> length (readC w) < queueSize w \<Longrightarrow>
    qstep F w (w\<lparr>readC := readC w @ [s], reading := after_read False s\<rparr>)"
| PushCancelled: "reading w = Pushing s \<Longrightarrow> cancelled w \<Longrightarrow> qstep F w (w\<lparr>reading := after_read True s\<rparr>)"
| ReadSet: "readC w = s # ss \<Longrightarrow> Read (Some s) = res \<Longrightarrow>
    qstep F w (w\<lparr>readC := ss, received := received w @ (case res of Inl err \<Rightarrow> [] | Inr m \<Rightarrow> [m])\<rparr>)"
| Cancel: "Close cl err w = (w', res) \<Longrightarrow> qstep F w w'"

text \<open>The ends of a stream are configured alike; the messages of a run are short enough for their length to be written.\<close>

definition frame :: "'e flate_lib \<Rightarrow> transport \<Rightarrow> bytes \<Rightarrow> bytes" where
  "frame F t m = (case encodeFunc F t m of Inl err \<Rightarrow> [] | Inr bs \<Rightarrow> be_bytes 4 (of_nat (length bs) :: u32) @ bs)"

definition fits :: "'e flate_lib \<Rightarrow> transport \<Rightarrow> bytes \<Rightarrow> bool" where
  "fits F t m \<longleftrightarrow> (case encodeFunc F t m of Inl err \<Rightarrow> False | Inr bs \<Rightarrow> length bs < 2 ^ 32 - 4)"

definition qstart :: "'e qworld \<Rightarrow> bool" where
  "qstart w \<longleftrightarrow>
     (\<exists>ps cs es pr cr er n. w = qworld_init (new_transport ps cs es) (new_transport pr cr er) n \<and>
        CompressConfig ps cs = CompressConfig pr cr)"

definition qsmall :: "'e flate_lib \<Rightarrow> 'e qworld \<Rightarrow> bool" where
  "qsmall F w \<longleftrightarrow> flate_ok F \<and> list_all (fits F (sender w)) (written w)"

end
