(* ===== verification/Quic_Properties.thy ===== *)
theory Quic_Properties
  imports Quic
begin

text \<open>
  The messages of a QUIC stream arrive in the order in which they were written, each once and
  unchanged, in every interleaving of the writer, the network, the reading goroutine and \<open>Read\<close>.
\<close>

section \<open>One frame\<close>

lemma frame_cong: "compressConfig s = compressConfig t \<Longrightarrow> frame F s = frame F t"
  by (simp add: frame_def encodeFunc_def fun_eq_iff)

lemma fits_cong: "compressConfig s = compressConfig t \<Longrightarrow> fits F s = fits F t"
  by (simp add: fits_def encodeFunc_def fun_eq_iff)

lemma decode_encodeFunc:
  "flate_ok F \<Longrightarrow> compressConfig s = compressConfig t \<Longrightarrow> encodeFunc F s m = Inr bs \<Longrightarrow> decodeFunc F t bs = Inr m"
  by (auto simp: encodeFunc_def decodeFunc_def inflate_deflate split: if_splits)

lemma Write_stream:
  "Write cl F stream_write m t fl = (t', fl', None) \<longleftrightarrow>
     (\<exists>bs. encodeFunc F t m = Inr bs \<and> fl' = fl @ frame F t m \<and>
        t' = t\<lparr>txBytesCounter := txBytesCounter t + of_nat (length (frame F t m))\<rparr>)"
  by (auto simp: Write_def writeTo_def stream_write_def frame_def closed_error_def split: sum.splits)

lemma fits_frame:
  assumes "fits F s m"
  obtains bs where "encodeFunc F s m = Inr bs" "length bs < 2 ^ 32 - 4"
    "frame F s m = be_bytes 4 (of_nat (length bs) :: u32) @ bs"
  using assms by (auto simp: fits_def frame_def split: sum.splits)

lemma unat_u32: "n < 2 ^ 32 \<Longrightarrow> unat (of_nat n :: u32) = n"
  by (simp add: unsigned_of_nat take_bit_nat_eq_self)

lemma counted: "n < 2 ^ 32 - 4 \<Longrightarrow> (ucast (4 + of_nat n :: u32) :: u64) = of_nat (4 + n)"
proof -
  assume n: "n < 2 ^ 32 - 4"
  have "unat (4 + of_nat n :: u32) = 4 + n"
    using unat_u32 [of "4 + n"] n by simp
  then have "of_nat (unat (4 + of_nat n :: u32)) = (of_nat (4 + n) :: u64)"
    by simp
  then show ?thesis
    by simp
qed

text \<open>
  The reader takes the bytes of a first part of the frames in hand; it stops at an error of the stream or
  takes exactly the first frame.
\<close>

lemma decodeFrom_frames:
  assumes dec: "decodeFrom F xs e r = Some (t, xs', res)"
    and bytes: "prefix (xs @ fl) (concat (map (frame F s) rest))"
    and ok: "flate_ok F" "compressConfig s = compressConfig r" "list_all (fits F s) rest"
  shows "(\<exists>err. res = Inl (StreamFailed err)) \<and> t = r \<or>
    (\<exists>m rest'. rest = m # rest' \<and> res = Inr m \<and> xs = frame F s m @ xs' \<and>
       t = r\<lparr>rxBytesCounter := rxBytesCounter r + of_nat (length (frame F s m))\<rparr>)"
proof (cases "4 \<le> length xs")
  case False
  then show ?thesis
    using dec by (auto simp: decodeFrom_def ReadFull_stream_def split: option.splits if_splits)
next
  case True
  with bytes obtain m rest' where rest: "rest = m # rest'"
    by (cases rest) auto
  with ok(3) obtain bs where enc: "encodeFunc F s m = Inr bs" and len: "length bs < 2 ^ 32 - 4"
    and fr: "frame F s m = be_bytes 4 (of_nat (length bs) :: u32) @ bs"
    by (auto elim: fits_frame)
  have start: "take k xs = take k (frame F s m)" if "k \<le> length xs" "k \<le> length (frame F s m)" for k
  proof -
    from bytes rest obtain zs where "frame F s m @ concat (map (frame F s) rest') = xs @ zs"
      by (auto simp: prefix_def)
    from arg_cong [OF this, of "take k"] that show ?thesis
      by simp
  qed
  have head: "take 4 xs = be_bytes 4 (of_nat (length bs) :: u32)"
    using start [of 4] True by (simp add: fr)
  have u: "unat (of_nat (length bs) :: u32) = length bs"
    using len by (intro unat_u32) simp
  show ?thesis
  proof (cases "length bs \<le> length (drop 4 xs)")
    case short: False
    then show ?thesis
      using dec True by (auto simp: decodeFrom_def ReadFull_stream_def head u split: option.splits)
  next
    case long: True
    then have "take (4 + length bs) xs = frame F s m"
      using start [of "4 + length bs"] True by (simp add: fr)
    then have whole: "xs = frame F s m @ drop (4 + length bs) xs"
      by (metis append_take_drop_id)
    then have "drop 4 xs = drop 4 (frame F s m @ drop (4 + length bs) xs)"
      by (rule arg_cong)
    then have body: "take (length bs) (drop 4 xs) = bs"
      by (simp add: fr del: drop_drop)
    have "t = r\<lparr>rxBytesCounter := rxBytesCounter r + of_nat (4 + length bs)\<rparr>" "xs' = drop (4 + length bs) xs" "res = Inr m"
      using dec True long decode_encodeFunc [OF ok(1) _ enc] ok(2) counted [OF len]
      by (auto simp: decodeFrom_def ReadFull_stream_def head u body Let_def add.commute split: option.splits)
    then show ?thesis
      using rest whole by (simp add: fr)
  qed
qed

section \<open>The invariant\<close>

text \<open>What the reading side has in hand, and whether its goroutine may still decode.\<close>

definition msgs :: "'e read_set list \<Rightarrow> bytes list" where
  "msgs ss = concat (map (\<lambda>s. case s of SetMsg m \<Rightarrow> [m] | SetErr err \<Rightarrow> []) ss)"

fun in_hand :: "'e reading \<Rightarrow> 'e read_set list" where
  "in_hand (Pushing s) = [s]" | "in_hand _ = []"

definition live :: "'e reading \<Rightarrow> bool" where
  "live r \<longleftrightarrow> r \<noteq> ReadingEnded \<and> (\<forall>err. r \<noteq> Pushing (SetErr err))"

definition passed :: "'e qworld \<Rightarrow> bytes list" where
  "passed w = received w @ msgs (readC w @ in_hand (reading w))"

definition qinv :: "'e flate_lib \<Rightarrow> 'e qworld \<Rightarrow> bool" where
  "qinv F w \<longleftrightarrow>
     compressConfig (sender w) = compressConfig (receiver w) \<and>
     prefix (passed w) (written w) \<and>
     (live (reading w) \<longrightarrow>
       (\<exists>rest. written w = passed w @ rest \<and>
          prefix (arrived w @ flow w) (concat (map (frame F (sender w)) rest)) \<and>
          (broken w \<or> arrived w @ flow w = concat (map (frame F (sender w)) rest) \<and>
             txBytesCounter (sender w) = rxBytesCounter (receiver w) + of_nat (length (arrived w @ flow w)))))"

lemma msgs_simps [simp]:
  "msgs [] = []" "msgs (SetMsg m # ss) = m # msgs ss" "msgs (SetErr err # ss) = msgs ss" "msgs (ss @ ss') = msgs ss @ msgs ss'"
  by (simp_all add: msgs_def)

lemma qinvI:
  assumes "compressConfig (sender w) = compressConfig (receiver w)"
    and "written w = passed w @ rest"
    and "prefix (arrived w @ flow w) (concat (map (frame F (sender w)) rest))"
    and "broken w \<or> arrived w @ flow w = concat (map (frame F (sender w)) rest) \<and>
      txBytesCounter (sender w) = rxBytesCounter (receiver w) + of_nat (length (arrived w @ flow w))"
  shows "qinv F w"
  unfolding qinv_def using assms by (auto simp: prefix_def)

lemma qinv_live:
  assumes "qinv F w" "live (reading w)"
  obtains rest where "written w = passed w @ rest"
    "prefix (arrived w @ flow w) (concat (map (frame F (sender w)) rest))"
    "broken w \<or> arrived w @ flow w = concat (map (frame F (sender w)) rest) \<and>
      txBytesCounter (sender w) = rxBytesCounter (receiver w) + of_nat (length (arrived w @ flow w))"
  using assms unfolding qinv_def by blast

lemma qinv_start: "qstart w \<Longrightarrow> qinv F w"
  by (auto simp: qstart_def qworld_init_def new_transport_def passed_def intro!: qinvI [where rest = "[]"])

text \<open>A message is written: the bytes after those of the frames before it, all of them or some.\<close>

lemma qinv_write:
  assumes "qinv F w" "\<not> broken w" "Write cl F stream_write m (sender w) (flow w) = (t, fl, None)"
  shows "qinv F (w\<lparr>sender := t, flow := fl, written := written w @ [m]\<rparr>)"
    and "length (flow w) \<le> k \<Longrightarrow> qinv F (w\<lparr>flow := take k fl, broken := True, written := written w @ [m]\<rparr>)"
proof -
  let ?f = "frame F (sender w)"
  from assms(3) have fl: "fl = flow w @ ?f m"
    and t: "t = (sender w)\<lparr>txBytesCounter := txBytesCounter (sender w) + of_nat (length (?f m))\<rparr>"
    by (auto simp: Write_stream)
  have fc: "frame F t = ?f"
    by (rule frame_cong) (simp add: t)
  have cfg: "compressConfig (sender w) = compressConfig (receiver w)" "compressConfig t = compressConfig (receiver w)"
    using assms(1) by (simp_all add: qinv_def t)
  show "qinv F (w\<lparr>sender := t, flow := fl, written := written w @ [m]\<rparr>)"
  proof (cases "live (reading w)")
    case True
    obtain rest where rest: "written w = passed w @ rest" "arrived w @ flow w = concat (map ?f rest)"
      "txBytesCounter (sender w) = rxBytesCounter (receiver w) + of_nat (length (arrived w @ flow w))"
      using qinv_live [OF assms(1) True] assms(2) by metis
    from rest(2) have bytes: "arrived w @ fl = concat (map ?f (rest @ [m]))"
      by (simp add: fl flip: append_assoc)
    have "txBytesCounter t = rxBytesCounter (receiver w) + of_nat (length (arrived w @ fl))"
      by (simp add: t rest(3) fl add.assoc)
    with rest(1) cfg show ?thesis
      by (intro qinvI [where rest = "rest @ [m]"])
        (simp_all add: passed_def fc bytes del: length_append concat_append map_append)
  qed (use assms(1) in \<open>auto simp: qinv_def passed_def t intro: prefix_order.trans\<close>)
  show "qinv F (w\<lparr>flow := take k fl, broken := True, written := written w @ [m]\<rparr>)" if "length (flow w) \<le> k"
  proof (cases "live (reading w)")
    case True
    obtain rest where rest: "written w = passed w @ rest" "arrived w @ flow w = concat (map ?f rest)"
      using qinv_live [OF assms(1) True] assms(2) by metis
    have "arrived w @ take k fl = concat (map ?f rest) @ take (k - length (flow w)) (?f m)"
      using that by (simp add: fl flip: append_assoc rest(2))
    then have "prefix (arrived w @ take k fl) (concat (map ?f (rest @ [m])))"
      by (simp add: take_is_prefix)
    with rest(1) cfg show ?thesis
      by (intro qinvI [where rest = "rest @ [m]"]) (simp_all add: passed_def)
  qed (use assms(1) in \<open>auto simp: qinv_def passed_def intro: prefix_order.trans\<close>)
qed

text \<open>The bytes move on, or the stream ends.\<close>

lemma qinv_deliver: "qinv F w \<Longrightarrow> qinv F (w\<lparr>flow := drop k (flow w), arrived := arrived w @ take k (flow w)\<rparr>)"
  by (simp add: qinv_def passed_def)

lemma qinv_ends: "qinv F w \<Longrightarrow> qinv F (w\<lparr>ended := e, broken := True\<rparr>)"
  by (auto simp: qinv_def passed_def)

text \<open>The goroutine's steps.\<close>

lemma qinv_decode:
  assumes "qinv F w" "reading w = Reading" "decodeFrom F (arrived w) (ended w) (receiver w) = Some (t, bs, res)"
    and "qsmall F w"
  shows "qinv F (w\<lparr>receiver := t, arrived := bs, reading := Pushing (case res of Inl err \<Rightarrow> SetErr err | Inr m \<Rightarrow> SetMsg m)\<rparr>)"
    (is "qinv F ?w")
proof -
  let ?f = "frame F (sender w)"
  have cfg: "compressConfig (sender w) = compressConfig (receiver w)"
    using assms(1) by (simp add: qinv_def)
  have "live (reading w)"
    using assms(2) by (simp add: live_def)
  then obtain rest where w: "written w = passed w @ rest"
    and bytes: "prefix (arrived w @ flow w) (concat (map ?f rest))"
    and eq: "broken w \<or> arrived w @ flow w = concat (map ?f rest) \<and>
      txBytesCounter (sender w) = rxBytesCounter (receiver w) + of_nat (length (arrived w @ flow w))"
    by (rule qinv_live [OF assms(1)])
  have "list_all (fits F (sender w)) rest" "flate_ok F"
    using assms(4) by (simp_all add: qsmall_def w)
  from decodeFrom_frames [OF assms(3) bytes this(2) cfg this(1)] show ?thesis
  proof (elim disjE conjE exE)
    fix err
    assume "res = Inl (StreamFailed err)" "t = receiver w"
    with w cfg assms(2) show ?thesis
      by (auto simp: qinv_def live_def passed_def prefix_def)
  next
    fix m rest'
    assume m: "rest = m # rest'" "res = Inr m" and arr: "arrived w = ?f m @ bs"
      and t: "t = receiver w\<lparr>rxBytesCounter := rxBytesCounter (receiver w) + of_nat (length (?f m))\<rparr>"
    show ?thesis
      using w cfg bytes eq assms(2)
      by (intro qinvI [where rest = rest']) (auto simp: passed_def m t arr)
  qed
qed

lemma qinv_hand:
  assumes "qinv F w" "reading w = Pushing s"
  shows "qinv F (w\<lparr>readC := readC w @ [s], reading := after_read False s\<rparr>)"
    and "qinv F (w\<lparr>reading := after_read True s\<rparr>)"
  using assms by (auto simp: qinv_def passed_def after_read_def live_def prefix_def split: read_set.splits)

lemma qinv_read:
  assumes "qinv F w" "readC w = s # ss"
  shows "qinv F (w\<lparr>readC := ss, received := received w @ (case Read (Some s) of Inl err \<Rightarrow> [] | Inr m \<Rightarrow> [m])\<rparr>)"
  using assms by (cases s) (simp_all add: qinv_def passed_def)

section \<open>The link\<close>

text \<open>The part of the invariant that needs short messages holds as long as they were short.\<close>

definition quic_inv :: "'e flate_lib \<Rightarrow> 'e qworld \<Rightarrow> bool" where
  "quic_inv F w \<longleftrightarrow> (qsmall F w \<longrightarrow> qinv F w)"

lemma Write_config: "Write cl F stream_write m t fl = (t', fl', None) \<Longrightarrow> fits F t' = fits F t"
  by (rule fits_cong) (auto simp: Write_stream)

lemma qstep_small: "qstep F w w' \<Longrightarrow> qsmall F w' \<Longrightarrow> qsmall F w"
  by (erule qstep.cases) (auto simp: qsmall_def Write_config Close_def)

lemma quic_inv_step:
  assumes "qstep F w w'" "quic_inv F w"
  shows "quic_inv F w'"
proof -
  have "qinv F w'" if small: "qsmall F w'"
  proof -
    have inv: "qinv F w" and s: "qsmall F w"
      using qstep_small [OF assms(1) small] assms(2) by (simp_all add: quic_inv_def)
    show ?thesis
      using assms(1)
    proof cases
      case Accept
      with inv show ?thesis
        by (simp add: qinv_def passed_def live_def)
    next
      case AcceptFails
      with inv show ?thesis
        by (auto simp: qinv_def passed_def live_def)
    next
      case Cancel
      with inv show ?thesis
        by (auto simp: Close_def qinv_def passed_def)
    qed (use inv s in \<open>auto intro: qinv_write qinv_deliver qinv_ends qinv_decode qinv_hand qinv_read\<close>)
  qed
  then show ?thesis
    by (simp add: quic_inv_def)
qed

lemma qinv_prefix: "qinv F w \<Longrightarrow> prefix (received w) (written w)"
  unfolding qinv_def passed_def by (blast dest: append_prefixD)

interpretation quic: step_system qstart "qstep F" for F :: "'e flate_lib" .

lemma quic_reachable_inv: "quic.reachable F w \<Longrightarrow> quic_inv F w"
proof (induction rule: quic.invariant)
  case (Start w)
  then show ?case
    by (simp add: quic_inv_def qinv_start)
next
  case (Step w w')
  then show ?case
    using quic_inv_step by blast
qed

interpretation quic_link: ordered_link qstart "qstep F" "qsmall F" written received for F :: "'e flate_lib"
proof
  fix w
  assume "quic.reachable F w" "qsmall F w"
  then have "qinv F w"
    using quic_reachable_inv unfolding quic_inv_def by blast
  then show "prefix (received w) (written w)"
    by (rule qinv_prefix)
qed

section \<open>Theorems\<close>

text \<open>Nothing is on its way: all bytes have arrived and been decoded, and \<open>Read\<close> has returned every message.\<close>

definition settled :: "'e qworld \<Rightarrow> bool" where
  "settled w \<longleftrightarrow> \<not> broken w \<and> flow w = [] \<and> arrived w = [] \<and> reading w = Reading \<and> readC w = []"

text \<open>The frames of a link are not empty, so nothing is left when no bytes are.\<close>

lemma concat_frames_empty: "list_all (fits F s) ms \<Longrightarrow> concat (map (frame F s) ms) = [] \<Longrightarrow> ms = []"
proof (cases ms)
  case (Cons m ms')
  assume "list_all (fits F s) ms" "concat (map (frame F s) ms) = []"
  then have "frame F s m = []" "fits F s m"
    by (simp_all add: Cons)
  then show ?thesis
    by (simp add: frame_def fits_def split: sum.splits flip: length_0_conv)
qed simp

lemma quic_settled:
  assumes "quic.reachable F w" "qsmall F w" "settled w"
  shows "received w = written w \<and> txBytesCounter (sender w) = rxBytesCounter (receiver w)"
proof -
  have inv: "qinv F w" "live (reading w)"
    using quic_reachable_inv [OF assms(1)] assms(2,3) by (simp_all add: quic_inv_def settled_def live_def)
  obtain rest where rest: "written w = passed w @ rest"
    and "prefix (arrived w @ flow w) (concat (map (frame F (sender w)) rest))"
    and "broken w \<or> arrived w @ flow w = concat (map (frame F (sender w)) rest) \<and>
      txBytesCounter (sender w) = rxBytesCounter (receiver w) + of_nat (length (arrived w @ flow w))"
    by (rule qinv_live [OF inv])
  then have live: "concat (map (frame F (sender w)) rest) = []" "txBytesCounter (sender w) = rxBytesCounter (receiver w)"
    using assms(3) by (auto simp: settled_def)
  have "rest = []"
    using assms(2) unfolding qsmall_def rest by (intro concat_frames_empty [OF _ live(1)]) simp
  with live(2) show ?thesis
    using assms(3) rest by (simp add: passed_def settled_def)
qed

text \<open>
  C14: What \<open>Read\<close> returns at one end of a QUIC stream is a prefix of what was written at the other, for messages whose
  encoding is shorter than 2^32 - 4 bytes, in every interleaving with the network, its failures and \<open>Close\<close>: no message is
  cut, merged, reordered or read twice. When everything has arrived and been read, nothing is missing and the byte
  counters of the two ends agree.
\<close>

theorem quic_keeps_order:
  assumes "quic.reachable F w" and "flate_ok F" and "list_all (fits F (sender w)) (written w)"
  shows "prefix (received w) (written w) \<and>
    (\<not> settled w \<or> received w = written w \<and> txBytesCounter (sender w) = rxBytesCounter (receiver w))"
proof -
  have "qsmall F w"
    using assms(2,3) by (simp add: qsmall_def)
  with quic_link.in_order [OF assms(1) this] quic_settled [OF assms(1) this] show ?thesis
    by blast
qed

text \<open>A run: one message is written, arrives in two pieces, and is read.\<close>

definition no_flate :: "unit flate_lib" where
  "no_flate = \<lparr>deflate = (\<lambda>level dict m. Inl ()), inflate = (\<lambda>dict bs. Inl ())\<rparr>"

definition plain :: Config where
  "plain = \<lparr>Enable = False, Level = 0, DisableContextTakeover = False, WindowBits = 0\<rparr>"

definition sample_end :: "u64 \<Rightarrow> u64 \<Rightarrow> transport" where
  "sample_end tx rx = (new_transport zero_params plain 0)\<lparr>txBytesCounter := tx, rxBytesCounter := rx\<rparr>"

definition sample_w :: "u64 \<Rightarrow> u64 \<Rightarrow> bytes \<Rightarrow> bytes \<Rightarrow> unit reading \<Rightarrow> unit read_set list \<Rightarrow> bytes list \<Rightarrow> bytes list \<Rightarrow> unit qworld" where
  "sample_w tx rx fl arr r c ws rs =
     \<lparr>sender = sample_end tx 0, receiver = sample_end 0 rx, flow = fl, arrived = arr, broken = False, ended = None,
      reading = r, readC = c, queueSize = 32, cancelled = False, written = ws, received = rs\<rparr>"

lemmas sample_defs = sample_w_def sample_end_def new_transport_def plain_def zero_params_def CompressConfig_def

lemma sample_start: "quic.reachable no_flate (sample_w 0 0 [] [] Accepting [] [] [])"
proof (rule quic.reachable.Start)
  have "sample_w 0 0 [] [] Accepting [] [] [] = qworld_init (new_transport zero_params plain 0) (new_transport zero_params plain 0) 0"
    by (simp add: sample_defs qworld_init_def)
  then show "qstart (sample_w 0 0 [] [] Accepting [] [] [])"
    unfolding qstart_def by blast
qed

lemma length_bytes: "be_bytes 4 (2 :: u32) = [0, 0, 0, 2]" "be_word [0, 0, 0, 2] = (2 :: u32)"
  by code_simp+

lemma sample_run: "quic.reachable no_flate (sample_w 6 6 [] [] Reading [] [[7, 8]] [[7, 8]])"
proof -
  note step = quic.reachable.Step [THEN back_subst [where P = "quic.reachable _"]]
  have "quic.reachable no_flate (sample_w 6 0 [0, 0, 0, 2, 7, 8] [] Accepting [] [[7, 8]] [])"
    by (rule step [OF sample_start qstep.WriteDone [where m = "[7, 8]" and t = "sample_end 6 0" and fl = "[0, 0, 0, 2, 7, 8]"]])
      (simp_all add: sample_defs Write_def writeTo_def stream_write_def encodeFunc_def length_bytes)
  then have "quic.reachable no_flate (sample_w 6 0 [7, 8] [0, 0, 0, 2] Accepting [] [[7, 8]] [])"
    by (rule step [OF _ qstep.Deliver [where k = 4]]) (simp_all add: sample_defs numeral_eq_Suc)
  then have "quic.reachable no_flate (sample_w 6 0 [7, 8] [0, 0, 0, 2] Reading [] [[7, 8]] [])"
    by (rule step [OF _ qstep.Accept]) (simp_all add: sample_defs)
  then have "quic.reachable no_flate (sample_w 6 0 [] [0, 0, 0, 2, 7, 8] Reading [] [[7, 8]] [])"
    by (rule step [OF _ qstep.Deliver [where k = 2]]) (simp_all add: sample_defs numeral_eq_Suc)
  then have "quic.reachable no_flate (sample_w 6 6 [] [] (Pushing (SetMsg [7, 8])) [] [[7, 8]] [])"
    by (rule step [OF _ qstep.Decode [where t = "sample_end 0 6" and bs = "[]" and res = "Inr [7, 8]"]])
      (simp_all add: sample_defs decodeFrom_def ReadFull_stream_def decodeFunc_def length_bytes)
  then have "quic.reachable no_flate (sample_w 6 6 [] [] Reading [SetMsg [7, 8]] [[7, 8]] [])"
    by (rule step [OF _ qstep.Push [where s = "SetMsg [7, 8]"]]) (simp_all add: sample_defs after_read_def)
  then show ?thesis
    by (rule step [OF _ qstep.ReadSet [where s = "SetMsg [7, 8]" and ss = "[]" and res = "Inr [7, 8]"]]) (simp_all add: sample_defs)
qed

definition sample_done :: "unit qworld" where
  "sample_done = sample_w 6 6 [] [] Reading [] [[7, 8]] [[7, 8]]"

theorem quic_keeps_order_witness:
  "settled sample_done \<and> received sample_done = written sample_done \<and>
   txBytesCounter (sender sample_done) = rxBytesCounter (receiver sample_done)"
proof -
  have "settled sample_done"
    by (simp add: sample_done_def sample_defs settled_def)
  moreover have "list_all (fits no_flate (sender sample_done)) (written sample_done)"
    by (simp add: sample_done_def sample_defs fits_def encodeFunc_def)
  ultimately show ?thesis
    using quic_keeps_order [OF sample_run [folded sample_done_def]] by (simp add: flate_ok_def no_flate_def)
qed

end
