(* ===== verification/Websocket.thy ===== *)
theory Websocket
  imports Byte_Link
begin

text \<open>
  The websocket transport (\<open>src/transport/websocket/transport.go\<close>): one websocket message for each
  message, as it is, compressed on its own, or compressed with the messages before it as the dictionary, a window of
  which both ends keep. The websocket library delivers whole messages in order; the reads of \<open>io.Copy\<close> see one
  message to its end. Its timeouts and metrics are not modelled.
\<close>

section \<open>State\<close>

record ws_transport =
  compressConfig :: Config
  writeWindowBuf :: bytes
  readWindowBuf :: bytes
  rxBytesCounter :: u64
  txBytesCounter :: u64

definition new_ws :: "NegotiationParams \<Rightarrow> Config \<Rightarrow> ws_transport" where
  "new_ws params config =
     \<lparr>compressConfig = CompressConfig params config, writeWindowBuf = [], readWindowBuf = [], rxBytesCounter = 0, txBytesCounter = 0\<rparr>"

datatype 'e ws_error = Panic go_panic | Failed 'e

section \<open>The window\<close>

text \<open>\<open>bytes.Buffer.Next(n)\<close>, which panics when \<open>n\<close> is negative.\<close>

definition Next :: "i64 \<Rightarrow> bytes \<Rightarrow> go_panic + bytes" where
  "Next n buf = (if sint n < 0 then Inl SliceBounds else Inr (drop (nat (sint n)) buf))"

definition trim_window :: "Config \<Rightarrow> bytes \<Rightarrow> go_panic + bytes" where
  "trim_window c buf =
     bindE (WindowSize c) (\<lambda>size.
     let len = of_nat (length buf) :: i64
     in if sint size < sint len then Next (len - size) buf else Inr buf)"

section \<open>Encoding and decoding\<close>

text \<open>
  The three functions \<open>encodeTo\<close>: what is written to the websocket message, and the number of bytes. In the
  last one the window is trimmed before the compressed bytes are copied to the message.
\<close>

definition encodeToWithCompression :: "'e flate_lib \<Rightarrow> bytes \<Rightarrow> ws_transport \<Rightarrow> ws_transport \<times> ('e ws_error + bytes)" where
  "encodeToWithCompression F bs t =
     (case deflate F (Level (compressConfig t)) [] bs of Inl err \<Rightarrow> (t, Inl (Failed err)) | Inr buf \<Rightarrow> (t, Inr buf))"

definition encodeToWithContextTakeover :: "'e flate_lib \<Rightarrow> bytes \<Rightarrow> ws_transport \<Rightarrow> ws_transport \<times> ('e ws_error + bytes)" where
  "encodeToWithContextTakeover F bs t =
     (case deflate F (Level (compressConfig t)) (writeWindowBuf t) bs of
        Inl err \<Rightarrow> (t, Inl (Failed err))
      | Inr buf \<Rightarrow>
          let t = t\<lparr>writeWindowBuf := writeWindowBuf t @ bs\<rparr>
          in case trim_window (compressConfig t) (writeWindowBuf t) of
               Inl p \<Rightarrow> (t, Inl (Panic p))
             | Inr win \<Rightarrow> (t\<lparr>writeWindowBuf := win\<rparr>, Inr buf))"

definition encodeTo :: "'e flate_lib \<Rightarrow> bytes \<Rightarrow> ws_transport \<Rightarrow> ws_transport \<times> ('e ws_error + bytes)" where
  "encodeTo F bs t =
     (if \<not> Enable (compressConfig t) then (t, Inr bs)
      else if DisableContextTakeover (compressConfig t) then encodeToWithCompression F bs t
      else encodeToWithContextTakeover F bs t)"

text \<open>The three functions \<open>decodeFrom\<close>, on the bytes of one websocket message.\<close>

definition decodeFromWithCompression :: "'e flate_lib \<Rightarrow> bytes \<Rightarrow> ws_transport \<Rightarrow> ws_transport \<times> ('e ws_error + bytes)" where
  "decodeFromWithCompression F raw t =
     (case inflate F [] raw of Inl err \<Rightarrow> (t, Inl (Failed err)) | Inr m \<Rightarrow> (t, Inr m))"

definition decodeFromWithContextTakeover :: "'e flate_lib \<Rightarrow> bytes \<Rightarrow> ws_transport \<Rightarrow> ws_transport \<times> ('e ws_error + bytes)" where
  "decodeFromWithContextTakeover F raw t =
     (case inflate F (readWindowBuf t) raw of
        Inl err \<Rightarrow> (t, Inl (Failed err))
      | Inr m \<Rightarrow>
          let t = t\<lparr>readWindowBuf := readWindowBuf t @ m\<rparr>
          in case trim_window (compressConfig t) (readWindowBuf t) of
               Inl p \<Rightarrow> (t, Inl (Panic p))
             | Inr win \<Rightarrow> (t\<lparr>readWindowBuf := win\<rparr>, Inr m))"

definition decodeFrom :: "'e flate_lib \<Rightarrow> bytes \<Rightarrow> ws_transport \<Rightarrow> ws_transport \<times> ('e ws_error + bytes)" where
  "decodeFrom F raw t =
     (if \<not> Enable (compressConfig t) then (t, Inr raw)
      else if DisableContextTakeover (compressConfig t) then decodeFromWithCompression F raw t
      else decodeFromWithContextTakeover F raw t)"

section \<open>Read and Write\<close>

text \<open>
  \<open>Write\<close>, with the message writer the library gives: \<open>None\<close> when it gives none, and whether it accepts the
  bytes and its \<open>Close\<close> succeeds. The result says what the peer will read: when the encoding failed, \<open>Close\<close> still
  ends the message, an empty one. \<open>NoWriter\<close>, \<open>EncodeError\<close> and \<open>CloseError\<close> are the three errors.
\<close>

datatype 'e write_error = NoWriter | EncodeError "'e ws_error" | CopyError | CloseError

record message_writer =
  accepts :: bool
  closes :: bool

definition Write ::
    "'e flate_lib \<Rightarrow> message_writer option \<Rightarrow> bytes \<Rightarrow> ws_transport \<Rightarrow> ws_transport \<times> bytes option \<times> 'e write_error option" where
  "Write F writer bs t =
     (case writer of
        None \<Rightarrow> (t, None, Some NoWriter)
      | Some wr \<Rightarrow>
          (case encodeTo F bs t of
             (t, Inl (Panic p)) \<Rightarrow> (t, None, Some (EncodeError (Panic p)))
           | (t, Inl (Failed err)) \<Rightarrow> (t, if closes wr then Some [] else None, Some (EncodeError (Failed err)))
           | (t, Inr buf) \<Rightarrow>
               if \<not> accepts wr then (t, None, Some CopyError)
               else
                 let t = t\<lparr>txBytesCounter := txBytesCounter t + of_nat (length buf)\<rparr>
                 in if closes wr then (t, Some buf, None) else (t, None, Some CloseError)))"

text \<open>\<open>Read\<close> of the next websocket message.\<close>

definition Read :: "'e flate_lib \<Rightarrow> bytes \<Rightarrow> ws_transport \<Rightarrow> ws_transport \<times> ('e ws_error + bytes)" where
  "Read F raw t =
     (case decodeFrom F raw t of
        (t, Inl err) \<Rightarrow> (t, Inl err)
      | (t, Inr m) \<Rightarrow> (t\<lparr>rxBytesCounter := rxBytesCounter t + of_nat (length raw)\<rparr>, Inr m))"

section \<open>Both ends\<close>

text \<open>
  \<open>on_wire\<close> are the websocket messages not yet read. A connection whose message writer failed (\<open>broken\<close>) gives no
  further one, but after an error of the compression the writes go on; a \<open>Read\<close> that failed is the last (\<open>failure\<close>). \<open>written\<close> are the messages that were encoded, \<open>received\<close>
  those that \<open>Read\<close> returned.
\<close>

record 'e wsworld =
  sender :: ws_transport
  receiver :: ws_transport
  on_wire :: "bytes list"
  broken :: bool
  failure :: "'e ws_error option"
  written :: "bytes list"
  received :: "bytes list"

definition wsworld_init :: "ws_transport \<Rightarrow> ws_transport \<Rightarrow> 'e wsworld" where
  "wsworld_init s r =
     \<lparr>sender = s, receiver = r, on_wire = [], broken = False, failure = None, written = [], received = []\<rparr>"

definition ws_write :: "'e flate_lib \<Rightarrow> message_writer \<Rightarrow> bytes \<Rightarrow> 'e wsworld \<Rightarrow> 'e wsworld" where
  "ws_write F wr m w =
     (case Write F (Some wr) m (sender w) of
        (t, frame, err) \<Rightarrow>
          w\<lparr>sender := t, on_wire := on_wire w @ (case frame of None \<Rightarrow> [] | Some f \<Rightarrow> [f]),
            broken := (case err of None \<Rightarrow> False | Some (EncodeError (Failed e)) \<Rightarrow> False | Some e \<Rightarrow> True), written := written w @ [m]\<rparr>)"

definition ws_read :: "'e flate_lib \<Rightarrow> bytes \<Rightarrow> bytes list \<Rightarrow> 'e wsworld \<Rightarrow> 'e wsworld" where
  "ws_read F raw rest w =
     (case Read F raw (receiver w) of
        (t, Inl err) \<Rightarrow> w\<lparr>receiver := t, on_wire := rest, failure := Some err\<rparr>
      | (t, Inr m) \<Rightarrow> w\<lparr>receiver := t, on_wire := rest, received := received w @ [m]\<rparr>)"

inductive wsstep :: "'e flate_lib \<Rightarrow> 'e wsworld \<Rightarrow> 'e wsworld \<Rightarrow> bool" for F where
  WsWrite: "\<not> broken w \<Longrightarrow> wsstep F w (ws_write F wr m w)"
| WsRead: "on_wire w = raw # rest \<Longrightarrow> failure w = None \<Longrightarrow> wsstep F w (ws_read F raw rest w)"
| WsLost: "wsstep F w (w\<lparr>on_wire := take k (on_wire w), broken := True\<rparr>)"
| WsReadFails: "wsstep F w (w\<lparr>failure := Some e\<rparr>)"

definition wsstart :: "'e wsworld \<Rightarrow> bool" where
  "wsstart w \<longleftrightarrow> (\<exists>ps cs pr cr. w = wsworld_init (new_ws ps cs) (new_ws pr cr) \<and> CompressConfig ps cs = CompressConfig pr cr)"

text \<open>
  What a link needs of the negotiated configuration: the compression accepts its level, the window's bits are in range.
\<close>

definition level_accepted :: "'e flate_lib \<Rightarrow> i64 \<Rightarrow> bool" where
  "level_accepted F level \<longleftrightarrow> (\<forall>dict m. \<not> isl (deflate F level dict m))"

definition ws_ok :: "'e flate_lib \<Rightarrow> 'e wsworld \<Rightarrow> bool" where
  "ws_ok F w \<longleftrightarrow> flate_ok F \<and>
     (Enable (compressConfig (sender w)) \<longrightarrow> level_accepted F (Level (compressConfig (sender w))) \<and>
        0 \<le> sint (WindowBits (compressConfig (sender w))) \<and> sint (WindowBits (compressConfig (sender w))) \<le> 32)"

end
