(* ===== verification/Websocket_Properties.thy ===== *)
theory Websocket_Properties
  imports Websocket
begin

text \<open>
  The two windows of a websocket connection with context takeover stay equal, so every message is
  decompressed with the dictionary it was compressed with.
\<close>

section \<open>The window after a message\<close>

definition takes_over :: "Config \<Rightarrow> bool" where
  "takes_over c \<longleftrightarrow> Enable c \<and> \<not> DisableContextTakeover c"

definition next_window :: "Config \<Rightarrow> bytes \<Rightarrow> bytes \<Rightarrow> bytes" where
  "next_window c win m = (if takes_over c then projr (trim_window c (win @ m)) else win)"

definition compressed :: "'e flate_lib \<Rightarrow> Config \<Rightarrow> bytes \<Rightarrow> bytes \<Rightarrow> bytes" where
  "compressed F c win m =
     (if \<not> Enable c then m else projr (deflate F (Level c) (if takes_over c then win else []) m))"

definition config_ok :: "'e flate_lib \<Rightarrow> Config \<Rightarrow> bool" where
  "config_ok F c \<longleftrightarrow> (Enable c \<longrightarrow> level_accepted F (Level c) \<and> 0 \<le> sint (WindowBits c) \<and> sint (WindowBits c) \<le> 32)"

lemma sint_word_of_int: "- (2 ^ 63) \<le> x \<Longrightarrow> x < 2 ^ 63 \<Longrightarrow> sint (word_of_int x :: i64) = x"
  by (simp add: signed_of_int signed_take_bit_int_eq_self)

lemma window_size:
  assumes "0 \<le> sint (WindowBits c)" "sint (WindowBits c) \<le> 32"
  shows "\<exists>size. WindowSize c = Inr size \<and> 0 < sint size"
proof -
  let ?k = "nat (sint (WindowBits c))"
  have "(2 :: int) ^ ?k \<le> 2 ^ 32"
    using assms(2) by (intro power_increasing) auto
  moreover have "push_bit ?k 1 = (word_of_int (2 ^ ?k) :: i64)"
    by (simp add: push_bit_eq_mult)
  ultimately have "sint (push_bit ?k 1 :: i64) = 2 ^ ?k"
    using sint_word_of_int [of "2 ^ ?k"] by (simp add: order_trans [of _ 0])
  then show ?thesis
    using assms(1) by (simp add: WindowSize_def)
qed

lemma trim_window_total:
  assumes "0 \<le> sint (WindowBits c)" "sint (WindowBits c) \<le> 32"
  shows "\<exists>win'. trim_window c win = Inr win'"
proof -
  from window_size [OF assms] obtain size where size: "WindowSize c = Inr size" "0 < sint size"
    by blast
  let ?len = "of_nat (length win) :: i64"
  have "sint (?len - size) = sint ?len - sint size" if "sint size < sint ?len"
  proof -
    have "?len - size = word_of_int (sint ?len - sint size)"
      unfolding of_int_diff by simp
    moreover have "sint ?len < 2 ^ 63"
      using sint_less [of ?len] by simp
    ultimately show ?thesis
      using that size(2) sint_word_of_int [of "sint ?len - sint size"] by simp
  qed
  then show ?thesis
    by (auto simp: trim_window_def size Let_def Next_def)
qed

section \<open>One message\<close>

lemma level_acceptedE:
  assumes "level_accepted F level"
  obtains bs where "deflate F level dict m = Inr bs"
proof -
  have "\<not> isl (deflate F level dict m)"
    using assms by (simp add: level_accepted_def)
  then show ?thesis
    by (cases "deflate F level dict m") (auto intro: that)
qed

lemma encodeTo_total:
  assumes "config_ok F (compressConfig t)"
  shows "encodeTo F m t =
    (t\<lparr>writeWindowBuf := next_window (compressConfig t) (writeWindowBuf t) m\<rparr>,
     Inr (compressed F (compressConfig t) (writeWindowBuf t) m))"
proof (cases "Enable (compressConfig t)")
  case True
  let ?c = "compressConfig t"
  from True assms have level: "level_accepted F (Level ?c)" and bits: "0 \<le> sint (WindowBits ?c)" "sint (WindowBits ?c) \<le> 32"
    by (simp_all add: config_ok_def)
  obtain bs where bs: "deflate F (Level ?c) (if takes_over ?c then writeWindowBuf t else []) m = Inr bs"
    by (rule level_acceptedE [OF level])
  obtain win where win: "trim_window ?c (writeWindowBuf t @ m) = Inr win"
    using trim_window_total [OF bits] by blast
  show ?thesis
    using True bs win
    by (auto simp: encodeTo_def encodeToWithCompression_def encodeToWithContextTakeover_def next_window_def compressed_def
        takes_over_def split: if_splits)
qed (simp add: encodeTo_def next_window_def compressed_def takes_over_def)

text \<open>The reader with the writer's window gets the message back, and moves to the writer's next window.\<close>

lemma decodeFrom_compressed:
  assumes "flate_ok F" "config_ok F (compressConfig t)"
  shows "decodeFrom F (compressed F (compressConfig t) (readWindowBuf t) m) t =
    (t\<lparr>readWindowBuf := next_window (compressConfig t) (readWindowBuf t) m\<rparr>, Inr m)"
proof (cases "Enable (compressConfig t)")
  case True
  let ?c = "compressConfig t" and ?dict = "if takes_over (compressConfig t) then readWindowBuf t else []"
  from True assms have level: "level_accepted F (Level ?c)" and bits: "0 \<le> sint (WindowBits ?c)" "sint (WindowBits ?c) \<le> 32"
    by (simp_all add: config_ok_def)
  obtain bs where bs: "deflate F (Level ?c) ?dict m = Inr bs"
    by (rule level_acceptedE [OF level])
  have inf: "inflate F ?dict bs = Inr m"
    by (rule inflate_deflate [OF assms(1) bs])
  obtain win where win: "trim_window ?c (readWindowBuf t @ m) = Inr win"
    using trim_window_total [OF bits] by blast
  show ?thesis
    using True bs win inf
    by (auto simp: decodeFrom_def decodeFromWithCompression_def decodeFromWithContextTakeover_def next_window_def compressed_def
        takes_over_def split: if_splits)
qed (simp add: decodeFrom_def next_window_def compressed_def takes_over_def)

section \<open>The invariant\<close>

text \<open>The websocket messages of a sequence of messages, and the window after it.\<close>

fun frames :: "'e flate_lib \<Rightarrow> Config \<Rightarrow> bytes \<Rightarrow> bytes list \<Rightarrow> bytes list" where
  "frames F c win [] = []"
| "frames F c win (m # ms) = compressed F c win m # frames F c (next_window c win m) ms"

definition window_after :: "Config \<Rightarrow> bytes \<Rightarrow> bytes list \<Rightarrow> bytes" where
  "window_after c = foldl (next_window c)"

lemma frames_snoc: "frames F c win (ms @ [m]) = frames F c win ms @ [compressed F c (window_after c win ms) m]"
  by (induction ms arbitrary: win) (simp_all add: window_after_def)

lemma window_after_simps [simp]:
  "window_after c win [] = win"
  "window_after c win (m # ms) = window_after c (next_window c win m) ms"
  "window_after c win (ms @ [m]) = next_window c (window_after c win ms) m"
  by (simp_all add: window_after_def)

definition wsinv :: "'e flate_lib \<Rightarrow> 'e wsworld \<Rightarrow> bool" where
  "wsinv F w \<longleftrightarrow>
     (let c = compressConfig (receiver w)
      in compressConfig (sender w) = c \<and> prefix (received w) (written w) \<and>
         (failure w \<noteq> None \<or>
           (\<exists>rest. written w = received w @ rest \<and>
              prefix (on_wire w) (frames F c (readWindowBuf (receiver w)) rest) \<and>
              (broken w \<or> on_wire w = frames F c (readWindowBuf (receiver w)) rest \<and>
                 writeWindowBuf (sender w) = window_after c (readWindowBuf (receiver w)) rest))))"

lemma wsinvI:
  assumes "compressConfig (sender w) = compressConfig (receiver w)"
    and "written w = received w @ rest"
    and "prefix (on_wire w) (frames F (compressConfig (receiver w)) (readWindowBuf (receiver w)) rest)"
    and "broken w \<or> on_wire w = frames F (compressConfig (receiver w)) (readWindowBuf (receiver w)) rest \<and>
      writeWindowBuf (sender w) = window_after (compressConfig (receiver w)) (readWindowBuf (receiver w)) rest"
  shows "wsinv F w"
  using assms by (auto simp: wsinv_def Let_def prefix_def)

lemma wsinv_start: "wsstart w \<Longrightarrow> wsinv F w"
  by (auto simp: wsstart_def wsworld_init_def new_ws_def intro!: wsinvI [where rest = "[]"])

lemma ws_ok_config: "ws_ok F w \<Longrightarrow> flate_ok F \<and> config_ok F (compressConfig (sender w))"
  by (auto simp: ws_ok_def config_ok_def)

lemma wsinv_write:
  assumes "wsinv F w" "\<not> broken w" "ws_ok F w"
  shows "wsinv F (ws_write F wr m w)"
proof -
  let ?c = "compressConfig (receiver w)"
  have c: "compressConfig (sender w) = ?c" "config_ok F ?c"
    using assms(1) ws_ok_config [OF assms(3)] by (simp_all add: wsinv_def Let_def)
  note enc = encodeTo_total [of F "sender w" m, unfolded c(1), OF c(2)]
  show ?thesis
  proof (cases "failure w \<noteq> None")
    case True
    with assms(1) show ?thesis
      by (auto simp: ws_write_def Write_def enc wsinv_def Let_def)
  next
    case False
    with assms(1,2) obtain rest where w: "written w = received w @ rest"
        "on_wire w = frames F ?c (readWindowBuf (receiver w)) rest"
        "writeWindowBuf (sender w) = window_after ?c (readWindowBuf (receiver w)) rest"
      by (auto simp: wsinv_def Let_def)
    show ?thesis
      by (intro wsinvI [where rest = "rest @ [m]"])
        (auto simp: ws_write_def Write_def enc w c frames_snoc Let_def)
  qed
qed

lemma wsinv_read:
  assumes "wsinv F w" "on_wire w = raw # rest'" "failure w = None" "ws_ok F w"
  shows "wsinv F (ws_read F raw rest' w)"
proof -
  let ?c = "compressConfig (receiver w)"
  have c: "compressConfig (sender w) = ?c" "config_ok F ?c" "flate_ok F"
    using assms(1) ws_ok_config [OF assms(4)] by (simp_all add: wsinv_def Let_def)
  from assms(1,3) obtain rest where w: "written w = received w @ rest"
      "prefix (on_wire w) (frames F ?c (readWindowBuf (receiver w)) rest)"
      "broken w \<or> on_wire w = frames F ?c (readWindowBuf (receiver w)) rest \<and>
        writeWindowBuf (sender w) = window_after ?c (readWindowBuf (receiver w)) rest"
    by (auto simp: wsinv_def Let_def)
  from w(2) assms(2) obtain m ms where rest: "rest = m # ms" "raw = compressed F ?c (readWindowBuf (receiver w)) m"
    by (cases rest) auto
  note dec = decodeFrom_compressed [OF c(3,2), of m]
  show ?thesis
    using w assms(2) by (intro wsinvI [where rest = ms]) (auto simp: ws_read_def Read_def rest dec c)
qed

lemma wsinv_lost: "wsinv F w \<Longrightarrow> wsinv F (w\<lparr>on_wire := take k (on_wire w), broken := True\<rparr>)"
  unfolding wsinv_def Let_def by (auto intro: prefix_order.trans [OF take_is_prefix])

definition ws_inv :: "'e flate_lib \<Rightarrow> 'e wsworld \<Rightarrow> bool" where
  "ws_inv F w \<longleftrightarrow> (ws_ok F w \<longrightarrow> wsinv F w)"

lemma ws_config_same: "compressConfig (sender (ws_write F wr m w)) = compressConfig (sender w)"
  "compressConfig (sender (ws_read F raw rest w)) = compressConfig (sender w)"
  by (auto simp: ws_write_def Write_def encodeTo_def encodeToWithCompression_def encodeToWithContextTakeover_def ws_read_def
      Let_def split: sum.splits ws_error.splits prod.splits)

lemma ws_ok_step: "wsstep F w w' \<Longrightarrow> ws_ok F w' \<longleftrightarrow> ws_ok F w"
  by (erule wsstep.cases) (simp_all add: ws_ok_def ws_config_same)

lemma ws_inv_step: "wsstep F w w' \<Longrightarrow> ws_inv F w \<Longrightarrow> ws_inv F w'"
proof -
  assume step: "wsstep F w w'" and inv: "ws_inv F w"
  have "wsinv F w'" if "ws_ok F w'"
  proof -
    from that ws_ok_step [OF step] inv have ok: "ws_ok F w" "wsinv F w"
      by (simp_all add: ws_inv_def)
    from step show ?thesis
    proof cases
      case WsReadFails
      with ok(2) show ?thesis
        by (simp add: wsinv_def Let_def)
    qed (use ok in \<open>auto intro: wsinv_write wsinv_read wsinv_lost\<close>)
  qed
  then show ?thesis
    by (simp add: ws_inv_def)
qed

interpretation ws: step_system wsstart "wsstep F" for F :: "'e flate_lib" .

lemma ws_reachable_inv: "ws.reachable F w \<Longrightarrow> ws_inv F w"
proof (induction rule: ws.invariant)
  case (Start w)
  then show ?case
    by (simp add: ws_inv_def wsinv_start)
next
  case (Step w w')
  then show ?case
    using ws_inv_step by blast
qed

interpretation ws_link: ordered_link wsstart "wsstep F" "ws_ok F" written received for F :: "'e flate_lib"
proof
  fix w
  assume "ws.reachable F w" "ws_ok F w"
  then have "wsinv F w"
    using ws_reachable_inv unfolding ws_inv_def by blast
  then show "prefix (received w) (written w)"
    by (simp add: wsinv_def Let_def)
qed

section \<open>Theorems\<close>

text \<open>Nothing is on its way, and neither side has failed.\<close>

definition idle :: "'e wsworld \<Rightarrow> bool" where
  "idle w \<longleftrightarrow> on_wire w = [] \<and> \<not> broken w \<and> failure w = None"

lemma frames_empty: "frames F c win ms = [] \<longleftrightarrow> ms = []"
  by (cases ms) auto

lemma ws_idle:
  assumes "ws.reachable F w" "ws_ok F w" "idle w"
  shows "received w = written w \<and> writeWindowBuf (sender w) = readWindowBuf (receiver w)"
proof -
  from assms(1,2) have "wsinv F w"
    using ws_reachable_inv unfolding ws_inv_def by blast
  with assms(3) obtain rest where "written w = received w @ rest"
    "frames F (compressConfig (receiver w)) (readWindowBuf (receiver w)) rest = []"
    "writeWindowBuf (sender w) = window_after (compressConfig (receiver w)) (readWindowBuf (receiver w)) rest"
    by (auto simp: wsinv_def Let_def idle_def)
  then show ?thesis
    by (simp add: frames_empty)
qed

text \<open>
  C15: Over a websocket connection, uncompressed, compressed message by message or with context takeover, \<open>Read\<close> returns
  a prefix of the messages written at the other end, when the compression library accepts the negotiated level and the
  window has 0 to 32 bits; whenever nothing is on its way, all of them have been read and the windows of the two ends are equal.
\<close>

theorem windows_stay_equal:
  assumes "ws.reachable F w" and "ws_ok F w"
  shows "prefix (received w) (written w) \<and>
    (\<not> idle w \<or> received w = written w \<and> writeWindowBuf (sender w) = readWindowBuf (receiver w))"
  using ws_link.in_order [OF assms] ws_idle [OF assms] by blast

text \<open>A run with a window of two bytes.\<close>

definition stored_flate :: "unit flate_lib" where
  "stored_flate = \<lparr>deflate = (\<lambda>level dict m. Inr m), inflate = (\<lambda>dict bs. Inr bs)\<rparr>"

definition two_bytes :: Config where
  "two_bytes = \<lparr>Enable = True, Level = 6, DisableContextTakeover = False, WindowBits = 1\<rparr>"

definition sample_negotiated :: NegotiationParams where
  "sample_negotiated = zero_params\<lparr>CompressLevel := Some 6\<rparr>"

definition sample_ws :: "bytes \<Rightarrow> bytes \<Rightarrow> u64 \<Rightarrow> u64 \<Rightarrow> bytes list \<Rightarrow> bytes list \<Rightarrow> bytes list \<Rightarrow> unit wsworld" where
  "sample_ws wwin rwin tx rx wire ws rs =
     \<lparr>sender = (new_ws sample_negotiated two_bytes)\<lparr>writeWindowBuf := wwin, txBytesCounter := tx\<rparr>,
      receiver = (new_ws sample_negotiated two_bytes)\<lparr>readWindowBuf := rwin, rxBytesCounter := rx\<rparr>,
      on_wire = wire, broken = False, failure = None, written = ws, received = rs\<rparr>"

lemmas sample_ws_defs = sample_ws_def new_ws_def sample_negotiated_def two_bytes_def zero_params_def CompressConfig_def
  TypePerMessage_def TypeContextTakeOver_def

lemma two_byte_window: "trim_window two_bytes [1, 2, 3] = Inr [2, 3]"
  by code_simp

lemma sample_ws_start: "ws.reachable stored_flate (sample_ws [] [] 0 0 [] [] [])"
proof (rule ws.reachable.Start)
  have "sample_ws [] [] 0 0 [] [] [] = wsworld_init (new_ws sample_negotiated two_bytes) (new_ws sample_negotiated two_bytes)"
    by (simp add: sample_ws_defs wsworld_init_def)
  then show "wsstart (sample_ws [] [] 0 0 [] [] [])"
    unfolding wsstart_def by blast
qed

lemma sample_ws_run: "ws.reachable stored_flate (sample_ws [2, 3] [2, 3] 3 3 [] [[1, 2, 3]] [[1, 2, 3]])"
proof -
  note step = ws.reachable.Step [THEN back_subst [where P = "ws.reachable _"]]
  have c: "CompressConfig sample_negotiated two_bytes = two_bytes"
    by (simp add: sample_ws_defs Let_def)
  have "ws.reachable stored_flate (sample_ws [2, 3] [] 3 0 [[1, 2, 3]] [[1, 2, 3]] [])"
    by (rule step [OF sample_ws_start wsstep.WsWrite [where wr = "\<lparr>accepts = True, closes = True\<rparr>" and m = "[1, 2, 3]"]])
      (simp_all add: sample_ws_def new_ws_def c ws_write_def Write_def encodeTo_def encodeToWithContextTakeover_def two_byte_window
        stored_flate_def Let_def, simp_all add: two_bytes_def)
  then show ?thesis
    by (rule step [OF _ wsstep.WsRead [where raw = "[1, 2, 3]" and rest = "[]"]])
      (simp_all add: sample_ws_def new_ws_def c ws_read_def Read_def decodeFrom_def decodeFromWithContextTakeover_def two_byte_window
        stored_flate_def Let_def, simp_all add: two_bytes_def)
qed

definition sample_read :: "unit wsworld" where
  "sample_read = sample_ws [2, 3] [2, 3] 3 3 [] [[1, 2, 3]] [[1, 2, 3]]"

theorem windows_stay_equal_witness:
  "idle sample_read \<and> received sample_read = written sample_read \<and>
   writeWindowBuf (sender sample_read) = readWindowBuf (receiver sample_read)"
proof -
  have "idle sample_read" "ws_ok stored_flate sample_read"
    by (simp_all add: sample_read_def sample_ws_defs idle_def ws_ok_def flate_ok_def stored_flate_def level_accepted_def Let_def)
  then show ?thesis
    using windows_stay_equal [OF sample_ws_run [folded sample_read_def]] by simp
qed

text \<open>
  When the compression fails, for example on a level the library does not know, \<open>Write\<close> returns an error, but closing the
  message writer has sent an empty message to the peer.
\<close>

theorem failed_write_sends_empty:
  assumes "deflate F (Level (compressConfig t)) [] m = Inl err" "deflate F (Level (compressConfig t)) (writeWindowBuf t) m = Inl err"
    and "Enable (compressConfig t)" "closes wr"
  shows "Write F (Some wr) m t = (t, Some [], Some (EncodeError (Failed err)))"
  using assms by (simp add: Write_def encodeTo_def encodeToWithCompression_def encodeToWithContextTakeover_def)

end
