(* ===== verification/Encoding_Properties.thy ===== *)
theory Encoding_Properties
  imports Encoding Convert_Properties Quic_Properties Websocket_Properties
begin

text \<open>
  From the message one session writes to the message the other reads: the converter, the encoding, the transport of
  encoded messages and a link, put together.
\<close>

section \<open>One message\<close>

text \<open>An encoding carries a message when its own decoder gives back, of what the encoder wrote, the normal form.\<close>

definition carries :: "'p encoding \<Rightarrow> Message \<Rightarrow> bool" where
  "carries E m \<longleftrightarrow> (\<forall>bs n. EncodeTo E m = Inr (bs, n) \<longrightarrow> DecodeFrom E bs = Inr (n, normalize m))"

text \<open>What the protobuf library has to do for a message: unmarshal what it marshalled of it.\<close>

definition transferable :: "uuid_lib \<Rightarrow> 'p pb_lib \<Rightarrow> Message \<Rightarrow> bool" where
  "transferable L P m \<longleftrightarrow> decodable m \<and>
     (\<forall>pb bs. WireToProto L m = Inr pb \<longrightarrow> pb_Marshal P pb = Inr bs \<longrightarrow> pb_Unmarshal P bs = Inr pb)"

lemma protobuf_carries:
  assumes "uuid_lib_ok L" "transferable L P m"
  shows "carries (protobuf_NewEncoding L P) m"
  using assms ProtoToWire_WireToProto [OF assms(1)]
  by (auto simp: carries_def protobuf_NewEncoding_def transferable_def pb_EncodeTo_def pb_DecodeFrom_def split: sum.splits)

lemma json_carries:
  assumes "uuid_lib_ok L" "decodable m"
    and "\<And>pb bs. WireToProto L m = Inr pb \<Longrightarrow> js_Marshal J pb = Inr bs \<Longrightarrow> js_Unmarshal J bs = (Inr pb, length bs)"
  shows "carries (json_NewEncoding L J) m"
  using assms ProtoToWire_WireToProto [OF assms(1)]
  by (auto simp: carries_def json_NewEncoding_def js_EncodeTo_def js_DecodeFrom_def split: sum.splits)

lemma TypeOf_normalize [simp]: "TypeOf (normalize m) = TypeOf m"
  by (cases m) simp_all

section \<open>Many messages\<close>

definition encoded :: "'p encoding \<Rightarrow> Message \<Rightarrow> bytes \<Rightarrow> bool" where
  "encoded E m bs \<longleftrightarrow> (\<exists>n. EncodeTo E m = Inr (bs, n))"

lemma Write_all_encoded:
  "Write_all ms c q = Some (c', q') \<Longrightarrow> \<exists>bss. q' = q @ bss \<and> list_all2 (encoded (encoding_of c)) ms bss"
proof (induction ms arbitrary: c q)
  case (Cons m ms)
  from Cons.prems obtain bs n where enc: "EncodeTo (encoding_of c) m = Inr (bs, n)"
    and rest: "Write_all ms (c\<lparr>tx := tx c + 1, txCounter := counter_Add m n (txCounter c)\<rparr>) (q @ [bs]) = Some (c', q')"
    by (auto simp: Transport_Write_def push_def split: sum.splits)
  from Cons.IH [OF rest] obtain bss where "q' = (q @ [bs]) @ bss" "list_all2 (encoded (encoding_of c)) ms bss"
    by auto
  with enc have "q' = q @ (bs # bss) \<and> list_all2 (encoded (encoding_of c)) (m # ms) (bs # bss)"
    by (auto simp: encoded_def)
  then show ?case
    by blast
qed simp

text \<open>The limit on the size of the reader.\<close>

definition admitted :: "'p enc_transport \<Rightarrow> bytes \<Rightarrow> bool" where
  "admitted r bs \<longleftrightarrow> maxMessageSize r = 0 \<or> sint (of_nat (length bs) :: i64) \<le> sint (maxMessageSize r)"

lemma Read_one:
  assumes "EncodeTo (encoding_of r) m = Inr (bs, n)" "carries (encoding_of r) m" "admitted r bs"
  shows "Transport_Read pop r (bs # q) =
    (r\<lparr>rx := rx r + 1, rxCounter := counter_Add m n (rxCounter r)\<rparr>, q, Inr (normalize m))"
  using assms
  by (auto simp: Transport_Read_def pop_def carries_def admitted_def validateMessageSize_def counter_Add_def Let_def)

lemma Read_all_encoded:
  assumes "list_all2 (encoded (encoding_of r)) ms bss" "list_all (carries (encoding_of r)) ms" "list_all (admitted r) bss"
  shows "snd (Read_all bss r) = map (\<lambda>m. Inr (normalize m)) ms"
  using assms
proof (induction ms arbitrary: bss r)
  case (Cons m ms)
  from Cons.prems(1) obtain bs bss' where bss: "bss = bs # bss'" and "encoded (encoding_of r) m bs"
    and rest: "list_all2 (encoded (encoding_of r)) ms bss'"
    by (auto simp: list_all2_Cons1)
  then obtain n where enc: "EncodeTo (encoding_of r) m = Inr (bs, n)"
    by (auto simp: encoded_def)
  have "snd (Read_all bss' (r\<lparr>rx := rx r + 1, rxCounter := counter_Add m n (rxCounter r)\<rparr>)) = map (\<lambda>m. Inr (normalize m)) ms"
    using Cons.prems rest by (intro Cons.IH) (simp_all add: bss admitted_def)
  with Cons.prems enc show ?case
    by (simp add: bss Read_one case_prod_beta)
qed simp

lemma Read_all_counters:
  assumes "Write_all ms c q = Some (c', q @ bss)" "encoding_of r = encoding_of c"
    and "list_all (carries (encoding_of r)) ms" "list_all (admitted r) bss" "rx r = tx c" "rxCounter r = txCounter c"
  shows "rx (fst (Read_all bss r)) = tx c' \<and> rxCounter (fst (Read_all bss r)) = txCounter c'"
  using assms
proof (induction ms arbitrary: c q r bss)
  case (Cons m ms)
  from Cons.prems(1) obtain bs n where enc: "EncodeTo (encoding_of c) m = Inr (bs, n)"
    and rest: "Write_all ms (c\<lparr>tx := tx c + 1, txCounter := counter_Add m n (txCounter c)\<rparr>) (q @ [bs]) = Some (c', q @ bss)"
    by (auto simp: Transport_Write_def push_def split: sum.splits)
  from Write_all_encoded [OF rest] obtain bss' where bss: "bss = bs # bss'"
    by auto
  with Cons.IH [of "c\<lparr>tx := tx c + 1, txCounter := counter_Add m n (txCounter c)\<rparr>" "q @ [bs]" bss'
      "r\<lparr>rx := rx r + 1, rxCounter := counter_Add m n (rxCounter r)\<rparr>"] rest enc Cons.prems
  show ?case
    by (simp add: Read_one admitted_def case_prod_beta)
qed auto

section \<open>Over a link\<close>

context ordered_link
begin

lemma messages_arrive:
  assumes "reachable s" "ok s" and sent: "Write_all ms (NewTransport E n) [] = Some (c, written s)"
    and "list_all (carries E) ms" "list_all (admitted (NewTransport E k)) (written s)"
  shows "\<exists>j \<le> length ms. snd (Read_all (received s) (NewTransport E k)) = map (\<lambda>m. Inr (normalize m)) (take j ms)"
    and "received s = written s \<Longrightarrow> snd (Read_all (received s) (NewTransport E k)) = map (\<lambda>m. Inr (normalize m)) ms \<and>
      rx (fst (Read_all (received s) (NewTransport E k))) = tx c \<and>
      rxCounter (fst (Read_all (received s) (NewTransport E k))) = txCounter c"
proof -
  let ?r = "NewTransport E k"
  have e: "encoding_of ?r = E" "encoding_of (NewTransport E n) = E"
    by (simp_all add: NewTransport_def)
  have enc: "list_all2 (encoded E) ms (written s)"
    using Write_all_encoded [OF sent] by (auto simp: e)
  from received_of_written [OF assms(1,2) enc] obtain j where j: "j \<le> length ms" "received s = take j (written s)"
    "list_all2 (encoded E) (take j ms) (received s)"
    by blast
  have "snd (Read_all (received s) ?r) = map (\<lambda>m. Inr (normalize m)) (take j ms)"
    using j(3) assms(4,5) j(2) by (intro Read_all_encoded) (auto simp: e list_all_iff dest: in_set_takeD)
  with j(1) show "\<exists>j \<le> length ms. snd (Read_all (received s) ?r) = map (\<lambda>m. Inr (normalize m)) (take j ms)"
    by blast
  assume all: "received s = written s"
  show "snd (Read_all (received s) ?r) = map (\<lambda>m. Inr (normalize m)) ms \<and> rx (fst (Read_all (received s) ?r)) = tx c \<and>
      rxCounter (fst (Read_all (received s) ?r)) = txCounter c"
    using Read_all_encoded [of ?r ms "written s"] enc
      Read_all_counters [of ms "NewTransport E n" "[]" c "written s" ?r] sent assms(4,5)
    by (simp add: e all) (simp add: NewTransport_def)
qed

end

section \<open>Theorems\<close>

text \<open>What one end's transport of encoded messages reads, and the messages and counters the other end's has written.\<close>

definition all_read :: "('p enc_transport \<times> ((unit, 'p) enc_transport_error + Message) list) \<Rightarrow> Message list \<Rightarrow> 'p enc_transport \<Rightarrow> bool" where
  "all_read res ms c \<longleftrightarrow> snd res = map (\<lambda>m. Inr (normalize m)) ms \<and> rx (fst res) = tx c \<and> rxCounter (fst res) = txCounter c"

text \<open>
  C12: The whole way over QUIC: when protobuf messages are written at one end, the messages read at the other are, for some
  first part of those, exactly their normal forms, in order and without an error, whatever the network and the goroutines do;
  and when the stream has settled they are all there, and the counters of messages and of bytes by type agree.
\<close>

theorem messages_cross_quic:
  assumes "quic.reachable F w" "flate_ok F" "list_all (fits F (Quic.sender w)) (Quic.written w)"
    and "uuid_lib_ok L" "list_all (transferable L P) ms"
    and "Write_all ms (NewTransport (protobuf_NewEncoding L P) n) [] = Some (c, Quic.written w)"
    and "list_all (admitted (NewTransport (protobuf_NewEncoding L P) k)) (Quic.written w)"
  shows "(\<exists>j \<le> length ms. snd (Read_all (Quic.received w) (NewTransport (protobuf_NewEncoding L P) k)) =
      map (\<lambda>m. Inr (normalize m)) (take j ms)) \<and>
    (\<not> settled w \<or> all_read (Read_all (Quic.received w) (NewTransport (protobuf_NewEncoding L P) k)) ms c)"
proof -
  have small: "qsmall F w"
    using assms(2,3) by (simp add: qsmall_def)
  have carried: "list_all (carries (protobuf_NewEncoding L P)) ms"
    using assms(5) protobuf_carries [OF assms(4)] by (auto simp: list_all_iff)
  note arrive = quic_link.messages_arrive [OF assms(1) small assms(6) carried assms(7)]
  have "all_read (Read_all (Quic.received w) (NewTransport (protobuf_NewEncoding L P) k)) ms c" if "settled w"
    using arrive(2) quic_settled [OF assms(1) small that] by (simp add: all_read_def)
  with arrive(1) show ?thesis
    by blast
qed

text \<open>
  C13: The whole way over a websocket connection, with any of its compressions: the messages read are, for some first
  part of those written, exactly their normal forms, in order and without an error; and when nothing is on its way they
  are all there, and the counters of messages and of bytes by type agree.
\<close>

theorem messages_cross_websocket:
  assumes "ws.reachable F w" "ws_ok F w"
    and "uuid_lib_ok L" "list_all (transferable L P) ms"
    and "Write_all ms (NewTransport (protobuf_NewEncoding L P) n) [] = Some (c, Websocket.written w)"
    and "list_all (admitted (NewTransport (protobuf_NewEncoding L P) k)) (Websocket.written w)"
  shows "(\<exists>j \<le> length ms. snd (Read_all (Websocket.received w) (NewTransport (protobuf_NewEncoding L P) k)) =
      map (\<lambda>m. Inr (normalize m)) (take j ms)) \<and>
    (\<not> idle w \<or> all_read (Read_all (Websocket.received w) (NewTransport (protobuf_NewEncoding L P) k)) ms c)"
proof -
  have carried: "list_all (carries (protobuf_NewEncoding L P)) ms"
    using assms(4) protobuf_carries [OF assms(3)] by (auto simp: list_all_iff)
  note arrive = ws_link.messages_arrive [OF assms(1,2,5) carried assms(6)]
  have "all_read (Read_all (Websocket.received w) (NewTransport (protobuf_NewEncoding L P) k)) ms c" if "idle w"
    using arrive(2) ws_idle [OF assms(1,2) that] by (simp add: all_read_def)
  with arrive(1) show ?thesis
    by blast
qed

text \<open>A library that knows one message, and the transport after it has been written.\<close>

definition one_message_lib :: "bytes \<Rightarrow> unit pb_lib" where
  "one_message_lib bs = \<lparr>pb_Marshal = (\<lambda>pb. Inr bs), pb_Unmarshal = (\<lambda>bs. Inr sample_pb_chunk)\<rparr>"

definition one_message_encoding :: "bytes \<Rightarrow> unit encoding" where
  "one_message_encoding bs = protobuf_NewEncoding sample_uuid_lib (one_message_lib bs)"

definition after_one :: "bytes \<Rightarrow> unit enc_transport" where
  "after_one bs = (NewTransport (one_message_encoding bs) 0)\<lparr>tx := 1, txCounter := counter_Add sample_chunk (length bs) newCounter\<rparr>"

lemma one_message:
  "list_all (transferable sample_uuid_lib (one_message_lib bs)) [sample_chunk]"
  "Write_all [sample_chunk] (NewTransport (one_message_encoding bs) 0) [] = Some (after_one bs, [bs])"
  "list_all (admitted (NewTransport (one_message_encoding bs) 0)) [bs]"
  by (simp_all add: transferable_def sample_chunk_good sample_chunk_encoded one_message_lib_def after_one_def NewTransport_def
      Transport_Write_def push_def one_message_encoding_def protobuf_NewEncoding_def pb_EncodeTo_def admitted_def)

theorem messages_cross_quic_witness:
  "all_read (Read_all [[7, 8]] (NewTransport (one_message_encoding [7, 8]) 0)) [sample_chunk] (after_one [7, 8])"
proof -
  have w: "Quic.written sample_done = [[7, 8]]" "Quic.received sample_done = [[7, 8]]"
    by (simp_all add: sample_done_def sample_w_def)
  have f: "flate_ok no_flate" "list_all (fits no_flate (Quic.sender sample_done)) (Quic.written sample_done)"
    by (simp_all add: flate_ok_def no_flate_def sample_done_def sample_defs fits_def Quic.encodeFunc_def)
  have "settled sample_done"
    by (simp add: sample_done_def sample_defs settled_def)
  with messages_cross_quic [OF sample_run [folded sample_done_def] f sample_uuid_lib_ok one_message(1) [of "[7, 8]"],
      where n = 0 and k = 0 and c = "after_one [7, 8]"] one_message(2,3) [of "[7, 8]"]
  show ?thesis
    by (simp add: w one_message_encoding_def)
qed

theorem messages_cross_websocket_witness:
  "all_read (Read_all [[1, 2, 3]] (NewTransport (one_message_encoding [1, 2, 3]) 0)) [sample_chunk] (after_one [1, 2, 3])"
proof -
  have w: "Websocket.written sample_read = [[1, 2, 3]]" "Websocket.received sample_read = [[1, 2, 3]]"
    by (simp_all add: sample_read_def sample_ws_def)
  have "idle sample_read" "ws_ok stored_flate sample_read"
    by (simp_all add: sample_read_def sample_ws_defs idle_def ws_ok_def flate_ok_def stored_flate_def level_accepted_def Let_def)
  with messages_cross_websocket [OF sample_ws_run [folded sample_read_def] _ sample_uuid_lib_ok one_message(1) [of "[1, 2, 3]"],
      where n = 0 and k = 0 and c = "after_one [1, 2, 3]"] one_message(2,3) [of "[1, 2, 3]"]
  show ?thesis
    by (simp add: w one_message_encoding_def)
qed

end
