(* ===== verification/Webtransport.thy ===== *)
theory Webtransport
  imports Quic_Properties
begin

text \<open>
  The WebTransport transport (\<open>src/transport/webtransport/transport.go\<close>, \<open>datagram.go\<close>). Its struct has the fields of the QUIC
  transport, and it is modelled on the record \<open>transport\<close> of \<open>Quic\<close>, with functions of its own: they differ in the
  errors they report. Then its link, step by step, and that it keeps the contract \<open>ordered_link\<close>.
\<close>

section \<open>Operations\<close>

definition wt_encodeFunc :: "'e flate_lib \<Rightarrow> transport \<Rightarrow> bytes \<Rightarrow> 'e + bytes" where
  "wt_encodeFunc F t m =
     (if \<not> Enable (compressConfig t) then Inr m else deflate F (Level (compressConfig t)) [] m)"

definition wt_decodeFunc :: "'e flate_lib \<Rightarrow> transport \<Rightarrow> bytes \<Rightarrow> 'e + bytes" where
  "wt_decodeFunc F t bs = (if \<not> Enable (compressConfig t) then Inr bs else inflate F [] bs)"

definition wt_New :: "NegotiationParams \<Rightarrow> Config \<Rightarrow> duration \<Rightarrow> transport" where
  "wt_New params config expiry =
     (let expiry = (if expiry = 0 then word_of_int Second * 10 else expiry)
      in \<lparr>compressConfig = CompressConfig params config, rxBytesCounter = 0, txBytesCounter = 0,
          sequenceNumber = word_of_int (2 ^ 32 - 1),
          readBufferForUnreliable = \<lparr>Buffers = Map.empty, ReadBufferExpiry = expiry\<rparr>\<rparr>)"

definition wt_writeTo :: "('w \<Rightarrow> bytes \<Rightarrow> 'w \<times> 'e option) \<Rightarrow> bytes \<Rightarrow> 'w \<Rightarrow> 'w \<times> ('e + nat)" where
  "wt_writeTo wr payload w =
     (let bytesMsgLength = be_bytes 4 (of_nat (length payload) :: u32)
      in case wr w bytesMsgLength of
           (w, Some err) \<Rightarrow> (w, Inl err)
         | (w, None) \<Rightarrow>
             (case wr w payload of
                (w, Some err) \<Rightarrow> (w, Inl err)
              | (w, None) \<Rightarrow> (w, Inr (4 + length payload))))"

text \<open>\<open>Write\<close> hands the library's errors on as they are.\<close>

definition wt_Write ::
    "'e flate_lib \<Rightarrow> ('w \<Rightarrow> bytes \<Rightarrow> 'w \<times> 'e option) \<Rightarrow> bytes \<Rightarrow> transport \<Rightarrow> 'w \<Rightarrow>
      transport \<times> 'w \<times> 'e transport_error option" where
  "wt_Write F wr m t w =
     (case wt_encodeFunc F t m of
        Inl err \<Rightarrow> (t, w, Some (Failure err))
      | Inr bs \<Rightarrow>
          (case wt_writeTo wr bs w of
             (w, Inl err) \<Rightarrow> (t, w, Some (Failure err))
           | (w, Inr n) \<Rightarrow> (t\<lparr>txBytesCounter := txBytesCounter t + of_nat n\<rparr>, w, None)))"

text \<open>\<open>WriteUnreliable\<close> recognises a closed transport in the encoder's errors only.\<close>

definition wt_WriteUnreliable ::
    "('e \<Rightarrow> bool) \<Rightarrow> 'e flate_lib \<Rightarrow> ('w, 'e) sender \<Rightarrow> bytes \<Rightarrow> transport \<Rightarrow> 'w \<Rightarrow>
      transport \<times> 'w \<times> 'e transport_error option" where
  "wt_WriteUnreliable cl F conn m t w =
     (case wt_encodeFunc F t m of
        Inl err \<Rightarrow> (t, w, Some (if cl err then AlreadyClosed else Failure err))
      | Inr m \<Rightarrow>
          let t = t\<lparr>sequenceNumber := sequenceNumber t + 1\<rparr>
          in case SendTo conn (sequenceNumber t) m w of
               (w, Inl InvalidMessage) \<Rightarrow> (t, w, Some MessageInvalid)
             | (w, Inl (SenderError err)) \<Rightarrow> (t, w, Some (Failure err))
             | (w, Inr n) \<Rightarrow> (t\<lparr>txBytesCounter := txBytesCounter t + of_nat n\<rparr>, w, None))"

definition wt_datagram_Write ::
    "('e \<Rightarrow> bool) \<Rightarrow> 'e flate_lib \<Rightarrow> ('w, 'e) sender \<Rightarrow> bytes \<Rightarrow> transport \<times> u64 \<Rightarrow> 'w \<Rightarrow>
      (transport \<times> u64) \<times> 'w \<times> 'e transport_error option" where
  "wt_datagram_Write cl F conn m d w =
     (case wt_WriteUnreliable cl F conn m (fst d) w of
        (t, w, Some err) \<Rightarrow> ((t, snd d), w, Some err)
      | (t, w, None) \<Rightarrow> ((t, snd d + of_nat (length m)), w, None))"

definition wt_decodeFrom ::
    "'e flate_lib \<Rightarrow> bytes \<Rightarrow> 'e stream_end option \<Rightarrow> transport \<Rightarrow> (transport \<times> bytes \<times> ('e decode_error + bytes)) option" where
  "wt_decodeFrom F rd end t =
     (case ReadFull_stream 4 rd end of
        None \<Rightarrow> None
      | Some (Inl err) \<Rightarrow> Some (t, [], Inl (StreamFailed err))
      | Some (Inr (bytesMsgLength, rd)) \<Rightarrow>
          let msgLength = be_word bytesMsgLength :: u32
          in case ReadFull_stream (unat msgLength) rd end of
               None \<Rightarrow> None
             | Some (Inl err) \<Rightarrow> Some (t, [], Inl (StreamFailed err))
             | Some (Inr (bs, rd)) \<Rightarrow>
                 Some (t\<lparr>rxBytesCounter := rxBytesCounter t + ucast (4 + msgLength)\<rparr>, rd,
                   (case wt_decodeFunc F t bs of Inl err \<Rightarrow> Inl (DecodeFailed err) | Inr m \<Rightarrow> Inr m)))"

definition wt_receiveMessage ::
    "'e flate_lib \<Rightarrow> time \<Rightarrow> bytes \<Rightarrow> transport \<Rightarrow> seg_panic + transport \<times> ('e + bytes) option" where
  "wt_receiveMessage F now bs t =
     bindE (Receive now bs (readBufferForUnreliable t)) (\<lambda>(buf, m).
     Inr (t\<lparr>readBufferForUnreliable := buf\<rparr>, map_option (wt_decodeFunc F t) m))"

text \<open>
  \<open>Read\<close> and \<open>ReadUnreliable\<close> of what the channel gave; \<open>None\<close> is the closed channel. \<open>handleError\<close> has wrapped every error in
  \<open>transport.ErrAlreadyClosed\<close>. \<open>datagram.Read\<close> also counts its bytes.
\<close>

fun wt_Read :: "'e read_set option \<Rightarrow> 'e transport_error + bytes" where
  "wt_Read None = Inl AlreadyClosed"
| "wt_Read (Some (SetErr err)) = Inl AlreadyClosed"
| "wt_Read (Some (SetMsg m)) = Inr m"

fun wt_ReadUnreliable :: "'e read_set option \<Rightarrow> 'e transport_error + bytes" where
  "wt_ReadUnreliable None = Inl AlreadyClosed"
| "wt_ReadUnreliable (Some (SetErr err)) = Inl AlreadyClosed"
| "wt_ReadUnreliable (Some (SetMsg m)) = Inr m"

definition wt_datagram_Read :: "'e read_set option \<Rightarrow> u64 \<Rightarrow> u64 \<times> ('e transport_error + bytes)" where
  "wt_datagram_Read s rx =
     (case wt_ReadUnreliable s of Inl err \<Rightarrow> (rx, Inl err) | Inr r \<Rightarrow> (rx + of_nat (length r), Inr r))"

section \<open>Both ends of a stream\<close>

definition wt_Close :: "('e \<Rightarrow> bool) \<Rightarrow> 'e option \<Rightarrow> 'e qworld \<Rightarrow> 'e qworld \<times> 'e transport_error option" where
  "wt_Close cl err w = (w\<lparr>cancelled := True\<rparr>, map_option (closed_error cl) err)"

text \<open>The goroutines of both ends and the network, as in \<open>qstep\<close>; the channel's context also ends \<open>AcceptUniStream\<close>.\<close>

inductive wtstep :: "'e flate_lib \<Rightarrow> 'e qworld \<Rightarrow> 'e qworld \<Rightarrow> bool" for F where
  WtWriteDone: "\<not> broken w \<Longrightarrow> wt_Write F stream_write m (sender w) (flow w) = (t, fl, None) \<Longrightarrow>
    wtstep F w (w\<lparr>sender := t, flow := fl, written := written w @ [m]\<rparr>)"
| WtWriteCut: "\<not> broken w \<Longrightarrow> wt_Write F stream_write m (sender w) (flow w) = (t, fl, None) \<Longrightarrow> length (flow w) \<le> k \<Longrightarrow>
    wtstep F w (w\<lparr>flow := take k fl, broken := True, written := written w @ [m]\<rparr>)"
| WtDeliver: "ended w = None \<Longrightarrow> wtstep F w (w\<lparr>flow := drop k (flow w), arrived := arrived w @ take k (flow w)\<rparr>)"
| WtStreamEnds: "ended w = None \<Longrightarrow> wtstep F w (w\<lparr>ended := Some e, broken := True\<rparr>)"
| WtAccept: "reading w = Accepting \<Longrightarrow> wtstep F w (w\<lparr>reading := Reading\<rparr>)"
| WtAcceptFails: "reading w = Accepting \<Longrightarrow> wtstep F w (w\<lparr>reading := Pushing (SetErr (StreamFailed (StreamError e)))\<rparr>)"
| WtDecode: "reading w = Reading \<Longrightarrow> wt_decodeFrom F (arrived w) (ended w) (receiver w) = Some (t, bs, res) \<Longrightarrow>
    wtstep F w (w\<lparr>receiver := t, arrived := bs,
      reading := Pushing (case res of Inl err \<Rightarrow> SetErr err | Inr m \<Rightarrow> SetMsg m)\<rparr>)"
| WtPush: "reading w = Pushing s \<Longrightarrow> length (readC w) < queueSize w \<Longrightarrow>
    wtstep F w (w\<lparr>readC := readC w @ [s], reading := after_read False s\<rparr>)"
| WtPushCancelled: "reading w = Pushing s \<Longrightarrow> cancelled w \<Longrightarrow> wtstep F w (w\<lparr>reading := after_read True s\<rparr>)"
| WtReadSet: "readC w = s # ss \<Longrightarrow> wt_Read (Some s) = res \<Longrightarrow>
    wtstep F w (w\<lparr>readC := ss, received := received w @ (case res of Inl err \<Rightarrow> [] | Inr m \<Rightarrow> [m])\<rparr>)"
| WtCancel: "wt_Close cl err w = (w', res) \<Longrightarrow> wtstep F w w'"

definition wtstart :: "'e qworld \<Rightarrow> bool" where
  "wtstart w \<longleftrightarrow>
     (\<exists>ps cs es pr cr er n. w = qworld_init (wt_New ps cs es) (wt_New pr cr er) n \<and>
        CompressConfig ps cs = CompressConfig pr cr)"

section \<open>Agreement with QUIC\<close>

lemma wt_encodeFunc_eq: "wt_encodeFunc = encodeFunc"
  by (simp add: fun_eq_iff wt_encodeFunc_def encodeFunc_def)

lemma wt_decodeFunc_eq: "wt_decodeFunc = decodeFunc"
  by (simp add: fun_eq_iff wt_decodeFunc_def decodeFunc_def)

lemma wt_New_eq: "wt_New = new_transport"
  by (simp add: fun_eq_iff wt_New_def new_transport_def mult.commute Let_def)

lemma wt_writeTo_eq: "wt_writeTo = writeTo"
  by (simp add: fun_eq_iff wt_writeTo_def writeTo_def)

lemma wt_decodeFrom_eq: "wt_decodeFrom = decodeFrom"
  by (simp add: fun_eq_iff wt_decodeFrom_def decodeFrom_def wt_decodeFunc_eq decodeFunc_def Let_def cong: option.case_cong sum.case_cong)

lemma wt_receiveMessage_eq: "wt_receiveMessage = receiveMessage"
  by (simp add: fun_eq_iff wt_receiveMessage_def receiveMessage_def wt_decodeFunc_eq)

lemma wt_Read_eq: "wt_Read s = Read s"
  by (cases s rule: wt_Read.cases) simp_all

lemma wt_Close_eq: "wt_Close = Close"
  by (simp add: fun_eq_iff wt_Close_def Close_def)

lemmas wt_eqs = wt_Close_eq wt_encodeFunc_eq wt_decodeFunc_eq wt_New_eq wt_writeTo_eq wt_decodeFrom_eq wt_receiveMessage_eq wt_Read_eq

text \<open>The two writes leave the same state; QUIC's also says whether the transport was closed.\<close>

definition report :: "('e \<Rightarrow> bool) \<Rightarrow> 'e transport_error \<Rightarrow> 'e transport_error" where
  "report cl err = (case err of Failure e \<Rightarrow> closed_error cl e | err \<Rightarrow> err)"

lemma Write_reports:
  "Write cl F wr m t w = (case wt_Write F wr m t w of (t, w, err) \<Rightarrow> (t, w, map_option (report cl) err))"
  by (auto simp: Write_def wt_Write_def wt_eqs report_def split: sum.splits prod.splits)

lemma WriteUnreliable_reports:
  "WriteUnreliable cl F conn m t w =
     (case wt_WriteUnreliable cl F conn m t w of (t, w, err) \<Rightarrow> (t, w, map_option (report cl) err))"
  by (auto simp: WriteUnreliable_def wt_WriteUnreliable_def wt_eqs report_def closed_error_def Let_def
      split: sum.splits prod.splits send_error.splits)

lemma wt_Write_never_closed: "snd (snd (wt_Write F wr m t w)) \<noteq> Some AlreadyClosed"
  by (simp add: wt_Write_def split: sum.splits prod.splits)

lemma Write_done_iff: "Write cl F wr m t w = (t', w', None) \<longleftrightarrow> wt_Write F wr m t w = (t', w', None)"
  by (simp add: Write_reports split: prod.splits)

lemma wtstep_eq: "wtstep F = qstep F"
proof (intro ext iffI)
  fix w w'
  show "qstep F w w'" if "wtstep F w w'"
    using that
    by cases (auto simp: wt_eqs intro: qstep.intros qstep.WriteDone [OF _ Write_done_iff [THEN iffD2]]
        qstep.WriteCut [OF _ Write_done_iff [THEN iffD2]])
  show "wtstep F w w'" if "qstep F w w'"
    using that by cases (auto simp: wt_eqs Write_done_iff intro: wtstep.intros)
qed

lemma wtstart_eq: "wtstart = qstart"
  by (simp add: fun_eq_iff wtstart_def qstart_def wt_New_eq)

interpretation wt: step_system wtstart "wtstep F" for F :: "'e flate_lib" .

lemma wt_reachable_eq: "wt.reachable F w = quic.reachable F w"
  by (simp add: wtstart_eq wtstep_eq)

interpretation wt_link: ordered_link wtstart "wtstep F" "qsmall F" written received for F :: "'e flate_lib"
  by unfold_locales (simp add: wt_reachable_eq quic_link.in_order)

end
