(* ===== verification/Datagrams.thy ===== *)
theory Datagrams
  imports Webtransport
begin

text \<open>
  The goroutine that receives the datagrams of a QUIC or WebTransport connection, and the way of a message from
  \<open>WriteUnreliable\<close> to the channel \<open>readUnreliableC\<close>: compression, segmentation, reassembly and decompression together.
\<close>

section \<open>The receiving goroutine\<close>

definition wt_datagram_received ::
    "'e flate_lib \<Rightarrow> time \<Rightarrow> bytes \<Rightarrow> transport \<Rightarrow> seg_panic + transport \<times> ('e + bytes) option" where
  "wt_datagram_received F now bs t =
     wt_receiveMessage F now bs (t\<lparr>rxBytesCounter := rxBytesCounter t + of_nat (length bs)\<rparr>)"

text \<open>
  Its loop, on the datagrams received and the ticks of the goroutine that clears the buffers, in the order in which they
  take the buffers' lock, with what it puts into the channel and the sequence number that completed it. \<open>handleError\<close> ends it.
\<close>

fun datagram_loop ::
    "(time \<Rightarrow> bytes \<Rightarrow> transport \<Rightarrow> seg_panic + transport \<times> ('e + bytes) option) \<Rightarrow> seg_step list \<Rightarrow> transport \<Rightarrow>
      seg_panic + transport \<times> (u32 \<times> ('e + bytes)) list" where
  "datagram_loop recv [] t = Inr (t, [])"
| "datagram_loop recv (Recv now bs # es) t =
     bindE (recv now bs t) (\<lambda>(t, res). case res of
         None \<Rightarrow> datagram_loop recv es t
       | Some (Inl err) \<Rightarrow> Inr (t, [(seq_of bs, Inl err)])
       | Some (Inr m) \<Rightarrow> bindE (datagram_loop recv es t) (\<lambda>(t, out). Inr (t, (seq_of bs, Inr m) # out)))"
| "datagram_loop recv (Tick now # es) t = datagram_loop recv es (clear_read_buffer now t)"

definition results_of :: "u32 \<Rightarrow> (u32 \<times> ('e + bytes)) list \<Rightarrow> ('e + bytes) list" where
  "results_of k out = map snd (filter (\<lambda>r. fst r = k) out)"

lemma results_of_simps [simp]:
  "results_of k [] = []"
  "results_of k ((k', res) # out) = (if k' = k then res # results_of k out else results_of k out)"
  by (simp_all add: results_of_def)

lemma wt_datagram_received_eq: "wt_datagram_received = datagram_received"
  by (simp add: fun_eq_iff wt_datagram_received_def datagram_received_def wt_eqs)

section \<open>What it makes of the reassembled messages\<close>

fun until_error :: "(u32 \<times> ('e + bytes)) list \<Rightarrow> (u32 \<times> ('e + bytes)) list" where
  "until_error [] = []"
| "until_error ((k, Inl err) # out) = [(k, Inl err)]"
| "until_error ((k, Inr m) # out) = (k, Inr m) # until_error out"

definition decoded :: "(bytes \<Rightarrow> 'e + bytes) \<Rightarrow> (u32 \<times> bytes option) list \<Rightarrow> (u32 \<times> ('e + bytes)) list" where
  "decoded f ms = [(k, f m). (k, Some m) \<leftarrow> ms]"

lemma decoded_simps [simp]:
  "decoded f [] = []"
  "decoded f ((k, None) # ms) = decoded f ms"
  "decoded f ((k, Some m) # ms) = (k, f m) # decoded f ms"
  by (simp_all add: decoded_def)

lemma decodeFunc_cong: "compressConfig t' = compressConfig t \<Longrightarrow> decodeFunc F t' = decodeFunc F t"
  by (simp add: fun_eq_iff decodeFunc_def)

lemma results_of_decoded:
  "results_of k (decoded f ms) = map f (map the (filter (\<lambda>m. m \<noteq> None) (delivered k ms)))"
proof (induction ms)
  case (Cons r ms)
  then show ?case
    by (cases r; cases "snd r") (auto simp: delivered_def)
qed (simp add: delivered_def)

text \<open>An error ends the loop, so a message is missed only when another one before it has failed.\<close>

lemma results_until_error:
  assumes "results_of k out = [Inr m]"
  shows "results_of k (until_error out) = [Inr m] \<or>
    results_of k (until_error out) = [] \<and> (\<exists>k' err. (k', Inl err) \<in> set (until_error out) \<and> k' \<noteq> k)"
  using assms
proof (induction out rule: until_error.induct)
  case (3 k' m' out)
  have "results_of k (until_error out) = []" if "results_of k out = []"
    using that by (induction out rule: until_error.induct) (auto split: if_splits)
  with 3 show ?case
    by (auto split: if_splits)
qed (auto split: if_splits)

lemma loop_of_run:
  assumes "seg_run es (readBufferForUnreliable t) = Inr (buf, ms)"
  shows "\<exists>t'. datagram_loop (datagram_received F) es t = Inr (t', until_error (decoded (decodeFunc F t) ms))"
  using assms
proof (induction es arbitrary: t ms)
  case (Cons e es)
  show ?case
  proof (cases e)
    case (Tick now)
    with Cons.IH [of "clear_read_buffer now t" ms] Cons.prems show ?thesis
      by (simp add: clear_read_buffer_def decodeFunc_cong [of "t\<lparr>readBufferForUnreliable := _\<rparr>" t])
  next
    case (Recv now bs)
    obtain b m where b: "Receive now bs (readBufferForUnreliable t) = Inr (b, m)"
      using Cons.prems Recv by (cases "Receive now bs (readBufferForUnreliable t)") auto
    obtain ms' where ms: "seg_run es b = Inr (buf, ms')" "ms = (seq_of bs, m) # ms'"
      using Cons.prems Recv b by (cases "seg_run es b") auto
    define t' where "t' = t\<lparr>rxBytesCounter := rxBytesCounter t + of_nat (length bs), readBufferForUnreliable := b\<rparr>"
    have same: "decodeFunc F t' = decodeFunc F t"
        "decodeFunc F (t\<lparr>rxBytesCounter := rxBytesCounter t + of_nat (length bs)\<rparr>) = decodeFunc F t"
      by (rule decodeFunc_cong, simp add: t'_def)+
    have r: "datagram_received F now bs t = Inr (t', map_option (decodeFunc F t) m)"
      using b by (simp add: datagram_received_def receiveMessage_def same(2)) (simp add: t'_def)
    from Cons.IH [of t' ms'] ms(1) obtain t'' where
      "datagram_loop (datagram_received F) es t' = Inr (t'', until_error (decoded (decodeFunc F t) ms'))"
      unfolding same(1) by (auto simp: t'_def)
    with r show ?thesis
      by (cases m; cases "decodeFunc F t (the m)") (auto simp: Recv ms(2))
  qed
qed simp

section \<open>Theorems\<close>

lemma sent_datagrams:
  assumes "WriteUnreliable cl F (collect :: (bytes list, 'e) sender) m s [] = (s', sent, None)" "length sent \<le> 65535"
  obtains p where "encodeFunc F s m = Inr p"
    and "fst (SendTo (collect :: (bytes list, 'e) sender) (sequenceNumber s') p []) = sent" and "length p div 1188 < 65535"
proof -
  from assms(1) obtain p where p: "encodeFunc F s m = Inr p"
    by (auto simp: WriteUnreliable_def split: sum.splits)
  obtain n where n: "SendTo (collect :: (bytes list, 'e) sender) (sequenceNumber s + 1) p [] = (sent, Inr n)"
    and k: "sequenceNumber s' = sequenceNumber s + 1"
    using assms(1) p by (auto simp: WriteUnreliable_def Let_def split: prod.splits sum.splits send_error.splits)
  have small: "length p div 1188 < 65536"
    using n by (auto simp: SendTo_def Let_def split: if_splits)
  then have "sent = segments (sequenceNumber s + 1) p"
    using n SendTo_collect [of p "sequenceNumber s + 1" "[]", where 'e = 'e] by simp
  with assms(2) have "length p div 1188 < 65535"
    by (simp add: segments_def seg_count_def split: if_splits)
  with p n k show ?thesis
    by (intro that [of p]) simp_all
qed

text \<open>
  C19: A message over datagrams, compressed or not: when the datagrams that \<open>WriteUnreliable\<close> sent arrive, in any order
  and mixed with those of other messages and with sweeps that are in time, the receiving goroutine does not panic and puts exactly
  this message into its channel, once; unless an earlier message that does not decompress has ended it. The segments
  of the message are at most 65535.
\<close>

theorem datagrams_cross:
  assumes "flate_ok F" and "compressConfig r = compressConfig s"
    and "WriteUnreliable cl F (collect :: (bytes list, 'e) sender) m s [] = (s', sent, None)" and "length sent \<le> 65535"
    and "Buffers (readBufferForUnreliable r) (sequenceNumber s') = None" and "list_all well_sized es"
    and "mset (own (sequenceNumber s') es) = mset sent"
    and "list_all (in_time (sequenceNumber s') (ReadBufferExpiry (readBufferForUnreliable r)) T) es"
  shows "\<exists>r' out. datagram_loop (datagram_received F) es r = Inr (r', out) \<and>
    (results_of (sequenceNumber s') out = [Inr m] \<or>
     results_of (sequenceNumber s') out = [] \<and> (\<exists>k err. (k, Inl err) \<in> set out \<and> k \<noteq> sequenceNumber s'))"
proof -
  let ?k = "sequenceNumber s'"
  obtain p where p: "encodeFunc F s m = Inr p" "fst (SendTo (collect :: (bytes list, 'e) sender) ?k p []) = sent"
    "length p div 1188 < 65535"
    by (rule sent_datagrams [OF assms(3,4)])
  from seg_reassembles [OF p(3) assms(5,6) _ assms(8), where 'e = 'e] assms(7) obtain buf ms where
    run: "seg_run es (readBufferForUnreliable r) = Inr (buf, ms)"
    and "delivered ?k ms = replicate (seg_count p - 1) None @ [Some p]"
    by (auto simp: p(2))
  then have "results_of ?k (decoded (decodeFunc F r) ms) = [decodeFunc F r p]"
    by (simp add: results_of_decoded)
  moreover have "decodeFunc F r p = Inr m"
    using p(1) assms(1,2) by (auto simp: encodeFunc_def decodeFunc_def inflate_deflate split: if_splits)
  ultimately show ?thesis
    using loop_of_run [OF run, of F] results_until_error [of ?k "decoded (decodeFunc F r) ms" m] by auto
qed

text \<open>A message in two segments, the second first, with a message of one segment and a sweep between them.\<close>

definition sample_message :: bytes where "sample_message = replicate 1200 7"

definition sample_arrivals :: "seg_step list" where
  "sample_arrivals =
     [Recv 10 (datagram 0 1 1 (replicate 12 7)), Recv 20 (datagram 6 0 0 [9]), Tick 30,
      Recv 40 (datagram 0 0 1 (replicate 1188 7))]"

theorem datagrams_cross_witness:
  "\<exists>r' out. datagram_loop (datagram_received no_flate) sample_arrivals (sample_end 0 0) = Inr (r', out) \<and>
    (results_of 0 out = [Inr sample_message] \<or>
     results_of 0 out = [] \<and> (\<exists>k err. (k, Inl err) \<in> set out \<and> k \<noteq> 0))"
proof -
  define s' where "s' = (sample_end 0 0)\<lparr>sequenceNumber := 0, txBytesCounter := 1216\<rparr>"
  have n: "seg_count sample_message = 2" "length sample_message div 1188 < 65536"
    by (simp_all add: seg_count_def sample_message_def)
  have s': "sequenceNumber s' = 0"
    by (simp add: s'_def)
  have sent: "WriteUnreliable (\<lambda>_. False) no_flate (collect :: (bytes list, unit) sender) sample_message (sample_end 0 0) [] =
      (s', segments 0 sample_message, None)"
    using SendTo_collect [OF n(2), of 0 "[]", where 'e = unit] n(1)
    by (simp add: WriteUnreliable_def encodeFunc_def sample_defs s'_def) (simp add: sample_message_def)
  have segs: "segments 0 sample_message = [datagram 0 0 1 (replicate 1188 7), datagram 0 1 1 (replicate 12 7)]"
    by (simp add: segments_def seg_count_def seg_payload_def sample_message_def upt_rec numeral_eq_Suc [of num.One])
  have fresh: "flate_ok no_flate" "compressConfig (sample_end 0 0) = compressConfig (sample_end 0 0)"
      "Buffers (readBufferForUnreliable (sample_end 0 0)) (sequenceNumber s') = None"
    by (simp_all add: flate_ok_def no_flate_def sample_defs)
  have arrivals: "list_all well_sized sample_arrivals" "mset (own (sequenceNumber s') sample_arrivals) = mset (segments 0 sample_message)"
      "list_all (in_time (sequenceNumber s') (ReadBufferExpiry (readBufferForUnreliable (sample_end 0 0))) 30) sample_arrivals"
    by (simp_all add: sample_arrivals_def s' segs sample_defs Second_def)
  show ?thesis
    using datagrams_cross [OF fresh(1,2) sent _ fresh(3) arrivals] by (simp add: segs s')
qed

text \<open>
  C20: The WebTransport transport does what the QUIC transport does: it has the same initial states, its two ends and the network
  take the same steps, its datagrams have the same effect, and each write leaves the same state and bytes. It differs in the error a
  write returns: QUIC reports a closed connection as \<open>ErrAlreadyClosed\<close>, WebTransport returns the library's
  error, which callers that ask for \<open>ErrAlreadyClosed\<close> do not recognise.
\<close>

theorem webtransport_is_quic:
  "(wtstart w \<longleftrightarrow> qstart w) \<and> (wtstep F w w' \<longleftrightarrow> qstep F w w') \<and>
   datagram_loop (wt_datagram_received F) es t = datagram_loop (datagram_received F) es t \<and>
   Quic.Write cl F wr m t x = (case wt_Write F wr m t x of (t, x, err) \<Rightarrow> (t, x, map_option (report cl) err)) \<and>
   WriteUnreliable cl F conn m t y =
     (case wt_WriteUnreliable cl F conn m t y of (t, y, err) \<Rightarrow> (t, y, map_option (report cl) err)) \<and>
   snd (snd (wt_Write F wr m t x)) \<noteq> Some AlreadyClosed"
  using Write_reports [of cl F wr m t x] WriteUnreliable_reports [of cl F conn m t y]
  by (simp add: wtstart_eq wtstep_eq wt_datagram_received_eq wt_Write_never_closed)

end
