(* ===== verification/Reconnect.thy ===== *)
theory Reconnect
  imports Prelude Complex_Main
begin

text \<open>
  The reconnecting transport (\<open>src/transport/reconnect/transport.go\<close>, \<open>src/transport/reconnect/status.go\<close>): the
  goroutines that make the first connection, read and write, the calls of \<open>Close\<close>, and \<open>reconnect\<close>, which the
  reading and the writing loop both call. An underlying transport is numbered in the order of dialling. Pings and
  pongs are requests like all others here, and the reading loop does not wait for the answer to its pong; their format is
  in the theory \<open>Control\<close>.
\<close>

section \<open>State\<close>

datatype Status = StatusConnected | StatusReconnecting | StatusDisconnected | StatusConnecting

text \<open>A call of \<open>reconnect\<close> for the transport \<open>old\<close>; from \<open>RecTrying\<close> on it holds \<open>mu\<close>, after \<open>i\<close> attempts.\<close>

datatype rec = RecWaiting nat | RecTrying nat | RecConnecting nat

text \<open>A call of \<open>waitForConnection\<close> that found the status connecting, or has not looked yet.\<close>

datatype waiting = WaitStatus | WaitDone

datatype initial =
  Dialling nat  \<comment> \<open>after this number of attempts\<close>
| Dialled nat
| Assigned  \<comment> \<open>before \<open>doneProcess\<close>\<close>
| Failed
| DoneCancelling  \<comment> \<open>in \<open>doneProcess\<close>, before its \<open>cancel\<close>\<close>
| InitialEnded

text \<open>\<open>initialConnectDoneCh\<close>: one value, which says whether there was an error, then closed.\<close>

datatype done_ch = DoneEmpty | DoneHas bool | DoneClosed

datatype reader =
  ReadWaiting waiting
| ReadLoop
| Reading nat
| ReadReconnect rec
| ReadEnded

datatype 'm writer =
  WriteIdle
| WriteWaiting 'm waiting
| Writing 'm
| WritingTo 'm nat
| WriteReconnect 'm rec
| WriteLeft 'm  \<comment> \<open>returns without an answer\<close>
| WriteEnded

text \<open>A call of \<open>CloseWithStatus\<close> after its \<open>cancel\<close>.\<close>

datatype rcloser = RCloseWaiting | RCloseReturned

text \<open>
  \<open>gone\<close> are the transports that were closed, \<open>broken\<close> those whose connection was lost, \<open>no_closer\<close> those that do not
  implement \<open>Closer\<close>. The last fields are histories: the messages handed to the writing loop; those it has finished
  with, each with the transport that took it, or \<open>None\<close> when its sender was told of an error or left without an
  answer; and those the reading loop has passed on.
\<close>

record 'm rworld =
  maxReconnectAttempts :: int
  status :: Status
  transport :: "nat option"
  dialled :: nat
  gone :: "nat \<Rightarrow> bool"
  broken :: "nat \<Rightarrow> bool"
  no_closer :: "nat \<Rightarrow> bool"
  cancelled :: bool
  initialConnectDoneCh :: done_ch
  initial :: initial
  reader :: reader
  writer :: "'m writer"
  rclosers :: "rcloser list"
  writeReqCh :: "'m list"
  requested :: "'m list"
  processed :: "('m \<times> nat option) list"
  received :: "'m list"

definition rworld_init :: "int \<Rightarrow> (nat \<Rightarrow> bool) \<Rightarrow> 'm rworld" where
  "rworld_init n nc =
     \<lparr>maxReconnectAttempts = (if n = 0 then 30 else n), status = StatusConnecting, transport = None, dialled = 0,
      gone = (\<lambda>t. False), broken = (\<lambda>t. False), no_closer = nc, cancelled = False,
      initialConnectDoneCh = DoneEmpty, initial = Dialling 0, reader = ReadWaiting WaitStatus, writer = WriteIdle,
      rclosers = [], writeReqCh = [], requested = [], processed = [], received = []\<rparr>"

definition writeReqCh_cap :: nat where "writeReqCh_cap = 1024"

text \<open>The calls of \<open>reconnect\<close> that hold \<open>mu\<close>.\<close>

fun rec_holds :: "rec \<Rightarrow> bool" where
  "rec_holds (RecWaiting t) = False" | "rec_holds (RecTrying i) = True" | "rec_holds (RecConnecting i) = True"

fun reader_holds :: "reader \<Rightarrow> bool" where
  "reader_holds (ReadReconnect r) = rec_holds r" | "reader_holds _ = False"

fun writer_holds :: "'m writer \<Rightarrow> bool" where
  "writer_holds (WriteReconnect m r) = rec_holds r" | "writer_holds _ = False"

definition mu_free :: "'m rworld \<Rightarrow> bool" where
  "mu_free w =
     (\<not> reader_holds (reader w) \<and> \<not> writer_holds (writer w))"

section \<open>Operations\<close>

definition shut :: "nat \<Rightarrow> 'm rworld \<Rightarrow> 'm rworld" where
  "shut t w = w\<lparr>gone := (gone w)(t := True)\<rparr>"

text \<open>The limit on attempts, in \<open>initialConnect\<close> and \<open>reconnect\<close>.\<close>

definition exhausted :: "nat \<Rightarrow> 'm rworld \<Rightarrow> bool" where
  "exhausted i w = (maxReconnectAttempts w \<ge> 0 \<and> int i \<ge> maxReconnectAttempts w)"

text \<open>\<open>doneProcess\<close> up to its \<open>cancel\<close>; the value is sent once.\<close>

definition doneProcess :: "bool \<Rightarrow> Status \<Rightarrow> 'm rworld \<Rightarrow> 'm rworld" where
  "doneProcess err st w =
     w\<lparr>status := st,
       initialConnectDoneCh := (if initialConnectDoneCh w = DoneEmpty then DoneHas err else initialConnectDoneCh w),
       initial := (if err then DoneCancelling else InitialEnded)\<rparr>"

definition dial_succeeds :: "'m rworld \<Rightarrow> 'm rworld" where
  "dial_succeeds w = w\<lparr>dialled := Suc (dialled w), initial := Dialled (dialled w)\<rparr>"

text \<open>The critical section of \<open>initialConnect\<close>.\<close>

definition initial_assign :: "nat \<Rightarrow> 'm rworld \<Rightarrow> 'm rworld" where
  "initial_assign t w =
     (if cancelled w then (shut t w)\<lparr>initial := Failed\<rparr>
      else w\<lparr>transport := Some t, initial := Assigned\<rparr>)"

text \<open>\<open>waitForConnection\<close>: \<open>Inl None\<close> waits on, \<open>Inl (Some p)\<close> goes on to \<open>p\<close>, \<open>Inr e\<close> returns, with an error if \<open>e\<close>.\<close>

fun waitForConnection :: "waiting \<Rightarrow> 'm rworld \<Rightarrow> 'm rworld \<times> (waiting option + bool)" where
  "waitForConnection WaitStatus w =
     (w, if status w = StatusConnected then Inr False
         else if status w = StatusDisconnected \<and> \<not> cancelled w then Inr True
         else if status w = StatusConnecting then Inl (Some WaitDone)
         else Inr False)"
| "waitForConnection WaitDone w =
     (case initialConnectDoneCh w of
        DoneHas err \<Rightarrow> (w\<lparr>initialConnectDoneCh := DoneClosed\<rparr>, Inr (err \<or> status w \<noteq> StatusConnected))
      | DoneClosed \<Rightarrow> (w, Inr (status w \<noteq> StatusConnected))
      | DoneEmpty \<Rightarrow> (w, Inl None))"

text \<open>The start of \<open>reconnect\<close>, with its outcome if it has one: \<open>Some e\<close> returns, with an error if \<open>e\<close>.\<close>

definition reconnect_start :: "nat \<Rightarrow> 'm rworld \<Rightarrow> 'm rworld \<times> bool option" where
  "reconnect_start old w =
     (if cancelled w then (w, Some True)
      else
        (let w = w\<lparr>status := StatusReconnecting\<rparr>
         in if transport w \<noteq> Some old then (w, Some False)
            else (shut old w, None)))"

text \<open>The start of a round of its loop, and its end; \<open>ok\<close> is that \<open>Connect\<close> has succeeded.\<close>

definition reconnect_try :: "nat \<Rightarrow> 'm rworld \<Rightarrow> bool option" where
  "reconnect_try i w = (if exhausted i w then Some True else if cancelled w then Some True else None)"

definition reconnect_connected :: "bool \<Rightarrow> 'm rworld \<Rightarrow> 'm rworld \<times> bool option" where
  "reconnect_connected ok w =
     (if \<not> ok then (w, None)
      else (w\<lparr>dialled := Suc (dialled w), transport := Some (dialled w), status := StatusConnected\<rparr>, Some False))"

text \<open>\<open>CloseWithStatus\<close>: \<open>cancel\<close>, then the section under \<open>mu\<close>.\<close>

definition close_start :: "'m rworld \<Rightarrow> 'm rworld" where
  "close_start w = w\<lparr>cancelled := True, rclosers := rclosers w @ [RCloseWaiting]\<rparr>"

definition close_finish :: "nat \<Rightarrow> 'm rworld \<Rightarrow> 'm rworld" where
  "close_finish k w =
     (let w = (case transport w of None \<Rightarrow> w | Some t \<Rightarrow> if no_closer w t then w else shut t w)
      in w\<lparr>status := StatusDisconnected, rclosers := (rclosers w)[k := RCloseReturned]\<rparr>)"

text \<open>Where a loop goes on after \<open>reconnect\<close>.\<close>

definition reader_after :: "rec \<Rightarrow> bool option \<Rightarrow> reader" where
  "reader_after r res = (case res of None \<Rightarrow> ReadReconnect r | Some True \<Rightarrow> ReadEnded | Some False \<Rightarrow> ReadLoop)"

definition writer_after :: "'m \<Rightarrow> rec \<Rightarrow> bool option \<Rightarrow> 'm rworld \<Rightarrow> 'm rworld" where
  "writer_after m r res w =
     (case res of
        None \<Rightarrow> w\<lparr>writer := WriteReconnect m r\<rparr>
      | Some True \<Rightarrow> w\<lparr>writer := WriteEnded, processed := processed w @ [(m, None)]\<rparr>
      | Some False \<Rightarrow> w\<lparr>writer := Writing m\<rparr>)"

section \<open>Steps\<close>

text \<open>\<open>initialConnect\<close>:\<close>

inductive initial_step :: "'m rworld \<Rightarrow> 'm rworld \<Rightarrow> bool" where
  DialExhausted: "initial w = Dialling i \<Longrightarrow> exhausted i w \<Longrightarrow> initial_step w (w\<lparr>initial := Failed\<rparr>)"
| DialCancelled: "initial w = Dialling i \<Longrightarrow> \<not> exhausted i w \<Longrightarrow> cancelled w \<Longrightarrow> initial_step w (w\<lparr>initial := Failed\<rparr>)"
| DialFails: "initial w = Dialling i \<Longrightarrow> \<not> exhausted i w \<Longrightarrow> initial_step w (w\<lparr>initial := Dialling (Suc i)\<rparr>)"
| DialSucceeds: "initial w = Dialling i \<Longrightarrow> \<not> exhausted i w \<Longrightarrow> initial_step w (dial_succeeds w)"
| DialNoCloser: "initial w = Dialled t \<Longrightarrow> no_closer w t \<Longrightarrow> initial_step w (w\<lparr>initial := Failed\<rparr>)"
| InitialAssign: "initial w = Dialled t \<Longrightarrow> \<not> no_closer w t \<Longrightarrow> mu_free w \<Longrightarrow> initial_step w (initial_assign t w)"
| InitialDone: "initial w = Assigned \<Longrightarrow> initial_step w (doneProcess False StatusConnected w)"
| InitialFailed: "initial w = Failed \<Longrightarrow> initial_step w (doneProcess True StatusDisconnected w)"
| DoneCancel: "initial w = DoneCancelling \<Longrightarrow> initial_step w (w\<lparr>cancelled := True, initial := InitialEnded\<rparr>)"

text \<open>\<open>readLoop\<close>, with a timeout and an unreadable control message as failures of \<open>Read\<close>:\<close>

inductive read_step :: "'m rworld \<Rightarrow> 'm rworld \<Rightarrow> bool" where
  ReadWait: "reader w = ReadWaiting p \<Longrightarrow> waitForConnection p w = (w', res) \<Longrightarrow>
    read_step w (w'\<lparr>reader := (case res of Inl None \<Rightarrow> ReadWaiting p | Inl (Some p') \<Rightarrow> ReadWaiting p'
      | Inr err \<Rightarrow> if err then ReadEnded else ReadLoop)\<rparr>)"
| ReadCancelled: "reader w = ReadWaiting WaitDone \<or> reader w = ReadLoop \<or> reader w = Reading t \<Longrightarrow> cancelled w \<Longrightarrow> read_step w (w\<lparr>reader := ReadEnded\<rparr>)"
| ReadStart: "reader w = ReadLoop \<Longrightarrow> \<not> cancelled w \<Longrightarrow> mu_free w \<Longrightarrow> transport w = Some t \<Longrightarrow> read_step w (w\<lparr>reader := Reading t\<rparr>)"
| ReadData: "reader w = Reading t \<Longrightarrow> read_step w (w\<lparr>reader := ReadLoop, received := received w @ [m]\<rparr>)"
| ReadFails: "reader w = Reading t \<Longrightarrow> \<not> cancelled w \<Longrightarrow> read_step w (w\<lparr>reader := ReadReconnect (RecWaiting t)\<rparr>)"
| ReadReconnectStart: "reader w = ReadReconnect (RecWaiting t) \<Longrightarrow> mu_free w \<Longrightarrow> reconnect_start t w = (w', res) \<Longrightarrow>
    read_step w (w'\<lparr>reader := reader_after (RecTrying 0) res\<rparr>)"
| ReadReconnectTry: "reader w = ReadReconnect (RecTrying i) \<Longrightarrow>
    read_step w (w\<lparr>reader := reader_after (RecConnecting i) (reconnect_try i w)\<rparr>)"
| ReadReconnectConnected: "reader w = ReadReconnect (RecConnecting i) \<Longrightarrow> reconnect_connected ok w = (w', res) \<Longrightarrow>
    read_step w (w'\<lparr>reader := reader_after (RecTrying (Suc i)) res\<rparr>)"

text \<open>\<open>writeLoop\<close>:\<close>

inductive write_step :: "'m rworld \<Rightarrow> 'm rworld \<Rightarrow> bool" where
  WriteCancelled: "writer w = WriteIdle \<Longrightarrow> cancelled w \<Longrightarrow> write_step w (w\<lparr>writer := WriteEnded\<rparr>)"
| WriteTake: "writer w = WriteIdle \<Longrightarrow> writeReqCh w = m # ms \<Longrightarrow> mu_free w \<Longrightarrow>
    write_step w (w\<lparr>writeReqCh := ms, writer := (if transport w \<noteq> None then Writing m
      else if cancelled w then WriteLeft m else WriteWaiting m WaitStatus)\<rparr>)"
| WriteLeave: "writer w = WriteLeft m \<or> writer w = WriteWaiting m WaitDone \<and> cancelled w \<Longrightarrow>
    write_step w (w\<lparr>writer := (if writer w = WriteLeft m then WriteEnded else WriteIdle), processed := processed w @ [(m, None)]\<rparr>)"
| WriteWait: "writer w = WriteWaiting m p \<Longrightarrow> waitForConnection p w = (w', res) \<Longrightarrow> res \<noteq> Inr False \<or> mu_free w \<Longrightarrow>
    write_step w (case res of Inl None \<Rightarrow> w' | Inl (Some p') \<Rightarrow> w'\<lparr>writer := WriteWaiting m p'\<rparr>
      | Inr err \<Rightarrow> if err \<or> transport w' = None then w'\<lparr>writer := WriteIdle, processed := processed w' @ [(m, None)]\<rparr>
                   else w'\<lparr>writer := Writing m\<rparr>)"
| WriteStart: "writer w = Writing m \<Longrightarrow> mu_free w \<Longrightarrow> transport w = Some t \<Longrightarrow> write_step w (w\<lparr>writer := WritingTo m t\<rparr>)"
| WriteSucceeds: "writer w = WritingTo m t \<Longrightarrow> \<not> gone w t \<Longrightarrow> \<not> broken w t \<Longrightarrow>
    write_step w (w\<lparr>writer := WriteIdle, processed := processed w @ [(m, Some t)]\<rparr>)"
| WriteFails: "writer w = WritingTo m t \<Longrightarrow> \<not> cancelled w \<Longrightarrow> write_step w (w\<lparr>writer := WriteReconnect m (RecWaiting t)\<rparr>)"
| WriteFailsCancelled: "writer w = WritingTo m t \<Longrightarrow> cancelled w \<Longrightarrow> write_step w (w\<lparr>writer := WriteLeft m\<rparr>)"
| WriteReconnectStart: "writer w = WriteReconnect m (RecWaiting t) \<Longrightarrow> mu_free w \<Longrightarrow> reconnect_start t w = (w', res) \<Longrightarrow>
    write_step w (writer_after m (RecTrying 0) res w')"
| WriteReconnectTry: "writer w = WriteReconnect m (RecTrying i) \<Longrightarrow>
    write_step w (writer_after m (RecConnecting i) (reconnect_try i w) w)"
| WriteReconnectConnected: "writer w = WriteReconnect m (RecConnecting i) \<Longrightarrow> reconnect_connected ok w = (w', res) \<Longrightarrow>
    write_step w (writer_after m (RecTrying (Suc i)) res w')"

text \<open>All of them, with the network, the calls of \<open>Write\<close> and the pings, which put a request into the channel, and those of \<open>Close\<close>:\<close>

inductive rstep :: "'m rworld \<Rightarrow> 'm rworld \<Rightarrow> bool" where
  Initial: "initial_step w w' \<Longrightarrow> rstep w w'"
| Reader: "read_step w w' \<Longrightarrow> rstep w w'"
| Writer: "write_step w w' \<Longrightarrow> rstep w w'"
| Break: "t < dialled w \<Longrightarrow> rstep w (w\<lparr>broken := (broken w)(t := True)\<rparr>)"
| Request: "length (writeReqCh w) < writeReqCh_cap \<Longrightarrow>
    rstep w (w\<lparr>writeReqCh := writeReqCh w @ [m], requested := requested w @ [m]\<rparr>)"
| Close: "rstep w (close_start w)"
| CloseFinish: "k < length (rclosers w) \<Longrightarrow> rclosers w ! k = RCloseWaiting \<Longrightarrow> mu_free w \<Longrightarrow> rstep w (close_finish k w)"

section \<open>Round-trip times\<close>

text \<open>
  The round-trip time the transport measures with its pings, \<open>appRTT\<close>, smoothed with a factor; products of floating
  point numbers are taken exactly. Times are in nanoseconds.
\<close>

datatype RTTSource = RTTSourceAuto | RTTSourceApp | RTTSourceMetrics

record rtt_state =
  pingSeq :: u32
  pendingPongs :: "u32 \<rightharpoonup> int"
  appRTT :: int
  rttSmoothingFactor :: rat
  rttSource :: RTTSource

definition trunc :: "rat \<Rightarrow> int" where
  "trunc x = (if x < 0 then \<lceil>x\<rceil> else \<lfloor>x\<rfloor>)"

definition send_ping :: "int \<Rightarrow> rtt_state \<Rightarrow> rtt_state \<times> u32" where
  "send_ping now s =
     (let seq = pingSeq s + 1 in (s\<lparr>pingSeq := seq, pendingPongs := (pendingPongs s)(seq \<mapsto> now)\<rparr>, seq))"

definition handlePongReceived :: "int \<Rightarrow> u32 \<Rightarrow> rtt_state \<Rightarrow> rtt_state" where
  "handlePongReceived now seq s =
     (case pendingPongs s seq of
        None \<Rightarrow> s
      | Some sendTime \<Rightarrow>
        (let rtt = now - sendTime; s = s\<lparr>pendingPongs := (pendingPongs s)(seq := None)\<rparr>; alpha = rttSmoothingFactor s
         in if alpha \<ge> 1 \<or> appRTT s = 0 then s\<lparr>appRTT := rtt\<rparr>
            else s\<lparr>appRTT := trunc (of_int (appRTT s) * (1 - alpha) + of_int rtt * alpha)\<rparr>))"

definition reset_pings :: "rtt_state \<Rightarrow> rtt_state" where
  "reset_pings s = s\<lparr>pingSeq := 0, pendingPongs := Map.empty\<rparr>"

text \<open>\<open>metricsRTT\<close> is what the metrics provider says.\<close>

definition RTT :: "int \<Rightarrow> rtt_state \<Rightarrow> int" where
  "RTT metricsRTT s =
     (case rttSource s of
        RTTSourceApp \<Rightarrow> appRTT s
      | RTTSourceMetrics \<Rightarrow> metricsRTT
      | RTTSourceAuto \<Rightarrow> (if metricsRTT > 0 then metricsRTT else appRTT s))"

end
