(* ===== verification/Selectors.thy ===== *)
theory Selectors
  imports Reconnect
begin

text \<open>
  How the multi transport chooses the transport of a message: \<open>src/transport/multi/transport_info.go\<close>, the selectors
  (\<open>transport_selector.go\<close>, \<open>round_robin_selector.go\<close>, \<open>minrtt_selector.go\<close>, \<open>byte_balanced_selector.go\<close>,
  \<open>ecf_selector.go\<close>, \<open>polling_scheduler.go\<close>, \<open>event_scheduler.go\<close>) and their constants.

  The map of transports that \<open>Transports\<close> returns is the list of its entries, in the order in which \<open>range\<close> visits them,
  each with the status its transport has when it is asked. For the map a selector keeps over many calls, that order is an
  argument of each call. The metrics of a transport are what its provider, known by a number, says at that time.
\<close>

type_synonym TransportID = string
type_synonym TransportMap = "(TransportID \<times> Status) list"

text \<open>The first transport after \<open>selectedID\<close> that may be used: one connected, or else the first not disconnected.\<close>

fun fallback :: "TransportID \<Rightarrow> TransportMap \<Rightarrow> TransportID" where
  "fallback reconnectingID [] = reconnectingID"
| "fallback reconnectingID ((i, st) # transports) =
     (case st of
        StatusConnected \<Rightarrow> i
      | StatusDisconnected \<Rightarrow> fallback reconnectingID transports
      | _ \<Rightarrow> fallback (if reconnectingID = '''' then i else reconnectingID) transports)"

definition SelectAvailableTransport :: "TransportID \<Rightarrow> TransportMap \<Rightarrow> TransportID" where
  "SelectAvailableTransport selectedID transports =
     (if map_of transports selectedID = Some StatusConnected then selectedID else fallback '''' transports)"

text \<open>What a selector that knows its multi transport answers.\<close>

definition available :: "TransportMap option \<Rightarrow> TransportID \<Rightarrow> TransportID" where
  "available mt selectedID =
     (case mt of None \<Rightarrow> selectedID | Some transports \<Rightarrow> SelectAvailableTransport selectedID transports)"

section \<open>Metrics\<close>

text \<open>Durations in nanoseconds.\<close>

record provider =
  provider_RTT :: int
  provider_RTTVar :: int
  provider_CongestionWindow :: u64
  provider_BytesInFlight :: u64

type_synonym providers = "nat \<Rightarrow> provider"

record TransportInfo =
  transportID :: TransportID
  metricsProvider :: "nat option"
  sendingAllowed :: bool
  minRTT :: int

definition NewTransportInfo :: "TransportID \<Rightarrow> nat option \<Rightarrow> TransportInfo" where
  "NewTransportInfo i p = \<lparr>transportID = i, metricsProvider = p, sendingAllowed = False, minRTT = 0\<rparr>"

definition Update :: "providers \<Rightarrow> TransportInfo \<Rightarrow> TransportInfo" where
  "Update ps p =
     (case metricsProvider p of
        None \<Rightarrow> p\<lparr>sendingAllowed := False\<rparr>
      | Some m \<Rightarrow>
        (let p = p\<lparr>sendingAllowed := (provider_BytesInFlight (ps m) < provider_CongestionWindow (ps m))\<rparr>;
             currentRTT = provider_RTT (ps m)
         in if currentRTT > 0 \<and> (minRTT p = 0 \<or> currentRTT < minRTT p) then p\<lparr>minRTT := currentRTT\<rparr> else p))"

definition SmoothedRTT :: "providers \<Rightarrow> TransportInfo \<Rightarrow> int" where
  "SmoothedRTT ps p = (case metricsProvider p of None \<Rightarrow> 100 * 1000000 | Some m \<Rightarrow> provider_RTT (ps m))"

definition MinRTT :: "providers \<Rightarrow> TransportInfo \<Rightarrow> int" where
  "MinRTT ps p = (if minRTT p = 0 then SmoothedRTT ps p else minRTT p)"

definition MeanDeviation :: "providers \<Rightarrow> TransportInfo \<Rightarrow> int" where
  "MeanDeviation ps p = (case metricsProvider p of None \<Rightarrow> 50 * 1000000 | Some m \<Rightarrow> provider_RTTVar (ps m))"

definition CongestionWindow :: "providers \<Rightarrow> TransportInfo \<Rightarrow> u64" where
  "CongestionWindow ps p = (case metricsProvider p of None \<Rightarrow> 14600 | Some m \<Rightarrow> provider_CongestionWindow (ps m))"

definition BytesInFlight :: "providers \<Rightarrow> TransportInfo \<Rightarrow> u64" where
  "BytesInFlight ps p = (case metricsProvider p of None \<Rightarrow> 0 | Some m \<Rightarrow> provider_BytesInFlight (ps m))"

text \<open>\<open>Duration.Microseconds\<close> cuts off toward zero; the conversion to \<open>uint64\<close> wraps.\<close>

definition rttToMicroseconds :: "int \<Rightarrow> u64" where
  "rttToMicroseconds d = word_of_int (if d < 0 then - ((- d) div 1000) else d div 1000)"

section \<open>Round robin\<close>

record RoundRobinSelector =
  transportIDs :: "TransportID list"
  current :: nat

definition NewRoundRobinSelector :: "TransportID list \<Rightarrow> RoundRobinSelector" where
  "NewRoundRobinSelector ids = \<lparr>transportIDs = ids, current = 0\<rparr>"

definition selectNext :: "RoundRobinSelector \<Rightarrow> RoundRobinSelector \<times> TransportID" where
  "selectNext s =
     (if transportIDs s = [] then (s, '''')
      else (s\<lparr>current := (current s + 1) mod length (transportIDs s)\<rparr>, transportIDs s ! current s))"

definition RoundRobin_Get :: "TransportMap option \<Rightarrow> int \<Rightarrow> RoundRobinSelector \<Rightarrow> RoundRobinSelector \<times> TransportID" where
  "RoundRobin_Get mt bsSize s = (let (s, selectedID) = selectNext s in (s, available mt selectedID))"

section \<open>Statistics\<close>

record statistics =
  lastSelectedTransport :: TransportID
  totalSelections :: u64
  switchCount :: u64
  selectionCounts :: "TransportID \<rightharpoonup> u64"

text \<open>\<open>m[k]\<close> of a map with numbers: zero where there is no entry.\<close>

definition count :: "(TransportID \<rightharpoonup> u64) \<Rightarrow> TransportID \<Rightarrow> u64" where
  "count m i = (case m i of None \<Rightarrow> 0 | Some n \<Rightarrow> n)"

definition recordSelection :: "TransportID \<Rightarrow> 'a statistics_scheme \<Rightarrow> 'a statistics_scheme" where
  "recordSelection selectedID s =
     s\<lparr>totalSelections := totalSelections s + 1,
       switchCount := (if lastSelectedTransport s \<noteq> '''' \<and> lastSelectedTransport s \<noteq> selectedID then switchCount s + 1
                       else switchCount s),
       lastSelectedTransport := selectedID,
       selectionCounts := (selectionCounts s)(selectedID \<mapsto> count (selectionCounts s) selectedID + 1)\<rparr>"

definition ResetStats :: "'a statistics_scheme \<Rightarrow> 'a statistics_scheme" where
  "ResetStats s =
     s\<lparr>totalSelections := 0, switchCount := 0, selectionCounts := Map.empty, lastSelectedTransport := ''''\<rparr>"

section \<open>Minimal round-trip time\<close>

record MinRTTSelector = statistics +
  transports :: "TransportID \<rightharpoonup> TransportInfo"

definition NewMinRTTSelector :: MinRTTSelector where
  "NewMinRTTSelector = \<lparr>lastSelectedTransport = '''', totalSelections = 0, switchCount = 0, selectionCounts = Map.empty,
     transports = Map.empty\<rparr>"

definition UpdateTransport :: "providers \<Rightarrow> TransportID \<Rightarrow> TransportInfo \<Rightarrow> 'a MinRTTSelector_scheme \<Rightarrow> 'a MinRTTSelector_scheme" where
  "UpdateTransport ps i info s =
     (let info = (case transports s i of
                    Some existing \<Rightarrow> if minRTT existing > 0 then info\<lparr>minRTT := minRTT existing\<rparr> else info
                  | None \<Rightarrow> info)
      in s\<lparr>transports := (transports s)(i \<mapsto> Update ps info)\<rparr>)"

text \<open>One of the two searches of the loop: the transport found so far and its times.\<close>

definition closer :: "TransportID \<Rightarrow> u64 \<Rightarrow> u64 \<Rightarrow> TransportID \<times> u64 \<times> u64 \<Rightarrow> TransportID \<times> u64 \<times> u64" where
  "closer i currentMinRTT currentSmoothedRTT best =
     (case best of (bestID, bestMinRTT, bestSmoothedRTT) \<Rightarrow>
        if currentMinRTT < bestMinRTT \<or> currentMinRTT = bestMinRTT \<and> currentSmoothedRTT < bestSmoothedRTT
        then (i, currentMinRTT, currentSmoothedRTT) else best)"

fun minrtt_loop :: "providers \<Rightarrow> (TransportID \<times> TransportInfo) list \<Rightarrow> (TransportID \<times> u64 \<times> u64) \<times> (TransportID \<times> u64 \<times> u64) \<Rightarrow>
    (TransportID \<times> u64 \<times> u64) \<times> (TransportID \<times> u64 \<times> u64)" where
  "minrtt_loop ps [] acc = acc"
| "minrtt_loop ps ((i, info) # infos) (selected, fallbk) =
     (let currentMinRTT = rttToMicroseconds (MinRTT ps info); currentSmoothedRTT = rttToMicroseconds (SmoothedRTT ps info)
      in minrtt_loop ps infos
           (if sendingAllowed info then closer i currentMinRTT currentSmoothedRTT selected else selected,
            closer i currentMinRTT currentSmoothedRTT fallbk))"

text \<open>The entries of the map in the order of a run of \<open>range\<close>.\<close>

definition entries :: "TransportID list \<Rightarrow> (TransportID \<rightharpoonup> TransportInfo) \<Rightarrow> (TransportID \<times> TransportInfo) list" where
  "entries order m = List.map (\<lambda>i. (i, the (m i))) order"

definition selectTransportMinRTT :: "providers \<Rightarrow> TransportID list \<Rightarrow> 'a MinRTTSelector_scheme \<Rightarrow> 'a MinRTTSelector_scheme \<times> TransportID" where
  "selectTransportMinRTT ps order s =
     (case entries order (transports s) of
        [] \<Rightarrow> (s, '''')
      | [(i, info)] \<Rightarrow> (recordSelection i s, i)
      | infos \<Rightarrow>
        (let (selected, fallbk) = minrtt_loop ps infos (('''', - 1, - 1), ('''', - 1, - 1));
             selectedID = (if fst selected = '''' then fst fallbk else fst selected)
         in (if selectedID \<noteq> '''' then recordSelection selectedID s else s, selectedID)))"

definition MinRTT_Get :: "providers \<Rightarrow> TransportID list \<Rightarrow> TransportMap option \<Rightarrow> int \<Rightarrow> MinRTTSelector \<Rightarrow> MinRTTSelector \<times> TransportID" where
  "MinRTT_Get ps order mt bsSize s =
     (let (s, selectedID) = selectTransportMinRTT ps order s in (s, available mt selectedID))"

section \<open>Byte balance\<close>

record ByteBalancedSelector = statistics +
  balancedIDs :: "TransportID list"
  accumulatedBytes :: "TransportID \<rightharpoonup> u64"

definition NewByteBalancedSelector :: "TransportID list \<Rightarrow> ByteBalancedSelector" where
  "NewByteBalancedSelector ids =
     \<lparr>lastSelectedTransport = '''', totalSelections = 0, switchCount = 0, selectionCounts = Map.empty,
      balancedIDs = ids, accumulatedBytes = Map.empty\<rparr>"

fun min_bytes :: "(TransportID \<rightharpoonup> u64) \<Rightarrow> TransportMap \<Rightarrow> TransportID list \<Rightarrow> TransportID \<times> u64 \<Rightarrow> TransportID" where
  "min_bytes acc trs [] (selectedID, minBytes) = selectedID"
| "min_bytes acc trs (i # ids) (selectedID, minBytes) =
     (if map_of trs i = None then min_bytes acc trs ids (selectedID, minBytes)
      else if count acc i < minBytes then min_bytes acc trs ids (i, count acc i)
      else min_bytes acc trs ids (selectedID, minBytes))"

definition selectMinBytes :: "TransportMap option \<Rightarrow> ByteBalancedSelector \<Rightarrow> ByteBalancedSelector \<times> TransportID" where
  "selectMinBytes mt s =
     (case balancedIDs s of
        [] \<Rightarrow> (s, '''')
      | first # _ \<Rightarrow>
        (case mt of
           None \<Rightarrow> (recordSelection first s, first)
         | Some [] \<Rightarrow> (s, '''')
         | Some trs \<Rightarrow>
           (let selectedID = min_bytes (accumulatedBytes s) trs (balancedIDs s) ('''', - 1)
            in (if selectedID \<noteq> '''' then recordSelection selectedID s else s, selectedID))))"

definition addAccumulatedBytes :: "TransportID \<Rightarrow> u64 \<Rightarrow> ByteBalancedSelector \<Rightarrow> ByteBalancedSelector" where
  "addAccumulatedBytes i n s =
     s\<lparr>accumulatedBytes := (accumulatedBytes s)(i \<mapsto> count (accumulatedBytes s) i + n)\<rparr>"

definition ByteBalanced_Get :: "TransportMap option \<Rightarrow> int \<Rightarrow> ByteBalancedSelector \<Rightarrow> ByteBalancedSelector \<times> TransportID" where
  "ByteBalanced_Get mt bsSize s =
     (let (s, selectedID) = selectMinBytes mt s;
          finalID = available mt selectedID
      in (if finalID \<noteq> '''' \<and> bsSize > 0 then addAccumulatedBytes finalID (word_of_int bsSize) s else s, finalID))"

definition ByteBalanced_ResetStats :: "ByteBalancedSelector \<Rightarrow> ByteBalancedSelector" where
  "ByteBalanced_ResetStats s = (ResetStats s)\<lparr>accumulatedBytes := Map.empty\<rparr>"

section \<open>Earliest completion first\<close>

record ECFSelector = MinRTTSelector +
  waiting :: bool
  waitingForTransport :: TransportID
  queueSize :: u64
  firstInequalityTrueCount :: u64
  secondInequalityTrueCount :: u64
  actualWaitCount :: u64

definition NewECFSelector :: ECFSelector where
  "NewECFSelector =
     \<lparr>lastSelectedTransport = '''', totalSelections = 0, switchCount = 0, selectionCounts = Map.empty,
      transports = Map.empty, waiting = False, waitingForTransport = '''', queueSize = 0,
      firstInequalityTrueCount = 0, secondInequalityTrueCount = 0, actualWaitCount = 0\<rparr>"

definition ecfBeta :: u64 where "ecfBeta = 4"

record ecfTransportMetrics =
  rtt :: u64
  rttvar :: u64
  cwnd :: u64
  bytesInFlight :: u64
  allowed :: bool

definition ecf_metrics :: "providers \<Rightarrow> TransportInfo \<Rightarrow> ecfTransportMetrics" where
  "ecf_metrics ps info =
     \<lparr>rtt = rttToMicroseconds (SmoothedRTT ps info), rttvar = rttToMicroseconds (MeanDeviation ps info),
      cwnd = CongestionWindow ps info, bytesInFlight = BytesInFlight ps info, allowed = sendingAllowed info\<rparr>"

definition getMetricsFromBuffer :: "providers \<Rightarrow> (TransportID \<times> TransportInfo) list \<Rightarrow> TransportID \<Rightarrow> ecfTransportMetrics" where
  "getMetricsFromBuffer ps infos i =
     (case map_of infos i of
        Some info \<Rightarrow> ecf_metrics ps info
      | None \<Rightarrow> \<lparr>rtt = 0, rttvar = 0, cwnd = 0, bytesInFlight = 0, allowed = False\<rparr>)"

text \<open>The loop over the transports: the least \<open>MinRTT\<close> of all and the least round-trip time of those that may send.\<close>

fun ecf_loop :: "providers \<Rightarrow> (TransportID \<times> TransportInfo) list \<Rightarrow> (TransportID \<times> u64) \<times> (TransportID \<times> u64) \<Rightarrow>
    (TransportID \<times> u64) \<times> (TransportID \<times> u64)" where
  "ecf_loop ps [] acc = acc"
| "ecf_loop ps ((i, info) # infos) ((minRTTTransport, minBaseRTT), (availableTransport, availableMinRTT)) =
     (let m = ecf_metrics ps info; baseRTT = rttToMicroseconds (MinRTT ps info)
      in ecf_loop ps infos
           (if baseRTT < minBaseRTT then (i, baseRTT) else (minRTTTransport, minBaseRTT),
            if allowed m \<and> rtt m < availableMinRTT then (i, rtt m) else (availableTransport, availableMinRTT)))"

definition ecf_recordSelection :: "TransportID \<Rightarrow> 'a statistics_scheme \<Rightarrow> 'a statistics_scheme" where
  "ecf_recordSelection i s =
     s\<lparr>selectionCounts := (selectionCounts s)(i \<mapsto> count (selectionCounts s) i + 1), totalSelections := totalSelections s + 1\<rparr>"

text \<open>A selection that ends the waiting; \<open>switch\<close> is that a change of the transport is counted.\<close>

definition ecf_select :: "bool \<Rightarrow> TransportID \<Rightarrow> ECFSelector \<Rightarrow> ECFSelector \<times> TransportID" where
  "ecf_select switch selected s =
     (let s = s\<lparr>waiting := False\<rparr>;
          s = (if switch \<and> lastSelectedTransport s \<noteq> '''' \<and> lastSelectedTransport s \<noteq> selected
               then s\<lparr>switchCount := switchCount s + 1\<rparr> else s)
      in ((ecf_recordSelection selected s)\<lparr>lastSelectedTransport := selected\<rparr>, selected))"

text \<open>The two inequalities, of the metrics of the fastest transport and of the one available.\<close>

definition ecf_delta :: "ecfTransportMetrics \<Rightarrow> ecfTransportMetrics \<Rightarrow> u64" where
  "ecf_delta f s = max (rttvar f) (rttvar s)"

definition firstInequality :: "bool \<Rightarrow> u64 \<Rightarrow> ecfTransportMetrics \<Rightarrow> ecfTransportMetrics \<Rightarrow> bool" where
  "firstInequality wait queue f s =
     (let x_f = max queue (cwnd f);
          lhs = rtt f * (x_f + cwnd f);
          rhs = cwnd f * (rtt s + ecf_delta f s);
          waitingRhs = (if wait then rhs else 0)
      in ecfBeta * lhs < ecfBeta * rhs + waitingRhs)"

definition secondInequality :: "u64 \<Rightarrow> ecfTransportMetrics \<Rightarrow> ecfTransportMetrics \<Rightarrow> bool" where
  "secondInequality queue f s =
     (let x_s = max queue (cwnd s);
          lhs_s = rtt s * x_s;
          rhs_s = cwnd s * (2 * rtt f + ecf_delta f s)
      in lhs_s \<ge> rhs_s)"

definition selectTransportECF :: "bool \<Rightarrow> providers \<Rightarrow> TransportID list \<Rightarrow> ECFSelector \<Rightarrow> ECFSelector \<times> TransportID" where
  "selectTransportECF recordStats ps order s =
     (case entries order (transports s) of
        [] \<Rightarrow> (s, '''')
      | [(i, info)] \<Rightarrow> ecf_select False i s
      | infos \<Rightarrow>
        (let ((fastest, _), (available, _)) = ecf_loop ps infos (('''', - 1), ('''', - 1))
         in if available = '''' then (s, '''')
            else if fastest = available then ecf_select True fastest s
            else
              (let f = getMetricsFromBuffer ps infos fastest; a = getMetricsFromBuffer ps infos available
               in if \<not> firstInequality (waiting s) (queueSize s) f a then ecf_select True available s
                  else
                    (let s = (if recordStats then s\<lparr>firstInequalityTrueCount := firstInequalityTrueCount s + 1\<rparr> else s);
                         second = secondInequality (queueSize s) f a;
                         s = (if recordStats \<and> second then s\<lparr>secondInequalityTrueCount := secondInequalityTrueCount s + 1\<rparr> else s)
                     in if second
                        then (s\<lparr>waiting := True, waitingForTransport := fastest,
                               actualWaitCount := (if recordStats then actualWaitCount s + 1 else actualWaitCount s)\<rparr>, '''')
                        else ecf_select True available s))))"

text \<open>
  One round of the loop of \<open>Get\<close>, which sleeps between two rounds: meanwhile the metrics loop may have called
  \<open>UpdateTransport\<close>, the providers may say something else, and \<open>range\<close> may take another order.
\<close>

record poll =
  updates :: "(TransportID \<times> TransportInfo) list"
  says :: providers
  order_of :: "TransportID list"

text \<open>\<open>None\<close> is that \<open>Get\<close> has not returned after these rounds; a selection goes on to the map of transports, no selection does not.\<close>

fun ECF_rounds :: "bool \<Rightarrow> poll list \<Rightarrow> ECFSelector \<Rightarrow> (ECFSelector \<times> TransportID) option" where
  "ECF_rounds firstEvaluation [] s = None"
| "ECF_rounds firstEvaluation (p # polls) s =
     (let s = fold (\<lambda>(i, info). UpdateTransport (says p) i info) (updates p) s;
          (s, selected) = selectTransportECF firstEvaluation (says p) (order_of p) s
      in if selected \<noteq> '''' then Some (s, selected)
         else if \<not> waiting s then Some (s, '''')
         else ECF_rounds False polls s)"

definition ECF_Get :: "poll list \<Rightarrow> TransportMap option \<Rightarrow> int \<Rightarrow> ECFSelector \<Rightarrow> (ECFSelector \<times> TransportID) option" where
  "ECF_Get polls mt bsSize s =
     map_option (\<lambda>(s, selected). (s, if selected = '''' then '''' else available mt selected)) (ECF_rounds True polls s)"

definition TransportMinRTT :: "providers \<Rightarrow> TransportID \<Rightarrow> 'a MinRTTSelector_scheme \<Rightarrow> int" where
  "TransportMinRTT ps i s = (case transports s i of Some info \<Rightarrow> MinRTT ps info | None \<Rightarrow> 0)"

definition ECF_ResetStats :: "ECFSelector \<Rightarrow> ECFSelector" where
  "ECF_ResetStats s =
     s\<lparr>selectionCounts := Map.empty, totalSelections := 0, firstInequalityTrueCount := 0, secondInequalityTrueCount := 0,
       actualWaitCount := 0, switchCount := 0\<rparr>"

section \<open>Schedulers\<close>

text \<open>
  The identifier a scheduler holds is the last one its poller returned, or its subscriber sent; both are code of the
  application.
\<close>

datatype scheduler = Scheduler (currentTransportID: TransportID)

definition scheduler_next :: "TransportID \<Rightarrow> scheduler \<Rightarrow> scheduler" where
  "scheduler_next i s = Scheduler i"

definition scheduler_Get :: "TransportMap option \<Rightarrow> int \<Rightarrow> scheduler \<Rightarrow> scheduler \<times> TransportID" where
  "scheduler_Get mt bsSize s = (s, available mt (currentTransportID s))"

end
