(* ===== verification/Dialling.thy ===== *)
theory Dialling
  imports Wire Encoding Negotiation Selectors
begin

text \<open>
  How a connection is made: the configuration and its options (\<open>src/iscp/conn_options.go\<close>, \<open>const.go\<close>, \<open>Connect\<close> and
  \<open>ConnectWithConfig\<close> of \<open>conn.go\<close>), the dialling of one or several transports, with \<open>reconnect.Dial\<close> and the checks of
  \<open>multi.NewTransport\<close>, and \<open>connectWire\<close>, which runs the handshake over them. What the dialled transports hold
  open is counted: each has a number, and \<open>alive\<close> are those not closed.

  A dialer of the libraries is its network with its settings, of the type \<open>'c\<close>; \<open>net\<close> says what dialling returns, an error of
  the type \<open>'e\<close> or the negotiated parameters. Other dialers, of the type \<open>'d\<close>, and selectors, of the type \<open>'s\<close>, are the
  application's.
\<close>

section \<open>Configuration\<close>

definition TransportNameQUIC :: string where "TransportNameQUIC = ''quic''"
definition TransportNameWebSocket :: string where "TransportNameWebSocket = ''websocket''"
definition TransportNameWebTransport :: string where "TransportNameWebTransport = ''webtransport''"
definition TransportNameMulti :: string where "TransportNameMulti = ''multi''"
definition ProtocolVersion :: string where "ProtocolVersion = ''3.0.0''"

datatype network = NetWebSocket | NetQUIC | NetWebTransport

datatype ('c, 'd) dialer = NewDefaultDialer network | NewDialer network 'c | CustomDialer 'd

record ('c, 'd, 's) MultiTransportConfig =
  DialerMap :: "(TransportID \<times> ('c, 'd) dialer option) list"
  TransportSelector :: "'s option"
  MaxReconnectAttempts :: int
  ReconnectInterval :: duration

text \<open>A token source is what its \<open>n\<close>-th call returns. The logger, the event handlers and the repositories are left out.\<close>

type_synonym TokenSource = "nat \<Rightarrow> string + string"

record ('c, 'd, 's) ConnConfig =
  Address :: string
  Transport :: string
  MultiTransport :: "('c, 'd, 's) MultiTransportConfig option"  \<comment> \<open>the field \<open>MultiTransportConfig\<close>\<close>
  WebSocketConfig :: "'c option"
  QUICConfig :: "'c option"
  WebTransportConfig :: "'c option"
  Encoding :: string
  CompressConfig :: Config
  NodeID :: string
  PingInterval :: duration
  PingTimeout :: duration
  ProjectUUID :: uuid
  Tokens :: "TokenSource option"  \<comment> \<open>the field \<open>TokenSource\<close>\<close>

definition StaticTokenSource :: "string \<Rightarrow> TokenSource" where
  "StaticTokenSource token n = Inr token"

definition defaultClientConfig :: "('c, 'd, 's) ConnConfig" where
  "defaultClientConfig =
     \<lparr>ConnConfig.Address = [], Transport = [], MultiTransport = None, WebSocketConfig = None, QUICConfig = None,
      WebTransportConfig = None, Encoding = EncodingNameProtobuf,
      CompressConfig = \<lparr>Enable = False, Level = 0, DisableContextTakeover = False, WindowBits = 0\<rparr>, NodeID = [],
      PingInterval = defaultPingInterval, PingTimeout = defaultPingTimeout, ProjectUUID = 0,
      Tokens = Some (StaticTokenSource [])\<rparr>"

text \<open>The options.\<close>

definition WithConnEncoding :: "string \<Rightarrow> ('c, 'd, 's) ConnConfig \<Rightarrow> ('c, 'd, 's) ConnConfig" where
  "WithConnEncoding e o' = o'\<lparr>ConnConfig.Encoding := e\<rparr>"

definition WithConnCompress :: "Config \<Rightarrow> ('c, 'd, 's) ConnConfig \<Rightarrow> ('c, 'd, 's) ConnConfig" where
  "WithConnCompress c o' = o'\<lparr>ConnConfig.CompressConfig := c\<rparr>"

definition WithConnWebSocket :: "'c \<Rightarrow> ('c, 'd, 's) ConnConfig \<Rightarrow> ('c, 'd, 's) ConnConfig" where
  "WithConnWebSocket c o' = o'\<lparr>WebSocketConfig := Some c\<rparr>"

definition WithConnQUIC :: "'c \<Rightarrow> ('c, 'd, 's) ConnConfig \<Rightarrow> ('c, 'd, 's) ConnConfig" where
  "WithConnQUIC c o' = o'\<lparr>QUICConfig := Some c\<rparr>"

definition WithConnWebTransport :: "'c \<Rightarrow> ('c, 'd, 's) ConnConfig \<Rightarrow> ('c, 'd, 's) ConnConfig" where
  "WithConnWebTransport c o' = o'\<lparr>WebTransportConfig := Some c\<rparr>"

definition WithConnTokenSource :: "TokenSource \<Rightarrow> ('c, 'd, 's) ConnConfig \<Rightarrow> ('c, 'd, 's) ConnConfig" where
  "WithConnTokenSource c o' = o'\<lparr>Tokens := Some c\<rparr>"

definition WithConnPingInterval :: "duration \<Rightarrow> ('c, 'd, 's) ConnConfig \<Rightarrow> ('c, 'd, 's) ConnConfig" where
  "WithConnPingInterval c o' = o'\<lparr>ConnConfig.PingInterval := c\<rparr>"

definition WithConnPingTimeout :: "duration \<Rightarrow> ('c, 'd, 's) ConnConfig \<Rightarrow> ('c, 'd, 's) ConnConfig" where
  "WithConnPingTimeout c o' = o'\<lparr>ConnConfig.PingTimeout := c\<rparr>"

definition WithConnProjectUUID :: "uuid \<Rightarrow> ('c, 'd, 's) ConnConfig \<Rightarrow> ('c, 'd, 's) ConnConfig" where
  "WithConnProjectUUID c o' = o'\<lparr>ConnConfig.ProjectUUID := c\<rparr>"

definition WithConnNodeID :: "string \<Rightarrow> ('c, 'd, 's) ConnConfig \<Rightarrow> ('c, 'd, 's) ConnConfig" where
  "WithConnNodeID c o' = o'\<lparr>ConnConfig.NodeID := c\<rparr>"

definition WithConnMultiTransport :: "('c, 'd, 's) MultiTransportConfig \<Rightarrow> ('c, 'd, 's) ConnConfig \<Rightarrow> ('c, 'd, 's) ConnConfig" where
  "WithConnMultiTransport c o' = o'\<lparr>MultiTransport := Some c\<rparr>"

section \<open>Dialling\<close>

text \<open>\<open>NilTokenSource\<close> is the panic of a call through a \<open>nil\<close> interface.\<close>

datatype 'e dial_error =
    NilTokenSource
  | TokenFailed string
  | UnsupportedTransport
  | DialFailed 'e
  | MultiTransportConfigRequired
  | DialerMapRequired
  | DialerRequired
  | EmptyTransportMap
  | EmptyGroupID
  | NilSelector
  | WireFailed connect_error

record dial_world =
  next_handle :: nat
  alive :: "nat list"
  token_calls :: nat

definition opened :: "dial_world \<Rightarrow> dial_world" where
  "opened w = w\<lparr>next_handle := Suc (next_handle w), alive := alive w @ [next_handle w]\<rparr>"

definition shut :: "nat list \<Rightarrow> dial_world \<Rightarrow> dial_world" where
  "shut hs w = w\<lparr>alive := filter (\<lambda>h. h \<notin> set hs) (alive w)\<rparr>"

text \<open>The names of encodings, and the encoding of a name.\<close>

definition resolveEncoding :: "uuid_lib \<Rightarrow> 'p pb_lib \<Rightarrow> 'p js_lib \<Rightarrow> string \<Rightarrow> 'p encoding" where
  "resolveEncoding L P J enc =
     (if enc = EncodingNameProtobuf then protobuf_NewEncoding L P
      else if enc = EncodingNameJSON then json_NewEncoding L J
      else protobuf_NewEncoding L P)"

definition toEncoding_name :: "string \<Rightarrow> string" where
  "toEncoding_name e =
     (if e = EncodingNameProtobuf then EncodingNameProtobuf
      else if e = EncodingNameJSON then EncodingNameJSON
      else EncodingNameProtobuf)"

text \<open>\<open>customDialFuncs\<close> is a map that tests fill in.\<close>

definition toDialer :: "(string \<rightharpoonup> 'd) \<Rightarrow> ('c, 'd, 's) ConnConfig \<Rightarrow> 'e dial_error + ('c, 'd) dialer" where
  "toDialer customDialFuncs c =
     (if Transport c = TransportNameWebSocket then
        Inr (case WebSocketConfig c of None \<Rightarrow> NewDefaultDialer NetWebSocket | Some d \<Rightarrow> NewDialer NetWebSocket d)
      else if Transport c = TransportNameQUIC then
        Inr (case QUICConfig c of None \<Rightarrow> NewDefaultDialer NetQUIC | Some d \<Rightarrow> NewDialer NetQUIC d)
      else if Transport c = TransportNameWebTransport then
        Inr (case WebTransportConfig c of None \<Rightarrow> NewDefaultDialer NetWebTransport | Some d \<Rightarrow> NewDialer NetWebTransport d)
      else case customDialFuncs (Transport c) of
             None \<Rightarrow> Inl UnsupportedTransport
           | Some d \<Rightarrow> Inr (CustomDialer d))"

subsection \<open>The reconnecting transport\<close>

text \<open>
  \<open>reconnect.Dial\<close>: the defaults of its configuration, and the parameters that the transport reports. It dials in the
  background, with \<open>dials_with\<close>. \<open>fresh\<close> is a random identifier.
\<close>

record ('c, 'd) ReconnectDialConfig =
  Dialer :: "('c, 'd) dialer option"
  Dial :: DialConfig  \<comment> \<open>the field \<open>DialConfig\<close>\<close>
  MaxAttempts :: int
  Interval :: duration
  PingEvery :: duration
  ReadWithin :: duration

record ('c, 'd) reconnecting =
  handle :: nat
  dials :: "('c, 'd) dialer"
  dials_with :: DialConfig
  maxReconnectAttempts :: int
  reconnectInterval :: duration
  pingInterval :: duration
  readTimeout :: duration
  negotiationParams :: NegotiationParams

definition milliseconds :: "i64 \<Rightarrow> duration" where
  "milliseconds n = n * word_of_int Millisecond"

definition Milliseconds :: "duration \<Rightarrow> i64" where
  "Milliseconds d = word_of_int (tdiv (sint d) Millisecond)"

text \<open>A negotiated value, the configured one, or the default.\<close>

definition negotiated_or :: "i64 option \<Rightarrow> duration \<Rightarrow> duration \<Rightarrow> duration" where
  "negotiated_or negotiated configured dflt =
     (case negotiated of
        Some n \<Rightarrow> if 0 < sint n then milliseconds n else if configured = 0 then dflt else configured
      | None \<Rightarrow> if configured = 0 then dflt else configured)"

definition new_reconnecting :: "string \<Rightarrow> ('c, 'd) ReconnectDialConfig \<Rightarrow> ('c, 'd) dialer \<Rightarrow> nat \<Rightarrow> ('c, 'd) reconnecting" where
  "new_reconnecting fresh c dialer h =
     (let interval = (if Interval c = 0 then word_of_int Second else Interval c);
          attempts = (if MaxAttempts c = 0 then 30 else MaxAttempts c);
          negParams = DialConfig_NegotiationParams (Dial c);
          ping = negotiated_or (NegotiationParams.PingInterval negParams) (PingEvery c) (10 * word_of_int Second);
          timeout = negotiated_or (ReadTimeout negParams) (ReadWithin c) (30 * word_of_int Second);
          dc = (if DialTransportID (Dial c) = [] then (Dial c)\<lparr>DialTransportID := fresh\<rparr> else Dial c);
          negParams = (case NegotiationParams.PingInterval negParams of
              None \<Rightarrow> negParams\<lparr>NegotiationParams.PingInterval := Some (Milliseconds ping)\<rparr> | Some i \<Rightarrow> negParams);
          negParams = (case ReadTimeout negParams of
              None \<Rightarrow> negParams\<lparr>ReadTimeout := Some (Milliseconds timeout)\<rparr> | Some i \<Rightarrow> negParams)
      in \<lparr>handle = h, dials = dialer, dials_with = dc, maxReconnectAttempts = attempts,
          reconnectInterval = interval, pingInterval = ping, readTimeout = timeout, negotiationParams = negParams\<rparr>)"

definition reconnect_Dial ::
    "string \<Rightarrow> ('c, 'd) ReconnectDialConfig \<Rightarrow> dial_world \<Rightarrow> dial_world \<times> ('e dial_error + ('c, 'd) reconnecting)" where
  "reconnect_Dial fresh c w =
     (case Dialer c of
        None \<Rightarrow> (w, Inl DialerRequired)
      | Some dialer \<Rightarrow> (opened w, Inr (new_reconnecting fresh c dialer (next_handle w))))"

subsection \<open>The multi transport\<close>

datatype 's chosen_selector = Given 's | RoundRobin RoundRobinSelector

datatype ('c, 'd, 's) conn_transport =
    SingleTransport nat NegotiationParams
  | OverSeveral "(TransportID \<times> ('c, 'd) reconnecting) list" "'s chosen_selector"

text \<open>The parameters of a multi transport are those of the first of its transports that \<open>range\<close> visits.\<close>

fun transport_NegotiationParams :: "('c, 'd, 's) conn_transport \<Rightarrow> NegotiationParams" where
  "transport_NegotiationParams (SingleTransport h p) = p"
| "transport_NegotiationParams (OverSeveral [] s) = zero_params"
| "transport_NegotiationParams (OverSeveral ((i, t) # ts) s) = negotiationParams t"

fun handles :: "('c, 'd, 's) conn_transport \<Rightarrow> nat list" where
  "handles (SingleTransport h p) = [h]"
| "handles (OverSeveral ts s) = map (\<lambda>t. handle (snd t)) ts"

definition multi_validateConfig ::
    "(TransportID \<times> ('c, 'd) reconnecting) list \<Rightarrow> 's chosen_selector option \<Rightarrow> 'e dial_error option" where
  "multi_validateConfig trMap selector =
     (if trMap = [] then Some EmptyTransportMap
      else if list_ex (\<lambda>t. TransportGroupID (negotiationParams (snd t)) = []) trMap then Some EmptyGroupID
      else if selector = None then Some NilSelector
      else None)"

definition normalize_multi :: "('c, 'd, 's) MultiTransportConfig \<Rightarrow> ('c, 'd, 's) MultiTransportConfig" where
  "normalize_multi m =
     (let m = (if MaxReconnectAttempts m = 0 then m\<lparr>MaxReconnectAttempts := 30\<rparr> else m)
      in if ReconnectInterval m = 0 then m\<lparr>ReconnectInterval := word_of_int Second\<rparr> else m)"

definition normalizeAndValidate ::
    "('c, 'd, 's) MultiTransportConfig \<Rightarrow> ('c, 'd, 's) MultiTransportConfig \<times> 'e dial_error option" where
  "normalizeAndValidate m = (if DialerMap m = [] then (m, Some DialerMapRequired) else (normalize_multi m, None))"

text \<open>
  The loop over \<open>DialerMap\<close>, whose entries are in the order of the range. A transport that cannot be dialled ends it.
\<close>

fun dial_each ::
    "(nat \<Rightarrow> string) \<Rightarrow> (TransportID \<Rightarrow> ('c, 'd) dialer option \<Rightarrow> ('c, 'd) ReconnectDialConfig) \<Rightarrow>
      (TransportID \<times> ('c, 'd) dialer option) list \<Rightarrow> dial_world \<Rightarrow>
      dial_world \<times> ('e dial_error + (TransportID \<times> ('c, 'd) reconnecting) list)" where
  "dial_each fresh config [] w = (w, Inr [])"
| "dial_each fresh config ((tID, dialer) # dialers) w =
     (case reconnect_Dial (fresh (next_handle w)) (config tID dialer) w of
        (w, Inl err) \<Rightarrow> (w, Inl err)
      | (w, Inr rtr) \<Rightarrow>
          (case dial_each fresh config dialers w of
             (w, Inl err) \<Rightarrow> (w, Inl err)
           | (w, Inr trMap) \<Rightarrow> (w, Inr ((tID, rtr) # trMap))))"

text \<open>\<open>tgID\<close> is the random identifier of the group, \<open>order\<close> the order in which the map of transports is ranged over.\<close>

definition createMultiTransport ::
    "(nat \<Rightarrow> string) \<Rightarrow> string \<Rightarrow> (TransportID list \<Rightarrow> TransportID list) \<Rightarrow> ('c, 'd, 's) ConnConfig \<Rightarrow> dial_world \<Rightarrow>
      ('c, 'd, 's) ConnConfig \<times> dial_world \<times> ('e dial_error + ('c, 'd, 's) conn_transport)" where
  "createMultiTransport fresh tgID order c w =
     (case MultiTransport c of
        None \<Rightarrow> (c, w, Inl MultiTransportConfigRequired)
      | Some m \<Rightarrow>
          (case normalizeAndValidate m of
             (m, Some err) \<Rightarrow> (c, w, Inl err)
           | (m, None) \<Rightarrow>
               let c = c\<lparr>MultiTransport := Some m\<rparr>;
                   config = (\<lambda>tID dialer.
                     \<lparr>Dialer = dialer,
                      Dial = \<lparr>DialConfig.Address = ConnConfig.Address c, DialCompressConfig = ConnConfig.CompressConfig c,
                        EncodingName = toEncoding_name (ConnConfig.Encoding c), DialTransportID = tID,
                        DialTransportGroupID = tgID, DialPingInterval = None, DialReadTimeout = None\<rparr>,
                      MaxAttempts = MaxReconnectAttempts m, Interval = ReconnectInterval m, PingEvery = 0, ReadWithin = 0\<rparr>)
               in (case dial_each fresh config (DialerMap m) w of
                     (w, Inl err) \<Rightarrow> (c, w, Inl err)
                   | (w, Inr trMap) \<Rightarrow>
                       (let selector = (case TransportSelector m of
                              Some s \<Rightarrow> Given s
                            | None \<Rightarrow> RoundRobin (NewRoundRobinSelector (order (map fst trMap))))
                        in (case multi_validateConfig trMap (Some selector) of
                              Some err \<Rightarrow> (c, shut (handles (OverSeveral trMap selector)) w, Inl err)
                            | None \<Rightarrow> (c, w, Inr (OverSeveral trMap selector)))))))"

subsection \<open>One transport\<close>

definition createSingleTransport ::
    "(string \<rightharpoonup> 'd) \<Rightarrow> (('c, 'd) dialer \<Rightarrow> DialConfig \<Rightarrow> 'e + NegotiationParams) \<Rightarrow> ('c, 'd, 's) ConnConfig \<Rightarrow> dial_world \<Rightarrow>
      dial_world \<times> ('e dial_error + ('c, 'd, 's) conn_transport)" where
  "createSingleTransport customDialFuncs net c w =
     (case toDialer customDialFuncs c of
        Inl err \<Rightarrow> (w, Inl err)
      | Inr dialer \<Rightarrow>
          (case net dialer \<lparr>DialConfig.Address = ConnConfig.Address c, DialCompressConfig = ConnConfig.CompressConfig c,
              EncodingName = toEncoding_name (ConnConfig.Encoding c), DialTransportID = [], DialTransportGroupID = [],
              DialPingInterval = None, DialReadTimeout = None\<rparr> of
             Inl err \<Rightarrow> (w, Inl (DialFailed err))
           | Inr params \<Rightarrow> (opened w, Inr (SingleTransport (next_handle w) params))))"

section \<open>The connection\<close>

record ('c, 'd, 's, 'p) session =
  over :: "('c, 'd, 's) conn_transport"
  encoding :: "'p encoding"
  unreliable :: "'p encoding option"  \<comment> \<open>the encoding of the unreliable transport, if there is one\<close>
  wire :: wireconn
  version :: string

text \<open>\<open>AsUnreliable\<close> of the transports with their numbers is \<open>unr\<close>; a multi transport takes the first that has one.\<close>

definition unreliableOrNil ::
    "uuid_lib \<Rightarrow> 'p pb_lib \<Rightarrow> 'p js_lib \<Rightarrow> (nat \<Rightarrow> bool) \<Rightarrow> ('c, 'd, 's) conn_transport \<Rightarrow> 'p encoding option" where
  "unreliableOrNil L P J unr tr =
     (if \<not> list_ex unr (handles tr) then None
      else Some (resolveEncoding L P J (NegotiationParams.Encoding (transport_NegotiationParams tr))))"

text \<open>What is not in the repository, and the answer of the peer: an argument of \<open>connectWire\<close>.\<close>

record ('c, 'd, 'e, 'p) environment =
  uuids :: uuid_lib
  pb :: "'p pb_lib"
  js :: "'p js_lib"
  semver_valid :: "string \<Rightarrow> bool"
  semver_compare :: "string \<Rightarrow> string \<Rightarrow> int"
  customDialFuncs :: "string \<rightharpoonup> 'd"
  net :: "('c, 'd) dialer \<Rightarrow> DialConfig \<Rightarrow> 'e + NegotiationParams"
  fresh :: "nat \<Rightarrow> string"
  tgID :: string
  range_order :: "TransportID list \<Rightarrow> TransportID list"
  unr :: "nat \<Rightarrow> bool"
  answer :: "Message option"

definition wire_config :: "string \<Rightarrow> ('c, 'd, 's) ConnConfig \<Rightarrow> connect_config" where
  "wire_config token c =
     \<lparr>CfgProtocolVersion = ProtocolVersion, CfgNodeID = ConnConfig.NodeID c, CfgAccessToken = token,
      CfgIntdash = Some \<lparr>IntdashExtensionFields.ProjectUUID = ConnConfig.ProjectUUID c\<rparr>,
      CfgPingInterval = ConnConfig.PingInterval c, CfgPingTimeout = ConnConfig.PingTimeout c\<rparr>"

definition handshake ::
    "('c, 'd, 'e, 'p) environment \<Rightarrow> string \<Rightarrow> ('c, 'd, 's) ConnConfig \<Rightarrow> ('c, 'd, 's) conn_transport \<Rightarrow> dial_world \<Rightarrow>
      dial_world \<times> ('e dial_error + ('c, 'd, 's, 'p) session)" where
  "handshake E token c tr w =
     (let enc = resolveEncoding (uuids E) (pb E) (js E) (NegotiationParams.Encoding (transport_NegotiationParams tr));
          un = unreliableOrNil (uuids E) (pb E) (js E) (unr E) tr
      in case snd (Connect (semver_valid E) (semver_compare E) (wire_config token c) (un \<noteq> None) (answer E)) of
           Inl err \<Rightarrow> (shut (handles tr) w, Inl (WireFailed err))
         | Inr (wc, v) \<Rightarrow> (w, Inr \<lparr>over = tr, encoding = enc, unreliable = un, wire = wc, version = v\<rparr>))"

definition call_Token :: "('c, 'd, 's) ConnConfig \<Rightarrow> dial_world \<Rightarrow> dial_world \<times> ('e dial_error + string)" where
  "call_Token c w =
     (case Tokens c of
        None \<Rightarrow> (w, Inl NilTokenSource)
      | Some t \<Rightarrow>
          (w\<lparr>token_calls := Suc (token_calls w)\<rparr>,
           (case t (token_calls w) of Inl err \<Rightarrow> Inl (TokenFailed err) | Inr token \<Rightarrow> Inr token)))"

definition connectWire ::
    "('c, 'd, 'e, 'p) environment \<Rightarrow> ('c, 'd, 's) ConnConfig \<Rightarrow> dial_world \<Rightarrow>
      ('c, 'd, 's) ConnConfig \<times> dial_world \<times> ('e dial_error + ('c, 'd, 's, 'p) session)" where
  "connectWire E c w =
     (case call_Token c w of
        (w, Inl err) \<Rightarrow> (c, w, Inl err)
      | (w, Inr token) \<Rightarrow>
          (case (if Transport c = TransportNameMulti
                 then createMultiTransport (fresh E) (tgID E) (range_order E) c w
                 else (c, createSingleTransport (customDialFuncs E) (net E) c w)) of
             (c, w, Inl err) \<Rightarrow> (c, w, Inl err)
           | (c, w, Inr tr) \<Rightarrow> (c, handshake E token c tr w)))"

text \<open>\<open>ConnectWithConfig\<close> up to its first session, and \<open>Connect\<close>, which applies the options in order.\<close>

definition config_defaults :: "('c, 'd, 's) ConnConfig \<Rightarrow> ('c, 'd, 's) ConnConfig" where
  "config_defaults c =
     (let c = (if ConnConfig.Encoding c = [] then c\<lparr>ConnConfig.Encoding := EncodingNameProtobuf\<rparr> else c);
          c = (if Tokens c = None then c\<lparr>Tokens := Some (\<lambda>n. Inr [])\<rparr> else c);
          c = (if ConnConfig.PingTimeout c = 0 then c\<lparr>ConnConfig.PingTimeout := defaultPingTimeout\<rparr> else c)
      in if ConnConfig.PingInterval c = 0 then c\<lparr>ConnConfig.PingInterval := defaultPingInterval\<rparr> else c)"

definition ConnectWithConfig ::
    "('c, 'd, 'e, 'p) environment \<Rightarrow> ('c, 'd, 's) ConnConfig \<Rightarrow> dial_world \<Rightarrow>
      ('c, 'd, 's) ConnConfig \<times> dial_world \<times> ('e dial_error + ('c, 'd, 's, 'p) session)" where
  "ConnectWithConfig E c w = connectWire E (config_defaults c) w"

definition Connect_conn ::
    "('c, 'd, 'e, 'p) environment \<Rightarrow> string \<Rightarrow> string \<Rightarrow> (('c, 'd, 's) ConnConfig \<Rightarrow> ('c, 'd, 's) ConnConfig) list \<Rightarrow>
      dial_world \<Rightarrow> ('c, 'd, 's) ConnConfig \<times> dial_world \<times> ('e dial_error + ('c, 'd, 's, 'p) session)" where
  "Connect_conn E address name opts w =
     ConnectWithConfig E
       ((fold (\<lambda>opt. opt) opts defaultClientConfig)\<lparr>ConnConfig.Address := address, Transport := name\<rparr>) w"

section \<open>What stays open\<close>

text \<open>The transports of a configuration that were dialled when the first entry without a dialer ended the loop.\<close>

definition before_missing :: "(TransportID \<times> ('c, 'd) dialer option) list \<Rightarrow> nat" where
  "before_missing ds = (if list_ex (\<lambda>d. snd d = None) ds then length (takeWhile (\<lambda>d. snd d \<noteq> None) ds) else 0)"

definition entries :: "('c, 'd, 's) ConnConfig \<Rightarrow> (TransportID \<times> ('c, 'd) dialer option) list" where
  "entries c = (case MultiTransport c of None \<Rightarrow> [] | Some m \<Rightarrow> DialerMap m)"

definition counted :: "dial_world \<Rightarrow> bool" where
  "counted w \<longleftrightarrow> list_all (\<lambda>h. h < next_handle w) (alive w)"

lemma handle_new [simp]: "handle (new_reconnecting f c d h) = h"
  by (simp add: new_reconnecting_def Let_def)

lemma DialerMap_normalize [simp]: "DialerMap (normalize_multi m) = DialerMap m"
  by (simp add: normalize_multi_def Let_def)

lemma dial_each_handles:
  assumes "\<forall>i d. Dialer (config i d) = d" "dial_each f config ds w = (w', res :: 'e dial_error + _)"
  shows "alive w' = alive w @ [next_handle w..<next_handle w'] \<and> next_handle w \<le> next_handle w' \<and>
    (case res of
       Inl err \<Rightarrow> err = DialerRequired \<and> list_ex (\<lambda>d. snd d = None) ds \<and> next_handle w' = next_handle w + before_missing ds
     | Inr trMap \<Rightarrow> map (\<lambda>t. handle (snd t)) trMap = [next_handle w..<next_handle w'] \<and> \<not> list_ex (\<lambda>d. snd d = None) ds)"
  using assms(2)
proof (induction ds arbitrary: w w' res)
  case (Cons e ds)
  obtain i d where e: "e = (i, d)"
    by force
  show ?case
  proof (cases d)
    case None
    with Cons.prems show ?thesis
      by (auto simp: e assms(1) before_missing_def reconnect_Dial_def)
  next
    case (Some d')
    obtain w1 r1 where r1: "dial_each f config ds (opened w) = (w1, r1 :: 'e dial_error + _)"
      by force
    note IH = Cons.IH [OF this]
    have first: "alive w1 = alive w @ [next_handle w..<next_handle w1]" "Suc (next_handle w) \<le> next_handle w1"
      "[next_handle w..<next_handle w1] = next_handle w # [Suc (next_handle w)..<next_handle w1]"
      using IH by (simp_all add: opened_def upt_conv_Cons)
    have dial: "reconnect_Dial (f (next_handle w)) (config i d) w =
        (opened w, Inr (new_reconnecting (f (next_handle w)) (config i d) d' (next_handle w)) :: 'e dial_error + _)"
      by (simp add: reconnect_Dial_def assms(1) Some)
    show ?thesis
    proof (cases r1)
      case (Inl err)
      then have "w' = w1" "res = Inl err"
        using Cons.prems r1 dial by (simp_all add: e)
      with IH Inl first show ?thesis
        by (simp add: e Some before_missing_def opened_def del: upt_Suc)
    next
      case (Inr trMap)
      then have "w' = w1" "res = Inr ((i, new_reconnecting (f (next_handle w)) (config i d) d' (next_handle w)) # trMap)"
        using Cons.prems r1 dial by (simp_all add: e)
      with IH Inr first show ?thesis
        by (simp add: e Some opened_def del: upt_Suc)
    qed
  qed
qed auto

lemma shut_new:
  assumes "counted w" "alive w' = alive w @ hs" "\<forall>h \<in> set hs. next_handle w \<le> h"
  shows "alive (shut hs w') = alive w"
proof -
  have "h \<notin> set hs" if "h \<in> set (alive w)" for h
    using assms(1,3) that by (fastforce simp: counted_def list_all_iff)
  then show ?thesis
    by (auto simp: shut_def assms(2) intro!: filter_True)
qed

lemma createMultiTransport_dials:
  fixes c :: "('c, 'd, 's) ConnConfig"
  assumes "MultiTransport c = Some m" "DialerMap m \<noteq> []" "createMultiTransport f g order c w = (c', w', res)"
  obtains config w1 r1 where "\<forall>i d. Dialer (config i d) = d"
    and "dial_each f config (DialerMap m) w = (w1, r1 :: 'e dial_error + _)"
    and "case r1 of Inl err \<Rightarrow> w' = w1 \<and> res = Inl err
      | Inr trMap \<Rightarrow> \<exists>sel. res = Inr (OverSeveral trMap sel) \<and> w' = w1 \<or>
          w' = shut (handles (OverSeveral trMap sel)) w1 \<and> res \<in> {Inl EmptyTransportMap, Inl EmptyGroupID, Inl NilSelector}"
proof -
  define config where "config = (\<lambda>tID dialer.
     \<lparr>Dialer = dialer,
      Dial = \<lparr>DialConfig.Address = ConnConfig.Address c, DialCompressConfig = ConnConfig.CompressConfig c,
        EncodingName = toEncoding_name (ConnConfig.Encoding c), DialTransportID = tID,
        DialTransportGroupID = g, DialPingInterval = None, DialReadTimeout = None\<rparr>,
      MaxAttempts = MaxReconnectAttempts (normalize_multi m), Interval = ReconnectInterval (normalize_multi m),
      PingEvery = 0, ReadWithin = 0\<rparr> :: ('c, 'd) ReconnectDialConfig)"
  obtain w1 r1 where d: "dial_each f config (DialerMap m) w = (w1, r1 :: 'e dial_error + _)"
    by force
  with assms have "case r1 of Inl err \<Rightarrow> w' = w1 \<and> res = Inl err
      | Inr trMap \<Rightarrow> \<exists>sel. res = Inr (OverSeveral trMap sel) \<and> w' = w1 \<or>
          w' = shut (handles (OverSeveral trMap sel)) w1 \<and> res \<in> {Inl EmptyTransportMap, Inl EmptyGroupID, Inl NilSelector}"
    by (cases r1)
      (auto simp: createMultiTransport_def normalizeAndValidate_def config_def Let_def multi_validateConfig_def
        split: if_splits)
  moreover have "\<forall>i d. Dialer (config i d) = d"
    by (simp add: config_def)
  ultimately show ?thesis
    using that [OF _ d] by simp
qed

lemma multi_leaves:
  assumes "counted w" "createMultiTransport f g order c w = (c', w', res :: 'e dial_error + _)"
  shows "case res of
      Inr tr \<Rightarrow> alive w' = alive w @ handles tr \<and> (\<forall>h \<in> set (handles tr). next_handle w \<le> h)
    | Inl err \<Rightarrow> alive w' = alive w @ (if err = DialerRequired then [next_handle w..<next_handle w + before_missing (entries c)] else [])"
proof (cases "entries c = []")
  case True
  with assms(2) show ?thesis
    by (auto simp: createMultiTransport_def normalizeAndValidate_def entries_def split: option.splits)
next
  case False
  then obtain m where m: "MultiTransport c = Some m" "DialerMap m = entries c" "DialerMap m \<noteq> []"
    by (auto simp: entries_def split: option.splits)
  obtain config w1 r1 where d: "\<forall>i d. Dialer (config i d) = d" "dial_each f config (DialerMap m) w = (w1, r1 :: 'e dial_error + _)"
    and r: "case r1 of Inl err \<Rightarrow> w' = w1 \<and> res = Inl err
      | Inr trMap \<Rightarrow> \<exists>sel. res = Inr (OverSeveral trMap sel) \<and> w' = w1 \<or>
          w' = shut (handles (OverSeveral trMap sel)) w1 \<and> res \<in> {Inl EmptyTransportMap, Inl EmptyGroupID, Inl NilSelector}"
    by (rule createMultiTransport_dials [OF m(1,3) assms(2)])
  note dialled = dial_each_handles [OF d]
  show ?thesis
  proof (cases r1)
    case (Inl err)
    with dialled r show ?thesis
      by (simp add: m(2))
  next
    case (Inr trMap)
    then have hs: "handles (OverSeveral trMap sel) = [next_handle w..<next_handle w1]"
      "alive w1 = alive w @ [next_handle w..<next_handle w1]" for sel :: "'c chosen_selector"
      using dialled by simp_all
    have "alive (shut [next_handle w..<next_handle w1] w1) = alive w"
      by (rule shut_new [OF assms(1) hs(2)]) auto
    with r Inr hs show ?thesis
      by auto
  qed
qed

lemma single_leaves:
  assumes "createSingleTransport cust lib c w = (w', res)"
  shows "case res of
      Inr tr \<Rightarrow> alive w' = alive w @ handles tr \<and> (\<forall>h \<in> set (handles tr). next_handle w \<le> h)
    | Inl err \<Rightarrow> alive w' = alive w \<and> err \<noteq> DialerRequired"
  using assms by (auto simp: createSingleTransport_def toDialer_def opened_def split: sum.splits if_splits option.splits)

lemma handshake_leaves:
  assumes "handshake E token c tr w = (w', res)"
  shows "case res of Inr s \<Rightarrow> over s = tr \<and> w' = w | Inl err \<Rightarrow> w' = shut (handles tr) w \<and> err \<noteq> DialerRequired"
  using assms by (auto simp: handshake_def Let_def split: sum.splits)

lemma call_Token_keeps:
  "call_Token c w = (w', r) \<Longrightarrow> alive w' = alive w \<and> next_handle w' = next_handle w \<and> r \<noteq> Inl DialerRequired"
  by (auto simp: call_Token_def split: option.splits sum.splits)

text \<open>
  C16: What a call of \<open>connectWire\<close> leaves open. When it succeeds, these are exactly the transports of its session. When it
  fails, at the token, the dialling or the handshake, everything it dialled has been closed, with one exception: when an entry of the
  multi transport's \<open>DialerMap\<close> has no dialer, the reconnecting transports of the entries before it stay open, with
  their goroutines, and nothing refers to them.
\<close>

theorem connectWire_leaves:
  fixes E :: "('c, 'd, 'e, 'p) environment"
  assumes "counted w" and "connectWire E c w = (c', w', res)"
  shows "alive w' = alive w @
    (case res of
       Inr s \<Rightarrow> handles (over s)
     | Inl err \<Rightarrow> if err = DialerRequired then [next_handle w..<next_handle w + before_missing (entries c)] else [])"
proof -
  obtain w1 r1 where t: "call_Token c w = (w1, r1 :: 'e dial_error + string)"
    by force
  note same = call_Token_keeps [OF t]
  show ?thesis
  proof (cases r1)
    case (Inl err)
    with assms(2) t same show ?thesis
      by (auto simp: connectWire_def)
  next
    case (Inr token)
    obtain c2 w2 r2 where d: "(if Transport c = TransportNameMulti
        then createMultiTransport (fresh E) (tgID E) (range_order E) c w1
        else (c, createSingleTransport (customDialFuncs E) (net E) c w1)) = (c2, w2, r2)"
      by (metis prod_cases3)
    have c1: "counted w1"
      using assms(1) same by (simp add: counted_def)
    have left: "case r2 of
        Inr tr \<Rightarrow> alive w2 = alive w @ handles tr \<and> (\<forall>h \<in> set (handles tr). next_handle w1 \<le> h)
      | Inl err \<Rightarrow> alive w2 = alive w @ (if err = DialerRequired then [next_handle w..<next_handle w + before_missing (entries c)] else [])"
      using d multi_leaves [OF c1, of "fresh E" "tgID E" "range_order E" c c2 w2 r2] same
        single_leaves [of "customDialFuncs E" "net E" c w1 w2 r2]
      by (auto split: if_splits sum.splits)
    show ?thesis
    proof (cases r2)
      case (Inl err)
      with assms(2) t Inr d left show ?thesis
        by (auto simp: connectWire_def)
    next
      case (Inr tr)
      have h: "handshake E token c2 tr w2 = (w', res)"
        using assms(2) t \<open>r1 = Inr token\<close> d Inr by (auto simp: connectWire_def)
      have "alive (shut (handles tr) w2) = alive w1"
        using shut_new [OF c1] left Inr same by simp
      with handshake_leaves [OF h] left Inr same show ?thesis
        by (auto split: sum.splits)
    qed
  qed
qed

text \<open>Three transports, of which the third has no dialer.\<close>

definition sample_config :: "(unit, unit, unit) ConnConfig" where
  "sample_config = WithConnMultiTransport
     \<lparr>DialerMap = [(''a'', Some (NewDefaultDialer NetQUIC)), (''b'', Some (NewDefaultDialer NetWebSocket)), (''c'', None)],
      TransportSelector = None, MaxReconnectAttempts = 0, ReconnectInterval = 0\<rparr>
     (defaultClientConfig\<lparr>Transport := TransportNameMulti\<rparr>)"

definition sample_dial_world :: dial_world where
  "sample_dial_world = \<lparr>next_handle = 7, alive = [3], token_calls = 0\<rparr>"

lemma sample_connectWire:
  "connectWire E sample_config sample_dial_world =
     (sample_config\<lparr>MultiTransport := map_option normalize_multi (MultiTransport sample_config)\<rparr>,
      \<lparr>next_handle = 9, alive = [3, 7, 8], token_calls = 1\<rparr>, Inl DialerRequired)"
  by (simp add: connectWire_def sample_config_def sample_dial_world_def call_Token_def StaticTokenSource_def
      defaultClientConfig_def WithConnMultiTransport_def createMultiTransport_def normalizeAndValidate_def reconnect_Dial_def
      opened_def normalize_multi_def Let_def)

theorem connectWire_leaves_witness:
  "\<forall>E :: (unit, unit, unit, unit) environment. alive (fst (snd (connectWire E sample_config sample_dial_world))) = [3] @ [7..<9]"
proof
  fix E :: "(unit, unit, unit, unit) environment"
  show "alive (fst (snd (connectWire E sample_config sample_dial_world))) = [3] @ [7..<9]"
    using connectWire_leaves [OF _ sample_connectWire [of E]] sample_connectWire [of E]
    by (simp add: counted_def sample_dial_world_def before_missing_def entries_def sample_config_def WithConnMultiTransport_def)
qed

section \<open>The encoding of a session\<close>

text \<open>
  The session speaks the configured encoding over all of its transports, when the networks' dialers report the parameters
  they were given.
\<close>

lemma Encoding_new [simp]: "NegotiationParams.Encoding (negotiationParams (new_reconnecting f c d h)) = EncodingName (Dial c)"
  by (simp add: new_reconnecting_def DialConfig_NegotiationParams_def Let_def split: option.split)

lemma dial_each_params:
  assumes "dial_each f config ds w = (w', Inr trMap :: 'e dial_error + _)"
    and "\<forall>i d. EncodingName (Dial (config i d)) = name"
  shows "list_all (\<lambda>t. NegotiationParams.Encoding (negotiationParams (snd t)) = name) trMap"
  using assms(1)
proof (induction ds arbitrary: w trMap)
  case (Cons e ds)
  obtain i d where e: "e = (i, d)"
    by force
  obtain w1 r1 where r1: "dial_each f config ds (opened w) = (w1, r1 :: 'e dial_error + _)"
    by force
  show ?case
  proof (cases "Dialer (config i d)")
    case None
    with Cons.prems show ?thesis
      by (simp add: e reconnect_Dial_def)
  next
    case (Some d')
    with Cons.prems r1 Cons.IH [of "opened w"] assms(2) show ?thesis
      by (cases r1) (auto simp: e reconnect_Dial_def)
  qed
qed simp

lemma multi_encoding:
  assumes "createMultiTransport f g order c w = (c', w', Inr tr :: 'e dial_error + _)"
  shows "NegotiationParams.Encoding (transport_NegotiationParams tr) = toEncoding_name (ConnConfig.Encoding c)"
proof (cases "MultiTransport c")
  case None
  with assms show ?thesis
    by (simp add: createMultiTransport_def)
next
  case (Some m)
  let ?c = "\<lambda>tID dialer. \<lparr>Dialer = dialer,
      Dial = \<lparr>DialConfig.Address = ConnConfig.Address c, DialCompressConfig = ConnConfig.CompressConfig c,
        EncodingName = toEncoding_name (ConnConfig.Encoding c), DialTransportID = tID,
        DialTransportGroupID = g, DialPingInterval = None, DialReadTimeout = None\<rparr>,
      MaxAttempts = MaxReconnectAttempts (normalize_multi m), Interval = ReconnectInterval (normalize_multi m),
      PingEvery = 0, ReadWithin = 0\<rparr>"
  obtain w1 r1 where d: "dial_each f ?c (DialerMap m) w = (w1, r1 :: 'e dial_error + _)"
    by force
  obtain trMap sel where "r1 = Inr trMap" "tr = OverSeveral trMap sel" "trMap \<noteq> []"
    using assms Some d
    by (cases r1) (auto simp: createMultiTransport_def normalizeAndValidate_def multi_validateConfig_def Let_def split: if_splits)
  with dial_each_params [of f ?c "DialerMap m" w w1 trMap, where 'e = 'e] d show ?thesis
    by (cases trMap) auto
qed

lemma session_encoding:
  fixes E :: "('c, 'd, 'e, 'p) environment"
  assumes "connectWire E c w = (c', w', Inr s)"
    and "\<forall>d dc p. net E d dc = Inr p \<longrightarrow> NegotiationParams.Encoding p = EncodingName dc"
  shows "encoding s = resolveEncoding (uuids E) (pb E) (js E) (ConnConfig.Encoding c) \<and>
    unreliable s \<in> {None, Some (encoding s)}"
proof -
  obtain w1 r1 where t: "call_Token c w = (w1, r1 :: 'e dial_error + string)"
    by force
  obtain c2 w2 r2 where d: "(if Transport c = TransportNameMulti
      then createMultiTransport (fresh E) (tgID E) (range_order E) c w1
      else (c, createSingleTransport (customDialFuncs E) (net E) c w1)) = (c2, w2, r2)"
    by (metis prod_cases3)
  from assms(1) t d obtain token tr where tr: "r1 = Inr token" "r2 = Inr tr" and h: "handshake E token c2 tr w2 = (w', Inr s)"
    by (cases r1; cases r2) (auto simp: connectWire_def)
  have "NegotiationParams.Encoding (transport_NegotiationParams tr) = toEncoding_name (ConnConfig.Encoding c)"
    using d tr(2) multi_encoding [of "fresh E" "tgID E" "range_order E" c w1 c2 w2 tr] assms(2)
    by (auto simp: createSingleTransport_def split: if_splits sum.splits)
  moreover have "resolveEncoding L P J (toEncoding_name n) = resolveEncoding L P J n" for L P J n
    by (simp add: resolveEncoding_def toEncoding_name_def)
  ultimately show ?thesis
    using h by (auto simp: handshake_def unreliableOrNil_def Let_def split: sum.splits)
qed

text \<open>What a reconnecting transport reports and its peer is not told: the intervals that come from the defaults.\<close>

lemma interval_not_announced:
  assumes "DialPingInterval (Dial c) = None"
  shows "NegotiationParams.PingInterval (negotiationParams (new_reconnecting f c d h)) \<noteq> None \<and>
    NegotiationParams.PingInterval (DialConfig_NegotiationParams (dials_with (new_reconnecting f c d h))) = None"
  using assms by (simp add: new_reconnecting_def DialConfig_NegotiationParams_def Let_def split: option.split)

end
