(* ===== verification/Reconnect_Properties.thy ===== *)
theory Reconnect_Properties
  imports Reconnect Step_Systems
begin

text \<open>What the reconnecting transport guarantees in every interleaving of its goroutines.\<close>

interpretation reconn: step_system "\<lambda>w. \<exists>n nc. w = rworld_init n nc" "rstep :: 'm rworld \<Rightarrow> 'm rworld \<Rightarrow> bool" .

section \<open>Messages keep their order\<close>

fun in_hand :: "'m writer \<Rightarrow> 'm list" where
  "in_hand WriteIdle = []"
| "in_hand (WriteWaiting m p) = [m]"
| "in_hand (Writing m) = [m]"
| "in_hand (WritingTo m t) = [m]"
| "in_hand (WriteReconnect m r) = [m]"
| "in_hand (WriteLeft m) = [m]"
| "in_hand WriteEnded = []"

definition inv_order :: "'m rworld \<Rightarrow> bool" where
  "inv_order w \<longleftrightarrow> requested w = map fst (processed w) @ in_hand (writer w) @ writeReqCh w"

lemmas rstep_defs = dial_succeeds_def initial_assign_def doneProcess_def shut_def close_start_def close_finish_def
  reader_after_def writer_after_def reconnect_start_def reconnect_try_def reconnect_connected_def Let_def

text \<open>The parts of the world that the calls of shared functions leave alone.\<close>

lemma waitForConnection_keeps:
  assumes "waitForConnection p w = (w', res)"
  shows "w' = w\<lparr>initialConnectDoneCh := initialConnectDoneCh w'\<rparr>"
  using assms by (cases "(p, w)" rule: waitForConnection.cases) (auto split: done_ch.splits)

lemma waitForConnection_same:
  assumes "waitForConnection p w = (w', res)"
  shows "requested w' = requested w" "processed w' = processed w" "writer w' = writer w" "writeReqCh w' = writeReqCh w"
    "transport w' = transport w" "dialled w' = dialled w" "gone w' = gone w" "no_closer w' = no_closer w"
    "cancelled w' = cancelled w" "initial w' = initial w" "reader w' = reader w" "rclosers w' = rclosers w"
    "status w' = status w"
  by (subst waitForConnection_keeps [OF assms], simp)+

lemma inv_order_initial: "initial_step w w' \<Longrightarrow> inv_order w \<Longrightarrow> inv_order w'"
  by (induction rule: initial_step.induct)
    (auto simp: inv_order_def rstep_defs split: if_splits option.splits bool.splits)

lemma inv_order_read: "read_step w w' \<Longrightarrow> inv_order w \<Longrightarrow> inv_order w'"
proof (induction rule: read_step.induct)
  case (ReadWait w p w' res)
  then show ?case
    using waitForConnection_same [OF ReadWait(2)] by (simp add: inv_order_def)
qed (auto simp: inv_order_def rstep_defs split: if_splits option.splits bool.splits)

lemma inv_order_write: "write_step w w' \<Longrightarrow> inv_order w \<Longrightarrow> inv_order w'"
proof (induction rule: write_step.induct)
  case (WriteWait w m p w' res)
  then show ?case
    using waitForConnection_same [OF WriteWait(2)] by (auto simp: inv_order_def split: sum.split option.split)
qed (auto simp: inv_order_def rstep_defs split: if_splits option.splits bool.splits)

lemma inv_order_rstep: "rstep w w' \<Longrightarrow> inv_order w \<Longrightarrow> inv_order w'"
proof (induction rule: rstep.induct)
  case (Initial w w')
  then show ?case by (rule inv_order_initial)
next
  case (Reader w w')
  then show ?case by (rule inv_order_read)
next
  case (Writer w w')
  then show ?case by (rule inv_order_write)
qed (auto simp: inv_order_def rstep_defs split: if_splits option.splits bool.splits)

section \<open>Transports are not leaked\<close>

definition inv_lock :: "'m rworld \<Rightarrow> bool" where
  "inv_lock w \<longleftrightarrow>
     \<not> (reader_holds (reader w) \<and> writer_holds (writer w)) \<and>
     (reader_holds (reader w) \<or> writer_holds (writer w) \<longrightarrow>
        (\<exists>t. transport w = Some t \<and> gone w t) \<and> RCloseReturned \<notin> set (rclosers w))"

definition inv_initial :: "'m rworld \<Rightarrow> bool" where
  "inv_initial w \<longleftrightarrow>
     (\<forall>t. transport w = Some t \<longrightarrow> t < dialled w) \<and>
     (\<forall>i. initial w = Dialling i \<longrightarrow> transport w = None) \<and>
     (\<forall>t. initial w = Dialled t \<longrightarrow> transport w = None \<and> t < dialled w)"

definition inv_transports :: "'m rworld \<Rightarrow> bool" where
  "inv_transports w \<longleftrightarrow> (\<forall>t < dialled w. gone w t \<or> transport w = Some t \<or> initial w = Dialled t \<or> no_closer w t)"

definition inv_rclosed :: "'m rworld \<Rightarrow> bool" where
  "inv_rclosed w \<longleftrightarrow>
     (rclosers w \<noteq> [] \<longrightarrow> cancelled w) \<and>
     (RCloseReturned \<in> set (rclosers w) \<longrightarrow> (\<forall>t. transport w = Some t \<longrightarrow> gone w t \<or> no_closer w t))"

text \<open>What an invariant may look at; most steps change none of it.\<close>

definition same_transports :: "'m rworld \<Rightarrow> 'm rworld \<Rightarrow> bool" where
  "same_transports w w' \<longleftrightarrow>
     transport w' = transport w \<and> dialled w' = dialled w \<and> gone w' = gone w \<and> no_closer w' = no_closer w \<and>
     rclosers w' = rclosers w"

definition inv_reconn :: "'m rworld \<Rightarrow> bool" where
  "inv_reconn w \<longleftrightarrow> inv_lock w \<and> inv_initial w \<and> inv_transports w \<and> inv_rclosed w"

lemmas inv_reconn_defs = inv_reconn_def inv_lock_def inv_initial_def inv_transports_def inv_rclosed_def

lemma inv_reconnI: "inv_lock w \<Longrightarrow> inv_initial w \<Longrightarrow> inv_transports w \<Longrightarrow> inv_rclosed w \<Longrightarrow> inv_reconn w"
  by (simp add: inv_reconn_def)

lemma inv_reconnD: "inv_reconn w \<Longrightarrow> inv_lock w" "inv_reconn w \<Longrightarrow> inv_initial w"
  "inv_reconn w \<Longrightarrow> inv_transports w" "inv_reconn w \<Longrightarrow> inv_rclosed w"
  by (simp_all add: inv_reconn_def)

lemma inv_reconn_same:
  assumes inv: "inv_reconn w" and same: "same_transports w w'" and canc: "cancelled w \<Longrightarrow> cancelled w'"
    and ini: "initial w' = initial w \<or> initial w' \<in> {Failed, DoneCancelling, InitialEnded} \<and> (\<forall>t. initial w = Dialled t \<longrightarrow> no_closer w t) \<or>
      (\<exists>i j. initial w = Dialling i \<and> initial w' = Dialling j)"
    and holds: "reader_holds (reader w') \<longrightarrow> reader_holds (reader w)" "writer_holds (writer w') \<longrightarrow> writer_holds (writer w)"
  shows "inv_reconn w'"
proof (rule inv_reconnI)
  show "inv_lock w'"
    using inv_reconnD(1) [OF inv] same holds unfolding inv_lock_def same_transports_def by metis
  have shown: "initial w' = Dialled t \<Longrightarrow> initial w = Dialled t" "initial w' = Dialling i \<Longrightarrow> \<exists>j. initial w = Dialling j" for t i
    using ini by (elim disjE; auto)+
  show "inv_initial w'"
    using inv_reconnD(2) [OF inv] same shown unfolding inv_initial_def same_transports_def by metis
  have gone: "initial w = Dialled t \<Longrightarrow> initial w' = Dialled t \<or> no_closer w t" for t
    using ini by (elim disjE; auto)
  show "inv_transports w'"
    using inv_reconnD(3) [OF inv] same gone unfolding inv_transports_def same_transports_def by metis
  show "inv_rclosed w'"
    using inv_reconnD(4) [OF inv] same canc unfolding inv_rclosed_def same_transports_def by metis
qed

definition rest_same :: "'m rworld \<Rightarrow> 'm rworld \<Rightarrow> bool" where
  "rest_same w w' \<longleftrightarrow> same_transports w w' \<and> cancelled w' = cancelled w \<and> initial w' = initial w"

lemma inv_reconn_rest:
  assumes "inv_reconn w" "rest_same w w'"
    "reader_holds (reader w') \<longrightarrow> reader_holds (reader w)" "writer_holds (writer w') \<longrightarrow> writer_holds (writer w)"
  shows "inv_reconn w'"
  using assms by (intro inv_reconn_same [OF assms(1)]) (simp_all add: rest_same_def)

lemma inv_reconn_start:
  assumes inv: "inv_reconn w" and free: "mu_free w" and start: "reconnect_start old w = (w1, res)" and rest: "rest_same w1 w'"
    and one: "\<not> (reader_holds (reader w') \<and> writer_holds (writer w'))"
    and holds: "reader_holds (reader w') \<or> writer_holds (writer w') \<Longrightarrow> res = None"
  shows "inv_reconn w'"
proof -
  have "(rest_same w w1 \<and> res \<noteq> None) \<or>
      (w1 = shut old (w\<lparr>status := StatusReconnecting\<rparr>) \<and> transport w = Some old \<and> \<not> cancelled w)"
    using start by (auto simp: reconnect_start_def Let_def rest_same_def same_transports_def split: if_splits)
  then consider "rest_same w w1" "res \<noteq> None"
    | "w1 = shut old (w\<lparr>status := StatusReconnecting\<rparr>)" "transport w = Some old" "\<not> cancelled w"
    by blast
  then show ?thesis
  proof cases
    case 1
    then have "rest_same w w'"
      using rest by (simp add: rest_same_def same_transports_def)
    then show ?thesis
      using inv_reconn_rest [OF inv] holds 1(2) by blast
  next
    case 2
    have "rclosers w = []"
      using inv 2(3) by (auto simp: inv_reconn_defs)
    then have eqs: "transport w' = Some old" "gone w' = (gone w)(old := True)" "rclosers w' = []"
      "dialled w' = dialled w" "no_closer w' = no_closer w" "initial w' = initial w"
      using rest 2 by (simp_all add: rest_same_def same_transports_def shut_def)
    show ?thesis
    proof (rule inv_reconnI)
      show "inv_lock w'"
        using one eqs by (simp add: inv_lock_def)
      show "inv_initial w'"
        using inv_reconnD(2) [OF inv] 2(2) eqs by (simp add: inv_initial_def)
      show "inv_transports w'"
        using inv_reconnD(3) [OF inv] 2(2) eqs by (auto simp: inv_transports_def)
      show "inv_rclosed w'"
        using eqs by (simp add: inv_rclosed_def)
    qed
  qed
qed

lemma inv_reconn_connected:
  assumes inv: "inv_reconn w" and holds: "reader_holds (reader w) \<or> writer_holds (writer w)"
    and conn: "reconnect_connected ok w = (w1, res)" and rest: "rest_same w1 w'"
    and less: "reader_holds (reader w') \<Longrightarrow> reader_holds (reader w) \<and> res = None"
      "writer_holds (writer w') \<Longrightarrow> writer_holds (writer w) \<and> res = None"
  shows "inv_reconn w'"
proof (cases ok)
  case False
  then have "w1 = w" using conn by (simp add: reconnect_connected_def)
  then show ?thesis
    using inv_reconn_rest [OF inv] rest less by blast
next
  case True
  then have "res = Some False" and w1: "w1 = w\<lparr>dialled := Suc (dialled w), transport := Some (dialled w), status := StatusConnected\<rparr>"
    using conn by (simp_all add: reconnect_connected_def)
  then have none: "\<not> reader_holds (reader w')" "\<not> writer_holds (writer w')"
    using less by auto
  have eqs: "transport w' = Some (dialled w)" "gone w' = gone w" "rclosers w' = rclosers w"
      "dialled w' = Suc (dialled w)" "no_closer w' = no_closer w" "initial w' = initial w" "cancelled w' = cancelled w"
    using rest w1 by (simp_all add: rest_same_def same_transports_def)
  from inv holds obtain t where t: "transport w = Some t" "gone w t" "RCloseReturned \<notin> set (rclosers w)"
    by (auto simp: inv_reconn_def inv_lock_def)
  show ?thesis
  proof (rule inv_reconnI)
    show "inv_lock w'"
      using none by (simp add: inv_lock_def)
    show "inv_initial w'"
      using inv_reconnD(2) [OF inv] t eqs by (auto simp: inv_initial_def)
    show "inv_transports w'"
      using inv_reconnD(3) [OF inv] t eqs by (auto simp: inv_transports_def less_Suc_eq)
    show "inv_rclosed w'"
      using inv_reconnD(4) [OF inv] t eqs by (simp add: inv_rclosed_def)
  qed
qed

lemma inv_reconn_one: "inv_reconn w \<Longrightarrow> reader_holds (reader w) \<Longrightarrow> \<not> writer_holds (writer w)"
  by (simp add: inv_reconn_def inv_lock_def)

lemma inv_reconn_close_finish:
  assumes inv: "inv_reconn w" and k: "k < length (rclosers w)" and free: "mu_free w"
  shows "inv_reconn (close_finish k w)"
proof -
  have eqs: "reader (close_finish k w) = reader w" "writer (close_finish k w) = writer w" "transport (close_finish k w) = transport w"
    "dialled (close_finish k w) = dialled w" "no_closer (close_finish k w) = no_closer w"
    "initial (close_finish k w) = initial w" "cancelled (close_finish k w) = cancelled w"
    "rclosers (close_finish k w) = (rclosers w)[k := RCloseReturned]"
    by (auto simp: close_finish_def Let_def shut_def split: option.splits)
  have gone: "gone w t \<Longrightarrow> gone (close_finish k w) t"
    "transport w = Some t \<Longrightarrow> gone (close_finish k w) t \<or> no_closer w t" for t
    by (auto simp: close_finish_def Let_def shut_def split: option.splits)
  show ?thesis
  proof (rule inv_reconnI)
    show "inv_lock (close_finish k w)"
      using free by (simp add: inv_lock_def mu_free_def eqs)
    show "inv_initial (close_finish k w)"
      using inv_reconnD(2) [OF inv] by (simp add: inv_initial_def eqs)
    show "inv_transports (close_finish k w)"
      using inv_reconnD(3) [OF inv] gone by (auto simp: inv_transports_def eqs)
    show "inv_rclosed (close_finish k w)"
      using inv_reconnD(4) [OF inv] k gone by (auto simp: inv_rclosed_def eqs)
  qed
qed

lemma inv_reconn_initial_assign:
  assumes inv: "inv_reconn w" and ini: "initial w = Dialled t" and free: "mu_free w" and closer: "\<not> no_closer w t"
  shows "inv_reconn (initial_assign t w)"
proof -
  have none: "transport w = None" and less: "t < dialled w"
    using inv_reconnD(2) [OF inv] ini by (auto simp: inv_initial_def)
  show ?thesis
  proof (rule inv_reconnI)
    show "inv_lock (initial_assign t w)"
      using free by (simp add: inv_lock_def mu_free_def initial_assign_def shut_def)
    show "inv_initial (initial_assign t w)"
      using none less by (simp add: inv_initial_def initial_assign_def shut_def)
    show "inv_transports (initial_assign t w)"
      using inv_reconnD(3) [OF inv] ini none by (auto simp: inv_transports_def initial_assign_def shut_def)
    show "inv_rclosed (initial_assign t w)"
      using inv_reconnD(4) [OF inv] none by (auto simp: inv_rclosed_def initial_assign_def shut_def)
  qed
qed

lemma inv_reconn_dial_succeeds:
  assumes inv: "inv_reconn w" and ini: "initial w = Dialling i"
  shows "inv_reconn (dial_succeeds w)"
proof -
  have none: "transport w = None"
    using inv_reconnD(2) [OF inv] ini by (auto simp: inv_initial_def)
  show ?thesis
    using inv none ini
    by (intro inv_reconnI) (auto simp: inv_reconn_def inv_lock_def inv_initial_def inv_transports_def inv_rclosed_def dial_succeeds_def less_Suc_eq)
qed

lemma inv_reconn_initial: "initial_step w w' \<Longrightarrow> inv_reconn w \<Longrightarrow> inv_reconn w'"
proof (induction rule: initial_step.induct)
  case (DialSucceeds w i)
  then show ?case by (simp add: inv_reconn_dial_succeeds)
next
  case (InitialAssign w t)
  then show ?case by (simp add: inv_reconn_initial_assign)
qed (erule inv_reconn_same;
     auto simp: same_transports_def rstep_defs split: if_splits option.splits bool.splits)+

lemma inv_reconn_read: "read_step w w' \<Longrightarrow> inv_reconn w \<Longrightarrow> inv_reconn w'"
proof (induction rule: read_step.induct)
  case (ReadWait w p w' res)
  note same = waitForConnection_same [OF ReadWait(2)]
  show ?case
    by (rule inv_reconn_same [OF ReadWait(3)]) (auto simp: same_transports_def same split: sum.split option.split)
next
  case (ReadReconnectStart w t w' res)
  show ?case
    by (rule inv_reconn_start [OF ReadReconnectStart(4,2,3)])
       (use ReadReconnectStart in \<open>auto simp: rest_same_def same_transports_def reader_after_def mu_free_def
          reconnect_start_def shut_def Let_def split: if_splits option.splits bool.splits\<close>)
next
  case (ReadReconnectConnected w i ok w' res)
  show ?case
    by (rule inv_reconn_connected [OF ReadReconnectConnected(3) _ ReadReconnectConnected(2)])
       (use ReadReconnectConnected inv_reconn_one [OF ReadReconnectConnected(3)] in \<open>auto simp: rest_same_def same_transports_def reader_after_def
          reconnect_connected_def split: if_splits option.splits bool.splits\<close>)
qed (erule inv_reconn_same;
     auto simp: same_transports_def rstep_defs split: if_splits option.splits bool.splits)+

lemma inv_reconn_write: "write_step w w' \<Longrightarrow> inv_reconn w \<Longrightarrow> inv_reconn w'"
proof (induction rule: write_step.induct)
  case (WriteWait w m p w' res)
  note same = waitForConnection_same [OF WriteWait(2)]
  show ?case
    by (rule inv_reconn_same [OF WriteWait(4)]) (auto simp: same_transports_def same split: sum.split option.split)
next
  case (WriteReconnectStart w m t w' res)
  show ?case
    by (rule inv_reconn_start [OF WriteReconnectStart(4,2,3)])
       (use WriteReconnectStart in \<open>auto simp: rest_same_def same_transports_def writer_after_def mu_free_def
          reconnect_start_def shut_def Let_def split: if_splits option.splits bool.splits\<close>)
next
  case (WriteReconnectConnected w m i ok w' res)
  show ?case
    by (rule inv_reconn_connected [OF WriteReconnectConnected(3) _ WriteReconnectConnected(2)])
       (use WriteReconnectConnected inv_reconn_one [OF WriteReconnectConnected(3)] in \<open>auto simp: rest_same_def same_transports_def writer_after_def
          reconnect_connected_def split: if_splits option.splits bool.splits\<close>)
qed (erule inv_reconn_same;
     auto simp: same_transports_def rstep_defs split: if_splits option.splits bool.splits)+

lemma inv_reconn_rstep: "rstep w w' \<Longrightarrow> inv_reconn w \<Longrightarrow> inv_reconn w'"
proof (induction rule: rstep.induct)
  case (Initial w w')
  then show ?case by (rule inv_reconn_initial)
next
  case (Reader w w')
  then show ?case by (rule inv_reconn_read)
next
  case (Writer w w')
  then show ?case by (rule inv_reconn_write)
next
  case (CloseFinish k w)
  then show ?case by (simp add: inv_reconn_close_finish)
next
  case (Close w)
  then show ?case
    by (auto simp: close_start_def inv_reconn_def inv_lock_def inv_initial_def inv_transports_def inv_rclosed_def)
qed (erule inv_reconn_same;
     auto simp: same_transports_def rstep_defs split: if_splits option.splits bool.splits)+

section \<open>The loops find a transport\<close>

text \<open>What the loops rely on when they use \<open>r.transport\<close> without asking whether it is there.\<close>

fun needs_transport :: "'m writer \<Rightarrow> bool" where
  "needs_transport (Writing m) = True" | "needs_transport (WritingTo m t) = True"
| "needs_transport (WriteReconnect m r) = True" | "needs_transport _ = False"

definition inv_ready :: "'m rworld \<Rightarrow> bool" where
  "inv_ready w \<longleftrightarrow>
     (transport w = None \<longrightarrow>
        \<not> needs_transport (writer w) \<and> initial w \<noteq> Assigned \<and> (\<forall>t. reader w \<noteq> Reading t) \<and>
        (\<forall>r. reader w \<noteq> ReadReconnect r) \<and> (reader w = ReadLoop \<longrightarrow> cancelled w) \<and>
        status w \<noteq> StatusConnected \<and> status w \<noteq> StatusReconnecting)"

lemma waitForConnection_connected:
  assumes "waitForConnection p w = (w', Inr False)"
  shows "status w = StatusConnected \<or> status w = StatusReconnecting \<or> status w = StatusDisconnected \<and> cancelled w"
  using assms by (cases "(p, w)" rule: waitForConnection.cases; cases "status w") (auto split: if_splits done_ch.splits)

lemma inv_ready_initial: "initial_step w w' \<Longrightarrow> inv_ready w \<Longrightarrow> inv_ready w'"
  by (induction rule: initial_step.induct)
    (auto simp: inv_ready_def rstep_defs split: if_splits option.splits bool.splits)

lemma inv_ready_read: "read_step w w' \<Longrightarrow> inv_ready w \<Longrightarrow> inv_ready w'"
proof (induction rule: read_step.induct)
  case (ReadWait w p w' res)
  note same = waitForConnection_same [OF ReadWait(2)]
  have "res = Inr False \<Longrightarrow> transport w = None \<Longrightarrow> cancelled w"
    using waitForConnection_connected ReadWait(2,3) by (auto simp: inv_ready_def)
  then show ?case
    using ReadWait(3) by (auto simp: inv_ready_def same split: sum.split option.split)
qed (auto simp: inv_ready_def rstep_defs split: if_splits option.splits bool.splits)

lemma inv_ready_write: "write_step w w' \<Longrightarrow> inv_ready w \<Longrightarrow> inv_ready w'"
proof (induction rule: write_step.induct)
  case (WriteWait w m p w' res)
  note same = waitForConnection_same [OF WriteWait(2)]
  show ?case
    using WriteWait(4) by (auto simp: inv_ready_def same split: sum.split option.split)
qed (auto simp: inv_ready_def rstep_defs split: if_splits option.splits bool.splits)

lemma inv_ready_rstep: "rstep w w' \<Longrightarrow> inv_ready w \<Longrightarrow> inv_ready w'"
proof (induction rule: rstep.induct)
  case (Initial w w')
  then show ?case by (rule inv_ready_initial)
next
  case (Reader w w')
  then show ?case by (rule inv_ready_read)
next
  case (Writer w w')
  then show ?case by (rule inv_ready_write)
qed (auto simp: inv_ready_def rstep_defs split: if_splits option.splits bool.splits)

section \<open>The attempts are bounded\<close>

fun rec_attempts :: "rec \<Rightarrow> nat" where
  "rec_attempts (RecWaiting t) = 0" | "rec_attempts (RecTrying i) = i" | "rec_attempts (RecConnecting i) = Suc i"

definition inv_attempts :: "'m rworld \<Rightarrow> bool" where
  "inv_attempts w \<longleftrightarrow>
     (maxReconnectAttempts w \<ge> 0 \<longrightarrow>
        (\<forall>i. initial w = Dialling i \<longrightarrow> int i \<le> maxReconnectAttempts w) \<and>
        (\<forall>r. reader w = ReadReconnect r \<longrightarrow> int (rec_attempts r) \<le> maxReconnectAttempts w) \<and>
        (\<forall>m r. writer w = WriteReconnect m r \<longrightarrow> int (rec_attempts r) \<le> maxReconnectAttempts w))"

lemma inv_attempts_initial: "initial_step w w' \<Longrightarrow> inv_attempts w \<Longrightarrow> inv_attempts w'"
  by (induction rule: initial_step.induct)
    (auto simp: inv_attempts_def exhausted_def rstep_defs split: if_splits option.splits bool.splits)

lemma inv_attempts_read: "read_step w w' \<Longrightarrow> inv_attempts w \<Longrightarrow> inv_attempts w'"
proof (induction rule: read_step.induct)
  case (ReadWait w p w' res)
  have "maxReconnectAttempts w' = maxReconnectAttempts w"
    by (subst waitForConnection_keeps [OF ReadWait(2)]) simp
  then show ?case
    using ReadWait(3) waitForConnection_same [OF ReadWait(2)] by (auto simp: inv_attempts_def split: sum.splits option.splits if_splits)
qed (auto simp: inv_attempts_def exhausted_def rstep_defs split: if_splits option.splits bool.splits)

lemma inv_attempts_write: "write_step w w' \<Longrightarrow> inv_attempts w \<Longrightarrow> inv_attempts w'"
proof (induction rule: write_step.induct)
  case (WriteWait w m p w' res)
  have "maxReconnectAttempts w' = maxReconnectAttempts w"
    by (subst waitForConnection_keeps [OF WriteWait(2)]) simp
  then show ?case
    using WriteWait(4) waitForConnection_same [OF WriteWait(2)] by (auto simp: inv_attempts_def split: sum.split option.split)
qed (auto simp: inv_attempts_def exhausted_def rstep_defs split: if_splits option.splits bool.splits)

lemma inv_attempts_rstep: "rstep w w' \<Longrightarrow> inv_attempts w \<Longrightarrow> inv_attempts w'"
proof (induction rule: rstep.induct)
  case (Initial w w')
  then show ?case by (rule inv_attempts_initial)
next
  case (Reader w w')
  then show ?case by (rule inv_attempts_read)
next
  case (Writer w w')
  then show ?case by (rule inv_attempts_write)
qed (auto simp: inv_attempts_def exhausted_def rstep_defs split: if_splits option.splits bool.splits)

lemma inv_rworld_init:
  "inv_order (rworld_init n nc)" "inv_reconn (rworld_init n nc)" "inv_ready (rworld_init n nc)" "inv_attempts (rworld_init n nc)"
  by (simp_all add: rworld_init_def inv_order_def inv_reconn_defs inv_ready_def inv_attempts_def)

lemma reconn_invariants:
  assumes "reconn.reachable w"
  shows "inv_order w" "inv_reconn w" "inv_ready w" "inv_attempts w"
proof -
  have "inv_order w \<and> inv_reconn w \<and> inv_ready w \<and> inv_attempts w"
    using assms
  proof (induction rule: reconn.invariant)
    case (Start w)
    then show ?case using inv_rworld_init by blast
  next
    case (Step w w')
    then show ?case
      using inv_order_rstep inv_reconn_rstep inv_ready_rstep inv_attempts_rstep by blast
  qed
  then show "inv_order w" "inv_reconn w" "inv_ready w" "inv_attempts w" by blast+
qed

section \<open>Two runs\<close>

text \<open>The states of two runs, given by the functions that make them.\<close>

definition dialled_w :: "nat rworld" where
  "dialled_w = dial_succeeds (rworld_init 30 (\<lambda>t. False))"

definition assigned_w :: "nat rworld" where "assigned_w = initial_assign 0 dialled_w"

definition connected_w :: "nat rworld" where "connected_w = doneProcess False StatusConnected assigned_w"

definition closed_w :: "nat rworld" where "closed_w = close_finish 0 (close_start assigned_w)"

lemmas run_defs = dialled_w_def assigned_w_def connected_w_def closed_w_def rworld_init_def dial_succeeds_def
  initial_assign_def doneProcess_def shut_def close_start_def close_finish_def Let_def exhausted_def mu_free_def

lemma reachable_assigned_w: "reconn.reachable assigned_w"
proof -
  have "reconn.reachable (rworld_init 30 (\<lambda>t. False) :: nat rworld)"
    by (rule reconn.reachable.Start) blast
  then have "reconn.reachable dialled_w"
    unfolding dialled_w_def by (rule reconn.reachable.Step) (rule rstep.Initial, rule initial_step.DialSucceeds [where i = 0]; simp add: run_defs)
  then show ?thesis
    unfolding assigned_w_def by (rule reconn.reachable.Step) (rule rstep.Initial, rule initial_step.InitialAssign; simp add: run_defs)
qed

lemma reachable_closed_w: "reconn.reachable closed_w"
proof -
  have "reconn.reachable (close_start assigned_w)"
    using reachable_assigned_w by (rule reconn.reachable.Step) (rule rstep.Close)
  then show ?thesis
    unfolding closed_w_def by (rule reconn.reachable.Step) (rule rstep.CloseFinish; simp add: run_defs)
qed

lemma reachable_connected_w: "reconn.reachable connected_w"
  unfolding connected_w_def using reachable_assigned_w
  by (rule reconn.reachable.Step) (rule rstep.Initial, rule initial_step.InitialDone; simp add: run_defs)

definition run_w :: "Status \<Rightarrow> nat \<Rightarrow> nat \<Rightarrow> (nat \<Rightarrow> bool) \<Rightarrow> (nat \<Rightarrow> bool) \<Rightarrow> reader \<Rightarrow> nat writer \<Rightarrow> nat list \<Rightarrow> nat list \<Rightarrow>
    (nat \<times> nat option) list \<Rightarrow> nat rworld" where
  "run_w st t n g b r v q rq pr =
     connected_w\<lparr>status := st, transport := Some t, dialled := n, gone := g, broken := b, reader := r, writer := v,
       writeReqCh := q, requested := rq, processed := pr\<rparr>"

lemma reachable_step_eq: "reconn.reachable w \<Longrightarrow> rstep w w' \<Longrightarrow> w' = w'' \<Longrightarrow> reconn.reachable w''"
  by (blast intro: reconn.reachable.Step)

lemmas step_defs = run_w_def run_defs reader_after_def writer_after_def reconnect_start_def reconnect_try_def
  reconnect_connected_def writeReqCh_cap_def fun_eq_iff

definition stuck_w :: "nat rworld" where
  "stuck_w = run_w StatusReconnecting 1 2 (\<lambda>t. t = 0) (\<lambda>t. t = 0) ReadLoop WriteIdle [] [7] [(7, Some 1)]"

lemma reachable_stuck_w: "reconn.reachable stuck_w"
proof -
  have "run_w StatusConnected 0 1 (\<lambda>t. False) (\<lambda>t. False) (ReadWaiting WaitStatus) WriteIdle [] [] [] = connected_w"
    by (simp add: step_defs)
  with reachable_connected_w have "reconn.reachable (run_w StatusConnected 0 1 (\<lambda>t. False) (\<lambda>t. False) (ReadWaiting WaitStatus) WriteIdle [] [] [])"
    by simp
  then have "reconn.reachable (run_w StatusConnected 0 1 (\<lambda>t. False) (\<lambda>t. False) ReadLoop WriteIdle [] [] [])"
    by (rule reachable_step_eq) ((rule rstep.Reader, rule read_step.ReadWait [where p = WaitStatus and res = "Inr False" and
      w' = "run_w StatusConnected 0 1 (\<lambda>t. False) (\<lambda>t. False) (ReadWaiting WaitStatus) WriteIdle [] [] []"]; simp add: step_defs), simp add: step_defs)
  then have "reconn.reachable (run_w StatusConnected 0 1 (\<lambda>t. False) (\<lambda>t. False) (Reading 0) WriteIdle [] [] [])"
    by (rule reachable_step_eq) ((rule rstep.Reader, rule read_step.ReadStart [where t = 0]; simp add: step_defs), simp add: step_defs)
  then have "reconn.reachable (run_w StatusConnected 0 1 (\<lambda>t. False) (\<lambda>t. False) (Reading 0) WriteIdle [7] [7] [])"
    by (rule reachable_step_eq) ((rule rstep.Request [where m = 7]; simp add: step_defs), simp add: step_defs)
  then have "reconn.reachable (run_w StatusConnected 0 1 (\<lambda>t. False) (\<lambda>t. False) (Reading 0) (Writing 7) [] [7] [])"
    by (rule reachable_step_eq) ((rule rstep.Writer, rule write_step.WriteTake [where m = 7 and ms = "[]"]; simp add: step_defs), simp add: step_defs)
  then have "reconn.reachable (run_w StatusConnected 0 1 (\<lambda>t. False) (\<lambda>t. False) (Reading 0) (WritingTo 7 0) [] [7] [])"
    by (rule reachable_step_eq) ((rule rstep.Writer, rule write_step.WriteStart [where m = 7 and t = 0]; simp add: step_defs), simp add: step_defs)
  then have "reconn.reachable (run_w StatusConnected 0 1 (\<lambda>t. False) (\<lambda>t. t = 0) (Reading 0) (WritingTo 7 0) [] [7] [])"
    by (rule reachable_step_eq) ((rule rstep.Break [where t = 0]; simp add: step_defs), simp add: step_defs)
  then have "reconn.reachable (run_w StatusConnected 0 1 (\<lambda>t. False) (\<lambda>t. t = 0) (Reading 0) (WriteReconnect 7 (RecWaiting 0)) [] [7] [])"
    by (rule reachable_step_eq) ((rule rstep.Writer, rule write_step.WriteFails [where m = 7 and t = 0]; simp add: step_defs), simp add: step_defs)
  then have "reconn.reachable (run_w StatusConnected 0 1 (\<lambda>t. False) (\<lambda>t. t = 0) (ReadReconnect (RecWaiting 0)) (WriteReconnect 7 (RecWaiting 0)) [] [7] [])"
    by (rule reachable_step_eq) ((rule rstep.Reader, rule read_step.ReadFails [where t = 0]; simp add: step_defs), simp add: step_defs)
  then have "reconn.reachable (run_w StatusReconnecting 0 1 (\<lambda>t. t = 0) (\<lambda>t. t = 0) (ReadReconnect (RecWaiting 0)) (WriteReconnect 7 (RecTrying 0)) [] [7] [])"
    by (rule reachable_step_eq) ((rule rstep.Writer, rule write_step.WriteReconnectStart [where m = 7 and t = 0 and res = None and
      w' = "run_w StatusReconnecting 0 1 (\<lambda>t. t = 0) (\<lambda>t. t = 0) (ReadReconnect (RecWaiting 0)) (WriteReconnect 7 (RecWaiting 0)) [] [7] []"]; simp add: step_defs), simp add: step_defs)
  then have "reconn.reachable (run_w StatusReconnecting 0 1 (\<lambda>t. t = 0) (\<lambda>t. t = 0) (ReadReconnect (RecWaiting 0)) (WriteReconnect 7 (RecConnecting 0)) [] [7] [])"
    by (rule reachable_step_eq) ((rule rstep.Writer, rule write_step.WriteReconnectTry [where m = 7 and i = 0]; simp add: step_defs), simp add: step_defs)
  then have "reconn.reachable (run_w StatusConnected 1 2 (\<lambda>t. t = 0) (\<lambda>t. t = 0) (ReadReconnect (RecWaiting 0)) (Writing 7) [] [7] [])"
    by (rule reachable_step_eq) ((rule rstep.Writer, rule write_step.WriteReconnectConnected [where m = 7 and i = 0 and ok = True and res = "Some False" and
      w' = "run_w StatusConnected 1 2 (\<lambda>t. t = 0) (\<lambda>t. t = 0) (ReadReconnect (RecWaiting 0)) (WriteReconnect 7 (RecConnecting 0)) [] [7] []"]; simp add: step_defs), simp add: step_defs)
  then have "reconn.reachable (run_w StatusReconnecting 1 2 (\<lambda>t. t = 0) (\<lambda>t. t = 0) ReadLoop (Writing 7) [] [7] [])"
    by (rule reachable_step_eq) ((rule rstep.Reader, rule read_step.ReadReconnectStart [where t = 0 and res = "Some False" and
      w' = "run_w StatusReconnecting 1 2 (\<lambda>t. t = 0) (\<lambda>t. t = 0) (ReadReconnect (RecWaiting 0)) (Writing 7) [] [7] []"]; simp add: step_defs), simp add: step_defs)
  then have "reconn.reachable (run_w StatusReconnecting 1 2 (\<lambda>t. t = 0) (\<lambda>t. t = 0) ReadLoop (WritingTo 7 1) [] [7] [])"
    by (rule reachable_step_eq) ((rule rstep.Writer, rule write_step.WriteStart [where m = 7 and t = 1]; simp add: step_defs), simp add: step_defs)
  then show ?thesis
    unfolding stuck_w_def
    by (rule reachable_step_eq) ((rule rstep.Writer, rule write_step.WriteSucceeds [where m = 7 and t = 1]; simp add: step_defs), simp add: step_defs)
qed

section \<open>Theorems\<close>





text \<open>
  The loops never use a transport that is not there: there is one where the reading loop is about to read and the
  context is not cancelled, and where the writing loop is about to write. The two never hold \<open>mu\<close> together.
\<close>
theorem loops_have_transport:
  assumes "reconn.reachable w" "reader w = ReadLoop \<and> \<not> cancelled w \<or> writer w = Writing m"
  shows "transport w \<noteq> None \<and> \<not> (reader_holds (reader w) \<and> writer_holds (writer w))"
  using reconn_invariants(2,3) [OF assms(1)] assms(2) by (auto simp: inv_ready_def inv_reconn_defs)

theorem loops_have_transport_witness: "reader stuck_w = ReadLoop \<and> transport stuck_w \<noteq> None"
  using loops_have_transport [OF reachable_stuck_w] by (simp add: stuck_w_def step_defs)

text \<open>With a limit on attempts, neither the first connection nor a reconnection makes more than that many.\<close>
theorem attempts_bounded:
  assumes "reconn.reachable w" "maxReconnectAttempts w \<ge> 0"
    and "initial w = Dialling i \<or> reader w = ReadReconnect (RecTrying i) \<or> writer w = WriteReconnect m (RecTrying i)"
  shows "int i \<le> maxReconnectAttempts w"
  using reconn_invariants(4) [OF assms(1)] assms(2,3) by (fastforce simp: inv_attempts_def)

theorem attempts_bounded_witness: "int 0 \<le> maxReconnectAttempts (rworld_init 30 (\<lambda>t. False) :: nat rworld)"
  by (rule attempts_bounded [OF reconn.reachable.Start]) (simp_all add: rworld_init_def, blast)

text \<open>
  A transport may report the status connected for good after its \<open>Close\<close> has returned: when \<open>Close\<close> falls between the
  assignment of the first transport and \<open>doneProcess\<close>, which overwrites the status that \<open>Close\<close> has set.
\<close>
theorem connected_after_close:
  "\<exists>w :: nat rworld. reconn.reachable w \<and> rclosers w = [RCloseReturned] \<and> cancelled w \<and> initial w = InitialEnded \<and>
     transport w = Some 0 \<and> gone w 0 \<and> status w = StatusConnected"
proof (intro exI conjI)
  show "reconn.reachable (doneProcess False StatusConnected closed_w)"
    using reachable_closed_w by (rule reconn.reachable.Step) (rule rstep.Initial, rule initial_step.InitialDone; simp add: run_defs)
qed (simp_all add: run_defs)

text \<open>
  The status stays reconnecting over a transport that works, when both loops lose the same transport: the second call of
  \<open>reconnect\<close> sets the status, finds that the other has reconnected already, and returns.
\<close>
theorem reconnecting_for_good:
  "\<exists>w :: nat rworld. reconn.reachable w \<and> status w = StatusReconnecting \<and> \<not> cancelled w \<and>
     transport w = Some 1 \<and> \<not> gone w 1 \<and> \<not> broken w 1 \<and> reader w = ReadLoop \<and> writer w = WriteIdle \<and>
     processed w = [(7, Some 1)]"
  by (rule exI [of _ stuck_w]) (use reachable_stuck_w in \<open>simp add: stuck_w_def step_defs\<close>)

section \<open>Round-trip times\<close>

lemma trunc_between:
  assumes "0 \<le> a" "of_int a \<le> x" "x \<le> of_int b"
  shows "a \<le> trunc x" "trunc x \<le> b"
proof -
  have "0 \<le> x"
    using assms(1,2) by (meson of_int_0_le_iff order_trans)
  then show "a \<le> trunc x" "trunc x \<le> b"
    using assms(2,3) by (simp_all add: trunc_def le_floor_iff floor_le_iff)
qed

lemma convex_between:
  fixes x y a :: rat
  assumes "0 \<le> a" "a \<le> 1"
  shows "min x y \<le> x * (1 - a) + y * a" "x * (1 - a) + y * a \<le> max x y"
proof -
  have "min x y * (1 - a) + min x y * a \<le> x * (1 - a) + y * a" "x * (1 - a) + y * a \<le> max x y * (1 - a) + max x y * a"
    using assms by (auto intro!: add_mono mult_right_mono)
  then show "min x y \<le> x * (1 - a) + y * a" "x * (1 - a) + y * a \<le> max x y"
    by (simp_all add: algebra_simps)
qed

text \<open>
  A pong that answers an outstanding ping moves the smoothed round-trip time to a value between the old one and the
  measured one, to the measured one where there was none, and a second pong with its number changes nothing.
\<close>
theorem pong_smoothes_rtt:
  assumes "pendingPongs s seq = Some sent" "sent \<le> now" "0 \<le> appRTT s" "0 \<le> rttSmoothingFactor s"
  shows "(if appRTT s = 0 then appRTT (handlePongReceived now seq s) = now - sent
       else min (appRTT s) (now - sent) \<le> appRTT (handlePongReceived now seq s) \<and>
         appRTT (handlePongReceived now seq s) \<le> max (appRTT s) (now - sent)) \<and>
     handlePongReceived later seq (handlePongReceived now seq s) = handlePongReceived now seq s"
proof -
  let ?a = "rttSmoothingFactor s" and ?n = "now - sent"
  have new: "appRTT (handlePongReceived now seq s) =
      (if ?a \<ge> 1 \<or> appRTT s = 0 then ?n else trunc (of_int (appRTT s) * (1 - ?a) + of_int ?n * ?a))"
    using assms(1) by (simp add: handlePongReceived_def Let_def)
  have between: "min (appRTT s) ?n \<le> trunc (of_int (appRTT s) * (1 - ?a) + of_int ?n * ?a)"
    "trunc (of_int (appRTT s) * (1 - ?a) + of_int ?n * ?a) \<le> max (appRTT s) ?n" if "?a < 1"
    using trunc_between [of "min (appRTT s) ?n" _ "max (appRTT s) ?n"]
      convex_between [of ?a "of_int (appRTT s)" "of_int ?n"] assms that
    by (auto simp: of_int_min of_int_max simp del: of_int_diff)
  then have "(if appRTT s = 0 then appRTT (handlePongReceived now seq s) = ?n
       else min (appRTT s) ?n \<le> appRTT (handlePongReceived now seq s) \<and> appRTT (handlePongReceived now seq s) \<le> max (appRTT s) ?n)"
    by (auto simp: new)
  moreover have "handlePongReceived later seq (handlePongReceived now seq s) = handlePongReceived now seq s"
    using assms(1) by (auto simp: handlePongReceived_def Let_def)
  ultimately show ?thesis by blast
qed

definition pinged :: rtt_state where
  "pinged = fst (send_ping 1000 \<lparr>pingSeq = 4, pendingPongs = Map.empty, appRTT = 400, rttSmoothingFactor = 1 / 8, rttSource = RTTSourceAuto\<rparr>)"

theorem pong_smoothes_rtt_witness:
  "400 \<le> appRTT (handlePongReceived 1800 5 pinged) \<and> appRTT (handlePongReceived 1800 5 pinged) \<le> 800"
  using pong_smoothes_rtt [of pinged 5 1000 1800] by (simp add: pinged_def send_ping_def Let_def)

end
