(* ===== verification/Byte_Balance.thy ===== *)
theory Byte_Balance
  imports Selectors
begin

text \<open>How evenly the byte-balanced selector (\<open>src/transport/multi/byte_balanced_selector.go\<close>) spreads what is sent.\<close>

definition used :: "ByteBalancedSelector \<Rightarrow> TransportID \<Rightarrow> nat" where
  "used s i = unat (count (accumulatedBytes s) i)"

text \<open>The selector after messages of these sizes.\<close>

definition after_messages :: "TransportMap \<Rightarrow> int list \<Rightarrow> ByteBalancedSelector \<Rightarrow> ByteBalancedSelector" where
  "after_messages ts sizes s = fold (\<lambda>n s. fst (ByteBalanced_Get (Some ts) n s)) sizes s"

lemma min_bytes_cases:
  assumes "\<forall>i\<in>set ids. map_of ts i \<noteq> None"
  shows "min_bytes acc ts ids (sel, mb) = sel \<and> (\<forall>j\<in>set ids. mb \<le> count acc j) \<or>
    min_bytes acc ts ids (sel, mb) \<in> set ids \<and> count acc (min_bytes acc ts ids (sel, mb)) < mb \<and>
    (\<forall>j\<in>set ids. count acc (min_bytes acc ts ids (sel, mb)) \<le> count acc j)"
  using assms
proof (induction ids arbitrary: sel mb)
  case (Cons i ids)
  show ?case
  proof (cases "count acc i < mb")
    case True
    then show ?thesis
      using Cons.prems Cons.IH [of i "count acc i"] by (auto simp: not_less intro: order_less_imp_le)
  next
    case False
    then show ?thesis
      using Cons.prems Cons.IH [of sel mb] by (auto simp: not_less intro: order_trans)
  qed
qed simp

lemma min_bytes_least:
  assumes "\<forall>i\<in>set ids. map_of ts i \<noteq> None" "ids \<noteq> []" "\<forall>i\<in>set ids. count acc i < - 1"
  shows "min_bytes acc ts ids ('''', - 1) \<in> set ids"
    and "j \<in> set ids \<Longrightarrow> count acc (min_bytes acc ts ids ('''', - 1)) \<le> count acc j"
proof -
  have "\<not> (\<forall>j\<in>set ids. - 1 \<le> count acc j)"
    using assms(2,3) by (meson last_in_set not_le)
  then show "min_bytes acc ts ids ('''', - 1) \<in> set ids"
    "j \<in> set ids \<Longrightarrow> count acc (min_bytes acc ts ids ('''', - 1)) \<le> count acc j"
    using min_bytes_cases [OF assms(1), of acc "''''" "- 1"] by blast+
qed

text \<open>All transports of the selector, of which there is one, are there, and all are connected.\<close>

definition all_connected :: "TransportID list \<Rightarrow> TransportMap \<Rightarrow> bool" where
  "all_connected ids ts \<longleftrightarrow> ids \<noteq> [] \<and> '''' \<notin> set ids \<and> set ids \<subseteq> fst ` set ts \<and> snd ` set ts \<subseteq> {StatusConnected}"

lemma all_connected_status:
  assumes "all_connected ids ts" "i \<in> set ids"
  shows "map_of ts i = Some StatusConnected"
proof -
  have "map_of ts i \<noteq> None"
    using assms by (auto simp: all_connected_def map_of_eq_None_iff)
  then obtain st where st: "map_of ts i = Some st"
    by blast
  then have "(i, st) \<in> set ts"
    by (rule map_of_SomeD)
  then show ?thesis
    using st assms(1) by (force simp: all_connected_def)
qed

text \<open>One call gives the message to a transport that has had least.\<close>

lemma get_least:
  assumes conn: "all_connected ids ts" and s: "balancedIDs s = ids" "\<forall>i\<in>set ids. count (accumulatedBytes s) i < - 1" and n: "0 < n"
  obtains i where "i \<in> set ids" "\<forall>j\<in>set ids. count (accumulatedBytes s) i \<le> count (accumulatedBytes s) j"
    "accumulatedBytes (fst (ByteBalanced_Get (Some ts) n s)) =
      (accumulatedBytes s)(i \<mapsto> count (accumulatedBytes s) i + word_of_int n)"
    "balancedIDs (fst (ByteBalanced_Get (Some ts) n s)) = ids"
proof -
  let ?i = "min_bytes (accumulatedBytes s) ts ids ('''', - 1)"
  have "\<forall>i\<in>set ids. map_of ts i \<noteq> None"
    using all_connected_status [OF conn] by auto
  note least = min_bytes_least [OF this _ s(2)]
  have i: "?i \<in> set ids" "?i \<noteq> ''''"
    using least(1) conn by (auto simp: all_connected_def)
  have "SelectAvailableTransport ?i ts = ?i"
    using all_connected_status [OF conn i(1)] by (simp add: SelectAvailableTransport_def)
  moreover have "selectMinBytes (Some ts) s = (recordSelection ?i s, ?i)"
  proof -
    obtain p ts' where "ts = p # ts'"
      using i(1) conn by (cases ts) (auto simp: all_connected_def)
    moreover obtain j ids' where "ids = j # ids'"
      using i(1) by (cases ids) auto
    ultimately show ?thesis
      using i(2) s(1) by (simp only: selectMinBytes_def list.case option.case Let_def if_True simp_thms)
  qed
  ultimately have "fst (ByteBalanced_Get (Some ts) n s) = addAccumulatedBytes ?i (word_of_int n) (recordSelection ?i s)"
    using i(2) n by (simp add: ByteBalanced_Get_def available_def Let_def)
  then show ?thesis
    using that [of ?i] i(1) least(2) s(1) conn by (simp add: all_connected_def addAccumulatedBytes_def recordSelection_def)
qed

text \<open>No transport has had more than another by more than \<open>M\<close> bytes, and all of them together have had \<open>T\<close>.\<close>

definition balanced :: "nat \<Rightarrow> nat \<Rightarrow> ByteBalancedSelector \<Rightarrow> bool" where
  "balanced M T s \<longleftrightarrow>
     (\<forall>i\<in>set (balancedIDs s). \<forall>j\<in>set (balancedIDs s). used s i \<le> used s j + M) \<and>
     (\<Sum>i\<in>set (balancedIDs s). used s i) = T"

lemma balanced_get:
  assumes "all_connected (balancedIDs s) ts" "balanced M T s" "0 < n" "nat n \<le> M" "T + nat n < 2 ^ 64 - 1"
  shows "balanced M (T + nat n) (fst (ByteBalanced_Get (Some ts) n s)) \<and>
    balancedIDs (fst (ByteBalanced_Get (Some ts) n s)) = balancedIDs s"
proof -
  let ?ids = "balancedIDs s" and ?s = "fst (ByteBalanced_Get (Some ts) n s)"
  have le: "used s i \<le> T" if "i \<in> set ?ids" for i
    using assms(2) member_le_sum [of i "set ?ids" "used s"] that by (auto simp: balanced_def)
  have "count (accumulatedBytes s) i < - 1" if "i \<in> set ?ids" for i
  proof -
    have "unat (count (accumulatedBytes s) i) < unat (- 1 :: u64)"
      using le [OF that] assms(5) by (simp add: used_def unsigned_minus_1_eq_mask mask_eq_exp_minus_1)
    then show ?thesis by (simp add: word_less_nat_alt)
  qed
  with assms(1,3) obtain i where i: "i \<in> set ?ids" "\<forall>j\<in>set ?ids. count (accumulatedBytes s) i \<le> count (accumulatedBytes s) j"
      "accumulatedBytes ?s = (accumulatedBytes s)(i \<mapsto> count (accumulatedBytes s) i + word_of_int n)" "balancedIDs ?s = ?ids"
    using get_least [of ?ids ts s n] by blast
  have "unat (word_of_int n :: u64) = nat n"
    using assms(3,5) by (simp add: unat_eq_nat_uint uint_word_of_int)
  then have "unat (count (accumulatedBytes s) i + word_of_int n) = used s i + nat n"
    using le [OF i(1)] assms(5) by (simp add: used_def unat_add_lem [THEN iffD1])
  then have used: "used ?s j = (if j = i then used s i + nat n else used s j)" for j
    using i(3) by (simp add: used_def count_def)
  have least: "used s i \<le> used s j" if "j \<in> set ?ids" for j
    using i(2) that by (auto simp: used_def word_le_nat_alt)
  have "(\<Sum>j\<in>set ?ids. used ?s j) = used ?s i + (\<Sum>j\<in>set ?ids - {i}. used ?s j)"
    using i(1) by (simp add: sum.remove)
  also have "(\<Sum>j\<in>set ?ids - {i}. used ?s j) = (\<Sum>j\<in>set ?ids - {i}. used s j)"
    by (rule sum.cong) (auto simp: used)
  also have "used ?s i + \<dots> = nat n + (\<Sum>j\<in>set ?ids. used s j)"
    using i(1) by (simp add: used sum.remove)
  finally have "(\<Sum>j\<in>set ?ids. used ?s j) = T + nat n"
    using assms(2) by (simp add: balanced_def)
  moreover have "used ?s j \<le> used ?s k + M" if "j \<in> set ?ids" "k \<in> set ?ids" for j k
  proof -
    have "used s j \<le> used s k + M"
      using assms(2) that by (simp add: balanced_def)
    then show ?thesis
      using assms(4) least [OF that(2)] by (auto simp: used)
  qed
  ultimately show ?thesis
    using i(4) by (simp add: balanced_def)
qed

lemma balanced_after:
  assumes "all_connected (balancedIDs s) ts" "balanced M T s" "list_all (\<lambda>n. 0 < n \<and> nat n \<le> M) sizes"
    "T + nat (sum_list sizes) < 2 ^ 64 - 1"
  shows "balanced M (T + nat (sum_list sizes)) (after_messages ts sizes s) \<and> balancedIDs (after_messages ts sizes s) = balancedIDs s"
  using assms
proof (induction sizes arbitrary: s T)
  case (Cons n sizes)
  have "0 \<le> sum_list sizes"
    using Cons.prems(3) by (intro sum_list_nonneg) (auto simp: list_all_iff)
  then have sum: "nat (sum_list (n # sizes)) = nat n + nat (sum_list sizes)"
    using Cons.prems(3) by (simp add: nat_add_distrib)
  let ?s = "fst (ByteBalanced_Get (Some ts) n s)"
  have "balanced M (T + nat n) ?s \<and> balancedIDs ?s = balancedIDs s"
    using Cons.prems sum by (intro balanced_get) auto
  then show ?case
    using Cons.IH [of ?s "T + nat n"] Cons.prems sum by (simp add: after_messages_def add.assoc)
qed (simp add: after_messages_def)



end
