(* ===== verification/Selector_Properties.thy ===== *)
theory Selector_Properties
  imports Selectors "HOL-Library.Product_Lexorder" "HOL-Library.Multiset"
begin

text \<open>What each selector promises, and the contract the multi transport relies on, which all of them fulfil.\<close>

section \<open>The contract of a selector\<close>

text \<open>
  \<open>get\<close> is \<open>Get\<close> of a selector that knows its multi transport; \<open>None\<close> is that it has not returned. What it returns is
  a transport that is not disconnected, and connected if any is, or the empty identifier.
\<close>

locale transport_selector =
  fixes get :: "TransportMap \<Rightarrow> int \<Rightarrow> 's \<Rightarrow> ('s \<times> TransportID) option"
  assumes usable: "get ts n s = Some (s', i) \<Longrightarrow> distinct (map fst ts) \<Longrightarrow> i \<noteq> '''' \<Longrightarrow>
      \<exists>st. map_of ts i = Some st \<and> st \<noteq> StatusDisconnected"
    and connected: "get ts n s = Some (s', i) \<Longrightarrow> distinct (map fst ts) \<Longrightarrow> i \<noteq> '''' \<Longrightarrow>
      StatusConnected \<in> snd ` set ts \<Longrightarrow> map_of ts i = Some StatusConnected"

text \<open>A prompt selector always returns, and refuses only when every transport is disconnected.\<close>

locale prompt_selector = transport_selector +
  assumes returns: "get ts n s \<noteq> None"
    and refuses: "get ts n s = Some (s', '''') \<Longrightarrow> '''' \<notin> fst ` set ts \<Longrightarrow> snd ` set ts \<subseteq> {StatusDisconnected}"

lemma fallback_connected:
  "StatusConnected \<in> snd ` set ts \<Longrightarrow> (fallback r ts, StatusConnected) \<in> set ts"
proof (induction ts arbitrary: r)
  case (Cons p ts)
  then show ?case by (cases p; cases "snd p") auto
qed simp

definition usable_ids :: "TransportMap \<Rightarrow> TransportID set" where
  "usable_ids ts = fst ` {p \<in> set ts. snd p \<noteq> StatusDisconnected}"

lemma usable_ids_Cons:
  "usable_ids ((i, st) # ts) = (if st = StatusDisconnected then usable_ids ts else insert i (usable_ids ts))"
  by (auto simp: usable_ids_def image_iff)

lemma fallback_usable: "fallback r ts \<in> insert r (usable_ids ts)"
proof (induction ts arbitrary: r)
  case (Cons p ts)
  obtain i st where p: "p = (i, st)" by fastforce
  show ?case
    using Cons.IH [of r] Cons.IH [of i] unfolding p by (cases st) (auto simp: usable_ids_Cons)
qed simp

lemma usable_ids_map_of:
  "distinct (map fst ts) \<Longrightarrow> i \<in> usable_ids ts \<Longrightarrow> \<exists>st. map_of ts i = Some st \<and> st \<noteq> StatusDisconnected"
  by (auto simp: usable_ids_def)

lemma fallback_refuses:
  "fallback r ts = '''' \<Longrightarrow> '''' \<notin> fst ` set ts \<Longrightarrow> snd ` set ts \<subseteq> {StatusDisconnected} \<and> r = ''''"
proof (induction ts arbitrary: r)
  case (Cons p ts)
  obtain i st where p: "p = (i, st)" by fastforce
  show ?case
    using Cons.prems Cons.IH [of r] Cons.IH [of i] unfolding p by (cases st; cases "r = ''''") auto
qed simp

lemma SelectAvailable_usable:
  assumes "distinct (map fst ts)" "SelectAvailableTransport i ts \<noteq> ''''"
  shows "\<exists>st. map_of ts (SelectAvailableTransport i ts) = Some st \<and> st \<noteq> StatusDisconnected"
  using assms(2) fallback_usable [of "''''" ts] usable_ids_map_of [OF assms(1)]
  by (auto simp: SelectAvailableTransport_def split: if_splits)

lemma SelectAvailable_connected:
  assumes "distinct (map fst ts)" "StatusConnected \<in> snd ` set ts"
  shows "map_of ts (SelectAvailableTransport i ts) = Some StatusConnected"
  using assms fallback_connected [of ts "''''"]
  by (auto simp: SelectAvailableTransport_def split: if_splits)

lemma SelectAvailable_refuses:
  "SelectAvailableTransport i ts = '''' \<Longrightarrow> '''' \<notin> fst ` set ts \<Longrightarrow> snd ` set ts \<subseteq> {StatusDisconnected}"
  using fallback_refuses [of "''''" ts] map_of_SomeD [of ts i StatusConnected]
  by (auto simp: SelectAvailableTransport_def rev_image_eqI split: if_splits)

lemmas available_Some = available_def [of "Some ts" for ts, simplified]

text \<open>Every selector that ends with \<open>SelectAvailableTransport\<close> is prompt.\<close>

lemma prompt_selectorI:
  assumes "\<And>ts n s. \<exists>s' i. get ts n s = Some (s', SelectAvailableTransport i ts)"
  shows "prompt_selector get"
proof
  show "get ts n s \<noteq> None" for ts n s
    using assms [of ts n s] by auto
  show "\<exists>st. map_of ts i = Some st \<and> st \<noteq> StatusDisconnected"
    if "get ts n s = Some (s', i)" "distinct (map fst ts)" "i \<noteq> ''''" for ts n s s' i
    using assms [of ts n s] that SelectAvailable_usable [of ts] by auto
  show "map_of ts i = Some StatusConnected"
    if "get ts n s = Some (s', i)" "distinct (map fst ts)" "StatusConnected \<in> snd ` set ts" for ts n s s' i
    using assms [of ts n s] that SelectAvailable_connected [of ts] by auto
  show "snd ` set ts \<subseteq> {StatusDisconnected}"
    if "get ts n s = Some (s', '''')" "'''' \<notin> fst ` set ts" for ts n s s'
    using assms [of ts n s] that SelectAvailable_refuses by (metis option.inject prod.inject)
qed

interpretation round_robin: prompt_selector "\<lambda>ts n s. Some (RoundRobin_Get (Some ts) n s)"
  by (rule prompt_selectorI) (auto simp: RoundRobin_Get_def available_Some split: prod.split)

interpretation min_rtt: prompt_selector "\<lambda>ts n s. Some (MinRTT_Get ps order (Some ts) n s)"
  by (rule prompt_selectorI) (auto simp: MinRTT_Get_def available_Some split: prod.split)

interpretation byte_balanced: prompt_selector "\<lambda>ts n s. Some (ByteBalanced_Get (Some ts) n s)"
  by (rule prompt_selectorI) (auto simp: ByteBalanced_Get_def available_Some Let_def split: prod.split)

interpretation scheduled: prompt_selector "\<lambda>ts n s. Some (scheduler_Get (Some ts) n s)"
  by (rule prompt_selectorI) (auto simp: scheduler_Get_def available_Some)

lemma ECF_Get_available:
  "ECF_Get polls (Some ts) n s = Some (s', i) \<Longrightarrow> i \<noteq> '''' \<Longrightarrow> \<exists>j. i = SelectAvailableTransport j ts"
  by (auto simp: ECF_Get_def available_Some split: if_splits)

interpretation ecf: transport_selector "\<lambda>ts. ECF_Get polls (Some ts)"
proof
  fix ts n s s' i
  assume "ECF_Get polls (Some ts) n s = Some (s', i)" and ts: "distinct (map fst ts)" and i: "i \<noteq> ''''"
  then obtain j where j: "i = SelectAvailableTransport j ts"
    using ECF_Get_available by blast
  show "\<exists>st. map_of ts i = Some st \<and> st \<noteq> StatusDisconnected"
    using SelectAvailable_usable [OF ts] i unfolding j by blast
  show "StatusConnected \<in> snd ` set ts \<Longrightarrow> map_of ts i = Some StatusConnected"
    using SelectAvailable_connected [OF ts] unfolding j by blast
qed

section \<open>Round robin\<close>

text \<open>The answers of a number of calls, one after the other.\<close>

fun answers :: "('s \<Rightarrow> 's \<times> TransportID) \<Rightarrow> nat \<Rightarrow> 's \<Rightarrow> TransportID list" where
  "answers get 0 s = []"
| "answers get (Suc n) s = (let (s, i) = get s in i # answers get n s)"

lemma round_robin_answers:
  assumes "transportIDs s \<noteq> []" "current s < length (transportIDs s)"
    and "\<And>i. i \<in> set (transportIDs s) \<Longrightarrow> available mt i = i"
  shows "answers (RoundRobin_Get mt n) k s =
    List.map (\<lambda>j. transportIDs s ! ((current s + j) mod length (transportIDs s))) [0..<k]"
  using assms
proof (induction k arbitrary: s)
  case (Suc k)
  let ?n = "length (transportIDs s)"
  let ?s = "s\<lparr>current := (current s + 1) mod ?n\<rparr>"
  have "answers (RoundRobin_Get mt n) (Suc k) s = transportIDs s ! current s # answers (RoundRobin_Get mt n) k ?s"
    using Suc.prems by (simp add: RoundRobin_Get_def selectNext_def)
  also have "answers (RoundRobin_Get mt n) k ?s =
      List.map (\<lambda>j. transportIDs s ! ((current s + Suc j) mod ?n)) [0..<k]"
    using Suc.prems by (subst Suc.IH) (simp_all add: mod_add_left_eq)
  finally show ?case
    using Suc.prems(2) by (simp add: map_upt_Suc del: upt_Suc answers.simps)
qed simp

text \<open>
  Round robin is fair. With all its transports connected, any successive calls of \<open>Get\<close>, as many as there are
  transports, return each transport once, in the order of the list.
\<close>
theorem round_robin_fair:
  assumes "current s < length (transportIDs s)" "set (transportIDs s) \<subseteq> fst ` set ts" "snd ` set ts \<subseteq> {StatusConnected}"
  shows "answers (RoundRobin_Get (Some ts) n) (length (transportIDs s)) s = rotate (current s) (transportIDs s)"
proof -
  have "available (Some ts) i = i" if "i \<in> set (transportIDs s)" for i
  proof -
    have "map_of ts i \<noteq> None"
      using assms(2) that by (auto simp: map_of_eq_None_iff)
    then obtain st where "map_of ts i = Some st"
      by blast
    then have "map_of ts i = Some StatusConnected"
      using assms(3) by (metis image_eqI map_of_SomeD singletonD snd_conv subsetD)
    then show ?thesis
      by (simp add: available_Some SelectAvailableTransport_def)
  qed
  then have "answers (RoundRobin_Get (Some ts) n) (length (transportIDs s)) s =
      List.map (\<lambda>j. transportIDs s ! ((current s + j) mod length (transportIDs s))) [0..<length (transportIDs s)]"
    using assms(1) by (intro round_robin_answers) auto
  also have "\<dots> = rotate (current s) (transportIDs s)"
    by (rule nth_equalityI) (simp_all add: nth_rotate)
  finally show ?thesis .
qed

text \<open>Three transports, of which the first two calls have used one each.\<close>

theorem round_robin_fair_witness:
  "answers (RoundRobin_Get (Some [(''c'', StatusConnected), (''a'', StatusConnected), (''b'', StatusConnected)]) 1) 3
     \<lparr>transportIDs = [''a'', ''b'', ''c''], current = 2\<rparr> = [''c'', ''a'', ''b'']"
  using round_robin_fair [of "\<lparr>transportIDs = [''a'', ''b'', ''c''], current = 2\<rparr>"
      "[(''c'', StatusConnected), (''a'', StatusConnected), (''b'', StatusConnected)]" 1]
  by (simp add: eval_nat_numeral rotate_def)

section \<open>The least round-trip time\<close>

lemma minRTT_Update:
  assumes "metricsProvider p = Some m"
  shows "minRTT (Update ps p) = (if provider_RTT (ps m) > 0 \<and> (minRTT p = 0 \<or> provider_RTT (ps m) < minRTT p)
    then provider_RTT (ps m) else minRTT p)"
    and "sendingAllowed (Update ps p) \<longleftrightarrow> provider_BytesInFlight (ps m) < provider_CongestionWindow (ps m)"
    and "metricsProvider (Update ps p) = Some m"
  using assms by (auto simp: Update_def Let_def)

definition positive_RTTs :: "nat \<Rightarrow> providers list \<Rightarrow> int set" where
  "positive_RTTs m obs = {r \<in> (\<lambda>ps. provider_RTT (ps m)) ` set obs. r > 0}"

definition least_RTT :: "nat \<Rightarrow> providers list \<Rightarrow> int" where
  "least_RTT m obs = (if positive_RTTs m obs = {} then 0 else Min (positive_RTTs m obs))"

lemma least_RTT_snoc:
  "least_RTT m (obs @ [now]) =
    (if provider_RTT (now m) > 0 \<and> (least_RTT m obs = 0 \<or> provider_RTT (now m) < least_RTT m obs)
     then provider_RTT (now m) else least_RTT m obs)"
proof -
  have fin: "finite (positive_RTTs m obs)"
    by (simp add: positive_RTTs_def)
  have new: "positive_RTTs m (obs @ [now]) =
      (if provider_RTT (now m) > 0 then insert (provider_RTT (now m)) (positive_RTTs m obs) else positive_RTTs m obs)"
    by (auto simp: positive_RTTs_def)
  show ?thesis
  proof (cases "positive_RTTs m obs = {}")
    case False
    define M where "M = Min (positive_RTTs m obs)"
    have "M > 0"
      using Min_in [OF fin False] by (auto simp: M_def positive_RTTs_def)
    moreover have "Min (insert (provider_RTT (now m)) (positive_RTTs m obs)) = min (provider_RTT (now m)) M"
      unfolding M_def using fin False by (rule Min_insert)
    ultimately show ?thesis
      using False by (simp add: least_RTT_def new M_def [symmetric])
  qed (simp add: least_RTT_def new)
qed

lemma least_RTT_nonneg: "least_RTT m obs \<ge> 0"
  using Min_in [of "positive_RTTs m obs"] by (auto simp: least_RTT_def positive_RTTs_def)

definition kept_RTT :: "'a MinRTTSelector_scheme \<Rightarrow> TransportID \<Rightarrow> int" where
  "kept_RTT s i = (case transports s i of Some info \<Rightarrow> minRTT info | None \<Rightarrow> 0)"

lemma UpdateTransport_kept:
  assumes "kept_RTT s i \<ge> 0"
  shows "\<exists>info. transports (UpdateTransport ps i (NewTransportInfo i (Some m)) s) i = Some info \<and>
    minRTT info = (if provider_RTT (ps m) > 0 \<and> (kept_RTT s i = 0 \<or> provider_RTT (ps m) < kept_RTT s i)
      then provider_RTT (ps m) else kept_RTT s i) \<and>
    (sendingAllowed info \<longleftrightarrow> provider_BytesInFlight (ps m) < provider_CongestionWindow (ps m))"
  using assms by (auto simp: kept_RTT_def UpdateTransport_def NewTransportInfo_def Let_def minRTT_Update split: option.splits)

definition observed :: "TransportID \<Rightarrow> nat \<Rightarrow> providers list \<Rightarrow> 'a MinRTTSelector_scheme \<Rightarrow> 'a MinRTTSelector_scheme" where
  "observed i m obs s = fold (\<lambda>ps. UpdateTransport ps i (NewTransportInfo i (Some m))) obs s"

lemma observed_snoc:
  "observed i m (obs @ [now]) s = UpdateTransport now i (NewTransportInfo i (Some m)) (observed i m obs s)"
  by (simp add: observed_def)

lemma kept_RTT_observed: "transports s i = None \<Longrightarrow> kept_RTT (observed i m obs s) i = least_RTT m obs"
proof (induction obs rule: rev_induct)
  case Nil
  then show ?case by (simp add: observed_def kept_RTT_def least_RTT_def positive_RTTs_def)
next
  case (snoc now obs)
  have kept: "kept_RTT (observed i m obs s) i = least_RTT m obs"
    using snoc by blast
  then have "kept_RTT (observed i m obs s) i \<ge> 0"
    by (simp add: least_RTT_nonneg)
  from UpdateTransport_kept [OF this, of now m, folded observed_snoc, unfolded kept, folded least_RTT_snoc]
  show ?case by (auto simp: kept_RTT_def)
qed

text \<open>
  What a selector keeps of a transport after any number of updates: the least positive round-trip time that was ever
  observed, and whether the window was open at the last update.
\<close>
theorem least_RTT_is_kept:
  assumes "transports s i = None"
  shows "\<exists>info. transports (observed i m (obs @ [now]) s) i = Some info \<and> minRTT info = least_RTT m (obs @ [now]) \<and>
    (sendingAllowed info \<longleftrightarrow> provider_BytesInFlight (now m) < provider_CongestionWindow (now m))"
  using UpdateTransport_kept [of "observed i m obs s" i now m, folded observed_snoc,
      unfolded kept_RTT_observed [OF assms, of m obs], folded least_RTT_snoc] least_RTT_nonneg by blast

section \<open>The nearest transport\<close>

text \<open>What the selector compares, in lexicographic order.\<close>

definition key :: "providers \<Rightarrow> TransportInfo \<Rightarrow> u64 \<times> u64" where
  "key ps info = (rttToMicroseconds (MinRTT ps info), rttToMicroseconds (SmoothedRTT ps info))"

text \<open>One step of a search for the least; \<open>least_found\<close> says that a whole search finds it.\<close>

definition less_step :: "('p \<Rightarrow> 'k::linorder) \<Rightarrow> TransportID \<times> 'k \<Rightarrow> TransportID \<times> 'p \<Rightarrow> TransportID \<times> 'k" where
  "less_step k best p = (if k (snd p) < snd best then (fst p, k (snd p)) else best)"

lemma less_steps:
  "(foldl (less_step k) a infos = a \<or> (\<exists>p\<in>set infos. foldl (less_step k) a infos = (fst p, k (snd p)))) \<and>
    snd (foldl (less_step k) a infos) \<le> snd a \<and> (\<forall>p\<in>set infos. snd (foldl (less_step k) a infos) \<le> k (snd p))"
proof (induction infos arbitrary: a)
  case (Cons p infos)
  have "less_step k a p = a \<or> less_step k a p = (fst p, k (snd p))"
    and "snd (less_step k a p) \<le> snd a" "snd (less_step k a p) \<le> k (snd p)"
    by (auto simp: less_step_def)
  with Cons.IH [of "less_step k a p"] show ?case
    by (auto intro: order_trans)
qed simp

lemma least_found:
  assumes "infos \<noteq> []" "\<forall>p\<in>set infos. k (snd p) < m"
  shows "\<exists>p\<in>set infos. fst (foldl (less_step k) (i, m) infos) = fst p \<and> (\<forall>q\<in>set infos. k (snd p) \<le> k (snd q))"
proof -
  let ?r = "foldl (less_step k) (i, m) infos"
  note n = less_steps [of k "(i, m)" infos]
  obtain q where q: "q \<in> set infos"
    using assms(1) by (meson last_in_set)
  then have "snd ?r < m"
    using n assms(2) by (meson le_less_trans)
  then have "?r \<noteq> (i, m)"
    by auto
  then obtain p where "p \<in> set infos" "?r = (fst p, k (snd p))"
    using n by blast
  with n show ?thesis by force
qed

lemma minrtt_loop_searches:
  "minrtt_loop ps infos (a, b) =
    (foldl (less_step (key ps)) a (List.filter (\<lambda>p. sendingAllowed (snd p)) infos), foldl (less_step (key ps)) b infos)"
proof (induction infos arbitrary: a b)
  case (Cons p infos)
  have "rttToMicroseconds (MinRTT ps x) = fst (key ps x)" "rttToMicroseconds (SmoothedRTT ps x) = snd (key ps x)" for x
    by (simp_all add: key_def)
  moreover have "closer (fst p) (fst (key ps (snd p))) (snd (key ps (snd p))) c = less_step (key ps) c p" for c
    by (cases c; cases "key ps (snd p)") (auto simp: closer_def less_step_def)
  ultimately show ?case
    using Cons by (cases p) (simp add: Let_def)
qed simp

lemma rttToMicroseconds_bound:
  assumes "0 \<le> d" "d < 2 ^ 63"
  shows "rttToMicroseconds d < - 1"
proof -
  have "d div 1000 \<le> d"
    using zdiv_mono2 [of d 1 1000] assms(1) by simp
  then have "d div 1000 < 18446744073709551615"
    using assms(2) by simp
  then have "uint (rttToMicroseconds d) < uint (- 1 :: u64)"
    using assms by (simp add: rttToMicroseconds_def uint_word_of_int unsigned_minus_1_eq_mask mask_eq_exp_minus_1
        pos_imp_zdiv_nonneg_iff)
  then show ?thesis
    by (simp add: word_less_def)
qed

lemma key_bound: "0 \<le> MinRTT ps info \<Longrightarrow> MinRTT ps info < 2 ^ 63 \<Longrightarrow> key ps info < (- 1, - 1)"
  by (simp add: key_def less_prod_def rttToMicroseconds_bound)

text \<open>The transports that may send, if there is one, and else all.\<close>

definition candidates :: "(TransportID \<rightharpoonup> TransportInfo) \<Rightarrow> TransportID set" where
  "candidates m =
     (if \<exists>i\<in>dom m. sendingAllowed (the (m i)) then {i \<in> dom m. sendingAllowed (the (m i))} else dom m)"

lemma selectTransportMinRTT_loop:
  assumes "distinct order" "set order = dom (transports s)" "dom (transports s) \<noteq> {}" "'''' \<notin> dom (transports s)"
    and "\<forall>i\<in>dom (transports s). key ps (the (transports s i)) < (- 1, - 1)"
  shows "snd (selectTransportMinRTT ps order s) =
    (let infos = entries order (transports s); allowed = List.filter (\<lambda>p. sendingAllowed (snd p)) infos
     in fst (foldl (less_step (key ps)) ('''', - 1, - 1) (if allowed = [] then infos else allowed)))"
proof -
  have infos: "set (entries order (transports s)) = (\<lambda>i. (i, the (transports s i))) ` dom (transports s)"
    using assms(2) by (auto simp: entries_def)
  have found: "fst (foldl (less_step (key ps)) ('''', - 1, - 1) qs) \<noteq> ''''"
    if "qs \<noteq> []" "set qs \<subseteq> set (entries order (transports s))" for qs
    using least_found [of qs "key ps" "(- 1, - 1)" "''''"] that assms(4,5) unfolding infos by force
  consider i info where "entries order (transports s) = [(i, info)]" | "length (entries order (transports s)) \<ge> 2"
    using assms(2,3) by (cases "entries order (transports s)" rule: remdups_adj.cases) (auto simp: entries_def)
  then show ?thesis
  proof cases
    case 1
    then have "(i, info) \<in> (\<lambda>i. (i, the (transports s i))) ` dom (transports s)"
      using infos 1 list.set_intros(1) by metis
    then have "key ps info < (- 1, - 1)"
      using assms(5) by blast
    then show ?thesis
      using 1 by (simp add: selectTransportMinRTT_def less_step_def)
  next
    case 2
    then obtain i info q rest where eq: "entries order (transports s) = (i, info) # q # rest"
      by (cases "entries order (transports s)" rule: remdups_adj.cases) auto
    have "selectTransportMinRTT ps order s =
        (let (selected, fallbk) = minrtt_loop ps (entries order (transports s)) (('''', - 1, - 1), ('''', - 1, - 1));
             selectedID = (if fst selected = '''' then fst fallbk else fst selected)
         in (if selectedID \<noteq> '''' then recordSelection selectedID s else s, selectedID))"
      unfolding selectTransportMinRTT_def eq by (simp only: list.case prod.case)
    then have "snd (selectTransportMinRTT ps order s) =
        (let infos = entries order (transports s);
             selected = fst (foldl (less_step (key ps)) ('''', - 1, - 1) (List.filter (\<lambda>p. sendingAllowed (snd p)) infos))
         in if selected = '''' then fst (foldl (less_step (key ps)) ('''', - 1, - 1) infos) else selected)"
      by (simp add: minrtt_loop_searches Let_def)
    then show ?thesis
      using found [OF _ filter_is_subset, of "\<lambda>p. sendingAllowed (snd p)"]
      by (cases "List.filter (\<lambda>p. sendingAllowed (snd p)) (entries order (transports s)) = []")
        (simp_all only: Let_def if_True if_False foldl.simps fst_conv simp_thms)
  qed
qed

text \<open>
  The selector by round-trip times chooses among the transports that may send, or among all where none may, one whose
  least round-trip time is minimal and, among those, whose smoothed one is minimal, both in microseconds.
\<close>
theorem MinRTT_selects_nearest:
  assumes "distinct order" "set order = dom (transports s)" "dom (transports s) \<noteq> {}" "'''' \<notin> dom (transports s)"
    and "\<forall>i\<in>dom (transports s). 0 \<le> MinRTT ps (the (transports s i)) \<and> MinRTT ps (the (transports s i)) < 2 ^ 63"
  shows "\<exists>i\<in>candidates (transports s). snd (selectTransportMinRTT ps order s) = i \<and>
    (\<forall>j\<in>candidates (transports s). key ps (the (transports s i)) \<le> key ps (the (transports s j)))"
proof -
  let ?infos = "entries order (transports s)"
  let ?allowed = "List.filter (\<lambda>p. sendingAllowed (snd p)) ?infos"
  let ?c = "if ?allowed = [] then ?infos else ?allowed"
  have bound: "\<forall>i\<in>dom (transports s). key ps (the (transports s i)) < (- 1, - 1)"
    using assms(5) key_bound by blast
  have infos: "set ?infos = (\<lambda>i. (i, the (transports s i))) ` dom (transports s)"
    using assms(2) by (auto simp: entries_def)
  have cands: "set ?c = (\<lambda>i. (i, the (transports s i))) ` candidates (transports s)"
    using infos by (auto simp: candidates_def filter_empty_conv)
  have "?c \<noteq> []"
    using infos assms(3) by auto
  moreover have "\<forall>p\<in>set ?c. key ps (snd p) < (- 1, - 1)"
    using bound infos by auto
  ultimately obtain p where "p \<in> set ?c" "fst (foldl (less_step (key ps)) ('''', - 1, - 1) ?c) = fst p"
      "\<forall>q\<in>set ?c. key ps (snd p) \<le> key ps (snd q)"
    using least_found [of ?c "key ps" "(- 1, - 1)" "''''"] by blast
  then show ?thesis
    unfolding selectTransportMinRTT_loop [OF assms(1-4) bound] cands by (auto simp: Let_def)
qed

text \<open>A selector with two transports, the nearer of which has a full window.\<close>

definition two_transports :: "TransportID \<rightharpoonup> TransportInfo" where
  "two_transports =
     [''a'' \<mapsto> \<lparr>transportID = ''a'', metricsProvider = Some 0, sendingAllowed = False, minRTT = 10000000\<rparr>,
      ''b'' \<mapsto> \<lparr>transportID = ''b'', metricsProvider = Some 1, sendingAllowed = True, minRTT = 30000000\<rparr>]"

definition two_providers :: providers where
  "two_providers m =
     \<lparr>provider_RTT = (if m = 0 then 15000000 else 40000000), provider_RTTVar = 1000000, provider_CongestionWindow = 14600,
      provider_BytesInFlight = (if m = 0 then 14600 else 0)\<rparr>"

theorem MinRTT_selects_nearest_witness:
  "snd (selectTransportMinRTT two_providers [''b'', ''a''] (NewMinRTTSelector\<lparr>transports := two_transports\<rparr>)) = ''b''"
proof -
  let ?s = "NewMinRTTSelector\<lparr>transports := two_transports\<rparr>"
  have "set [''b'', ''a''] = dom (transports ?s)" "distinct [''b'', ''a'']" "dom (transports ?s) \<noteq> {}" "'''' \<notin> dom (transports ?s)"
    by (auto simp: two_transports_def)
  moreover have "\<forall>i\<in>dom (transports ?s). 0 \<le> MinRTT two_providers (the (transports ?s i)) \<and> MinRTT two_providers (the (transports ?s i)) < 2 ^ 63"
    by (auto simp: two_transports_def MinRTT_def)
  ultimately have "snd (selectTransportMinRTT two_providers [''b'', ''a''] ?s) \<in> candidates two_transports"
    using MinRTT_selects_nearest [of "[''b'', ''a'']" ?s two_providers] by auto
  also have "candidates two_transports = {''b''}"
    by (auto simp: candidates_def two_transports_def)
  finally show ?thesis by simp
qed

theorem least_RTT_is_kept_witness:
  "map_option minRTT (transports (observed ''a'' 0 [two_providers, \<lambda>m. (two_providers m)\<lparr>provider_RTT := 9000000\<rparr>, two_providers]
     NewMinRTTSelector) ''a'') = Some 9000000"
proof -
  let ?obs = "[two_providers, \<lambda>m. (two_providers m)\<lparr>provider_RTT := 9000000\<rparr>]"
  have "positive_RTTs 0 (?obs @ [two_providers]) = {15000000, 9000000}"
    by (auto simp: positive_RTTs_def two_providers_def)
  then have "least_RTT 0 (?obs @ [two_providers]) = 9000000"
    by (simp add: least_RTT_def)
  moreover have "transports NewMinRTTSelector ''a'' = None"
    by (simp add: NewMinRTTSelector_def)
  ultimately show ?thesis
    using least_RTT_is_kept [of NewMinRTTSelector "''a''" 0 ?obs two_providers] by auto
qed

end
