(* ===== verification/ECF_Properties.thy ===== *)
theory ECF_Properties
  imports Selector_Properties
begin

text \<open>
  What the earliest-completion-first selector (\<open>src/transport/multi/ecf_selector.go\<close>) decides: which transport it
  returns, when it waits, and when it returns none.
\<close>

section \<open>The two searches\<close>

definition base :: "providers \<Rightarrow> TransportInfo \<Rightarrow> u64" where
  "base ps info = rttToMicroseconds (MinRTT ps info)"

definition srtt :: "providers \<Rightarrow> TransportInfo \<Rightarrow> u64" where
  "srtt ps info = rttToMicroseconds (SmoothedRTT ps info)"

definition fastest :: "providers \<Rightarrow> (TransportID \<times> TransportInfo) list \<Rightarrow> TransportID" where
  "fastest ps infos = fst (foldl (less_step (base ps)) ('''', - 1) infos)"

definition available_fastest :: "providers \<Rightarrow> (TransportID \<times> TransportInfo) list \<Rightarrow> TransportID" where
  "available_fastest ps infos =
     fst (foldl (less_step (srtt ps)) ('''', - 1) (List.filter (\<lambda>p. sendingAllowed (snd p)) infos))"

lemma ecf_loop_searches:
  "ecf_loop ps infos (a, b) =
    (foldl (less_step (base ps)) a infos,
     foldl (less_step (srtt ps)) b (List.filter (\<lambda>p. sendingAllowed (snd p)) infos))"
proof (induction infos arbitrary: a b)
  case (Cons p infos)
  then show ?case
    by (cases p; cases a; cases b) (simp add: Let_def less_step_def base_def srtt_def ecf_metrics_def)
qed simp

lemma available_fastest_least:
  assumes "\<forall>p\<in>set infos. 0 \<le> SmoothedRTT ps (snd p) \<and> SmoothedRTT ps (snd p) < 2 ^ 63"
    and "\<exists>p\<in>set infos. sendingAllowed (snd p)"
  shows "\<exists>p\<in>set infos. available_fastest ps infos = fst p \<and> sendingAllowed (snd p) \<and>
    (\<forall>q\<in>set infos. sendingAllowed (snd q) \<longrightarrow> srtt ps (snd p) \<le> srtt ps (snd q))"
proof -
  let ?allowed = "List.filter (\<lambda>p. sendingAllowed (snd p)) infos"
  have "\<forall>p\<in>set ?allowed. srtt ps (snd p) < - 1"
    using assms(1) by (simp add: srtt_def rttToMicroseconds_bound)
  moreover have "?allowed \<noteq> []"
    using assms(2) by (auto simp: filter_empty_conv)
  ultimately obtain p where "p \<in> set ?allowed" "available_fastest ps infos = fst p"
      "\<forall>q\<in>set ?allowed. srtt ps (snd p) \<le> srtt ps (snd q)"
    using least_found [of ?allowed "srtt ps" "- 1" "''''"] unfolding available_fastest_def by blast
  then show ?thesis
    by (intro bexI [of _ p]) auto
qed

lemma available_fastest_none:
  "\<not> (\<exists>p\<in>set infos. sendingAllowed (snd p)) \<Longrightarrow> available_fastest ps infos = ''''"
  by (simp add: available_fastest_def filter_empty_conv [THEN iffD2])

section \<open>Decisions\<close>

text \<open>What \<open>selectTransportECF\<close> does with more than one transport, apart from what it counts.\<close>

definition waits :: "providers \<Rightarrow> (TransportID \<times> TransportInfo) list \<Rightarrow> bool \<Rightarrow> u64 \<Rightarrow> bool" where
  "waits ps infos wait queue \<longleftrightarrow>
     (let f = getMetricsFromBuffer ps infos (fastest ps infos); a = getMetricsFromBuffer ps infos (available_fastest ps infos)
      in fastest ps infos \<noteq> available_fastest ps infos \<and> firstInequality wait queue f a \<and> secondInequality queue f a)"

lemma ecf_select_result:
  "snd (ecf_select switch i s) = i" "waiting (fst (ecf_select switch i s)) = False"
  "transports (fst (ecf_select switch i s)) = transports s" "queueSize (fst (ecf_select switch i s)) = queueSize s"
  by (simp_all add: ecf_select_def ecf_recordSelection_def Let_def)

lemma selectTransportECF_decision:
  assumes "length (entries order (transports s)) \<ge> 2"
  shows "(if available_fastest ps (entries order (transports s)) = '''' then selectTransportECF rec ps order s = (s, '''')
     else if waits ps (entries order (transports s)) (waiting s) (queueSize s)
     then snd (selectTransportECF rec ps order s) = '''' \<and> waiting (fst (selectTransportECF rec ps order s))
     else snd (selectTransportECF rec ps order s) = available_fastest ps (entries order (transports s)) \<and>
       \<not> waiting (fst (selectTransportECF rec ps order s))) \<and>
    transports (fst (selectTransportECF rec ps order s)) = transports s \<and>
    queueSize (fst (selectTransportECF rec ps order s)) = queueSize s"
proof -
  obtain i info q rest where eq: "entries order (transports s) = (i, info) # q # rest"
    using assms by (cases "entries order (transports s)" rule: remdups_adj.cases) auto
  let ?infos = "entries order (transports s)"
  have loop: "ecf_loop ps ?infos (('''', - 1), ('''', - 1)) =
      ((fastest ps ?infos, snd (fst (ecf_loop ps ?infos (('''', - 1), ('''', - 1))))),
       (available_fastest ps ?infos, snd (snd (ecf_loop ps ?infos (('''', - 1), ('''', - 1))))))"
    by (simp add: ecf_loop_searches fastest_def available_fastest_def)
  have "selectTransportECF rec ps order s =
      (if available_fastest ps ?infos = '''' then (s, '''')
       else if fastest ps ?infos = available_fastest ps ?infos then ecf_select True (fastest ps ?infos) s
       else
         (let f = getMetricsFromBuffer ps ?infos (fastest ps ?infos); a = getMetricsFromBuffer ps ?infos (available_fastest ps ?infos)
          in if \<not> firstInequality (waiting s) (queueSize s) f a then ecf_select True (available_fastest ps ?infos) s
             else
               (let s = (if rec then s\<lparr>firstInequalityTrueCount := firstInequalityTrueCount s + 1\<rparr> else s);
                    second = secondInequality (queueSize s) f a;
                    s = (if rec \<and> second then s\<lparr>secondInequalityTrueCount := secondInequalityTrueCount s + 1\<rparr> else s)
                in if second
                   then (s\<lparr>waiting := True, waitingForTransport := fastest ps ?infos,
                          actualWaitCount := (if rec then actualWaitCount s + 1 else actualWaitCount s)\<rparr>, '''')
                   else ecf_select True (available_fastest ps ?infos) s)))"
    by (subst selectTransportECF_def, subst (1) eq, simp only: list.case prod.case, subst eq [symmetric], subst loop)
      (simp only: prod.case Let_def eq [symmetric])
  then show ?thesis
    by (simp add: waits_def Let_def ecf_select_result)
qed

text \<open>
  What the selector returns. With more than one transport, it returns one that may send and whose smoothed round-trip
  time is the least among those; it returns none exactly when none may send or it waits for a faster one.
\<close>
theorem ECF_outcome:
  assumes "distinct order" "set order = dom (transports s)" "2 \<le> length order" "'''' \<notin> dom (transports s)"
    and "\<forall>i\<in>dom (transports s). 0 \<le> SmoothedRTT ps (the (transports s i)) \<and> SmoothedRTT ps (the (transports s i)) < 2 ^ 63"
  shows "case selectTransportECF rec ps order s of (s', i) \<Rightarrow>
    if i = '''' then waiting s' \<or> \<not> (\<exists>j\<in>dom (transports s). sendingAllowed (the (transports s j)))
    else \<not> waiting s' \<and> i \<in> dom (transports s) \<and> sendingAllowed (the (transports s i)) \<and>
      (\<forall>j\<in>dom (transports s). sendingAllowed (the (transports s j)) \<longrightarrow>
        srtt ps (the (transports s i)) \<le> srtt ps (the (transports s j)))"
proof -
  let ?infos = "entries order (transports s)"
  have infos: "set ?infos = (\<lambda>i. (i, the (transports s i))) ` dom (transports s)"
    using assms(2) by (auto simp: entries_def)
  have "length ?infos \<ge> 2"
    using assms(3) by (simp add: entries_def)
  note decision = selectTransportECF_decision [OF this, of ps rec]
  have bounds: "\<forall>p\<in>set ?infos. 0 \<le> SmoothedRTT ps (snd p) \<and> SmoothedRTT ps (snd p) < 2 ^ 63"
    using assms(5) unfolding infos by auto
  show ?thesis
  proof (cases "\<exists>p\<in>set ?infos. sendingAllowed (snd p)")
    case True
    then obtain p where p: "p \<in> set ?infos" "available_fastest ps ?infos = fst p" "sendingAllowed (snd p)"
        "\<forall>q\<in>set ?infos. sendingAllowed (snd q) \<longrightarrow> srtt ps (snd p) \<le> srtt ps (snd q)"
      using available_fastest_least [OF bounds] by blast
    then have "fst p \<in> dom (transports s)" "snd p = the (transports s (fst p))" "fst p \<noteq> ''''"
      using assms(4) unfolding infos by auto
    moreover have "\<forall>j\<in>dom (transports s). sendingAllowed (the (transports s j)) \<longrightarrow> srtt ps (snd p) \<le> srtt ps (the (transports s j))"
      using p(4) unfolding infos by auto
    ultimately show ?thesis
      using decision p(2,3) by (auto split: prod.split if_splits)
  next
    case False
    then have "selectTransportECF rec ps order s = (s, '''')"
      using decision available_fastest_none [OF False] by simp
    then show ?thesis
      using False unfolding infos by auto
  qed
qed

section \<open>Calls that do not return, or return nothing\<close>

lemma ECF_rounds_waits:
  assumes "length (entries order (transports s)) \<ge> 2" "available_fastest ps (entries order (transports s)) \<noteq> ''''"
    and "waits ps (entries order (transports s)) True (queueSize s)" "waits ps (entries order (transports s)) (waiting s) (queueSize s)"
  shows "ECF_rounds first (replicate n \<lparr>updates = [], says = ps, order_of = order\<rparr>) s = None"
  using assms
proof (induction n arbitrary: first s)
  case (Suc n)
  note decision = selectTransportECF_decision [OF Suc.prems(1), of ps first]
  obtain s' i where sel: "selectTransportECF first ps order s = (s', i)"
    by fastforce
  have s': "i = ''''" "waiting s'" "transports s' = transports s" "queueSize s' = queueSize s"
    using decision Suc.prems(2,4) by (simp_all add: sel)
  then have "ECF_rounds False (replicate n \<lparr>updates = [], says = ps, order_of = order\<rparr>) s' = None"
    using Suc.prems by (intro Suc.IH) simp_all
  then show ?case
    using s'(1,2) by (simp add: sel Let_def)
qed simp

text \<open>
  A call that waits does not give up. As long as nothing changes, \<open>Get\<close> does not return, however many rounds it makes;
  in particular when the faster transport has been removed from the multi transport and is not updated any more.
\<close>
theorem ECF_waits_while_nothing_changes:
  assumes "length (entries order (transports s)) \<ge> 2" "available_fastest ps (entries order (transports s)) \<noteq> ''''"
    and "waits ps (entries order (transports s)) True (queueSize s)" "waits ps (entries order (transports s)) (waiting s) (queueSize s)"
  shows "ECF_Get (replicate n \<lparr>updates = [], says = ps, order_of = order\<rparr>) mt bsSize s = None"
  using ECF_rounds_waits [OF assms] by (simp add: ECF_Get_def)

text \<open>
  A selector that does not wait returns none at once when no transport may send, also when all are connected.
\<close>
theorem ECF_full_windows_refused:
  assumes "2 \<le> length order" "\<forall>i\<in>set order. \<not> sendingAllowed (the (transports s i))" "\<not> waiting s"
  shows "ECF_Get (\<lparr>updates = [], says = ps, order_of = order\<rparr> # polls) mt bsSize s = Some (s, '''')"
proof -
  have "length (entries order (transports s)) \<ge> 2"
    using assms(1) by (simp add: entries_def)
  moreover have "available_fastest ps (entries order (transports s)) = ''''"
    using assms(2) by (intro available_fastest_none) (auto simp: entries_def)
  ultimately have "selectTransportECF True ps order s = (s, '''')"
    using selectTransportECF_decision [of order s ps True] by simp
  then show ?thesis
    using assms(3) by (simp add: ECF_Get_def Let_def)
qed

section \<open>Two transports\<close>

definition two_infos :: "(TransportID \<times> TransportInfo) list" where
  "two_infos = entries [''a'', ''b''] two_transports"

lemma two_searches: "fastest two_providers two_infos = ''a''" "available_fastest two_providers two_infos = ''b''"
  by (simp_all add: fastest_def available_fastest_def two_infos_def entries_def two_transports_def less_step_def base_def srtt_def
      MinRTT_def SmoothedRTT_def two_providers_def rttToMicroseconds_def)

lemma two_metrics:
  "getMetricsFromBuffer two_providers two_infos ''a'' =
     \<lparr>rtt = 15000, rttvar = 1000, cwnd = 14600, bytesInFlight = 14600, allowed = False\<rparr>"
  "getMetricsFromBuffer two_providers two_infos ''b'' =
     \<lparr>rtt = 40000, rttvar = 1000, cwnd = 14600, bytesInFlight = 0, allowed = True\<rparr>"
  by (simp_all add: getMetricsFromBuffer_def two_infos_def entries_def two_transports_def ecf_metrics_def two_providers_def
      SmoothedRTT_def MeanDeviation_def CongestionWindow_def BytesInFlight_def rttToMicroseconds_def)

lemma two_waits: "waits two_providers two_infos wait 0"
  unfolding waits_def two_searches two_metrics Let_def firstInequality_def secondInequality_def ecf_delta_def ecfBeta_def
  by simp

lemma dom_two: "dom two_transports = {''a'', ''b''}"
  by (auto simp: two_transports_def)

lemma allowed_two: "sendingAllowed (the (two_transports ''a'')) = False" "sendingAllowed (the (two_transports ''b''))"
  by (simp_all add: two_transports_def)

definition two_ecf :: ECFSelector where
  "two_ecf = NewECFSelector\<lparr>transports := two_transports\<rparr>"

lemma transports_two_ecf: "transports two_ecf = two_transports"
  by (simp add: two_ecf_def)

theorem ECF_outcome_witness:
  "case selectTransportECF True two_providers [''a'', ''b''] two_ecf of (s', i) \<Rightarrow> if i = '''' then waiting s' else i = ''b''"
proof -
  have "0 \<le> SmoothedRTT two_providers (the (two_transports i)) \<and> SmoothedRTT two_providers (the (two_transports i)) < 2 ^ 63"
    if "i \<in> dom two_transports" for i
    using that by (auto simp: two_transports_def SmoothedRTT_def two_providers_def)
  moreover obtain s' i where sel: "selectTransportECF True two_providers [''a'', ''b''] two_ecf = (s', i)"
    by fastforce
  moreover note ECF_outcome [of "[''a'', ''b'']" two_ecf two_providers True, unfolded transports_two_ecf dom_two sel prod.case]
  ultimately have "if i = '''' then waiting s' \<or> \<not> (\<exists>j\<in>{''a'', ''b''}. sendingAllowed (the (two_transports j)))
      else i \<in> {''a'', ''b''} \<and> sendingAllowed (the (two_transports i))"
    unfolding dom_two by (auto split: if_splits)
  then show ?thesis
    using allowed_two by (auto simp: sel split: if_splits)
qed

theorem ECF_waits_while_nothing_changes_witness:
  "ECF_Get (replicate 1000 \<lparr>updates = [], says = two_providers, order_of = [''a'', ''b'']\<rparr>) mt 10
     two_ecf = None"
  by (rule ECF_waits_while_nothing_changes)
    (simp_all add: two_ecf_def NewECFSelector_def two_infos_def [symmetric] two_searches two_waits, simp add: two_infos_def entries_def)

definition full_windows :: ECFSelector where
  "full_windows = NewECFSelector\<lparr>transports := map_option (sendingAllowed_update (\<lambda>_. False)) \<circ> two_transports\<rparr>"

theorem ECF_full_windows_refused_witness:
  "ECF_Get [\<lparr>updates = [], says = two_providers, order_of = [''a'', ''b'']\<rparr>]
     (Some [(''a'', StatusConnected), (''b'', StatusConnected)]) 10 full_windows = Some (full_windows, '''')"
  by (rule ECF_full_windows_refused) (simp_all add: full_windows_def NewECFSelector_def two_transports_def)

end
