(* ===== verification/Multi.thy ===== *)
theory Multi
  imports Selectors
begin

text \<open>
  The multi transport (\<open>src/transport/multi/transport.go\<close>): the overall status, \<open>Write\<close>, and the goroutines that read
  from the transports and remove them, with the read-write lock \<open>mu\<close> that they share.
\<close>

section \<open>Overall status\<close>

datatype MultiOverallStatus =
  MultiOverallStatusAllConnected
| MultiOverallStatusPartiallyConnected
| MultiOverallStatusAllReconnecting
| MultiOverallStatusDisconnected

definition tally :: "Status set \<Rightarrow> TransportMap \<Rightarrow> nat" where
  "tally sts ts = length (List.filter (\<lambda>p. snd p \<in> sts) ts)"

definition overall :: "TransportMap \<Rightarrow> MultiOverallStatus" where
  "overall ts =
     (if ts = [] then MultiOverallStatusDisconnected
      else
        (let connectedCount = tally {StatusConnected} ts;
             reconnectingCount = tally {StatusReconnecting, StatusConnecting} ts;
             totalCount = length ts
         in if connectedCount = totalCount then MultiOverallStatusAllConnected
            else if connectedCount > 0 then MultiOverallStatusPartiallyConnected
            else if reconnectingCount > 0 then MultiOverallStatusAllReconnecting
            else MultiOverallStatusDisconnected))"

section \<open>Writing\<close>

text \<open>The result of \<open>Write\<close>, without the error of the transport it writes to.\<close>

datatype write_result = WriteErrAlreadyClosed | WrittenTo TransportID | WritePanics

definition multi_Write ::
  "(TransportMap \<Rightarrow> int \<Rightarrow> 's \<Rightarrow> ('s \<times> TransportID) option) \<Rightarrow> TransportMap \<Rightarrow> bytes \<Rightarrow> 's \<Rightarrow> ('s \<times> write_result) option" where
  "multi_Write get ts bs s =
     (case get ts (int (length bs)) s of
        None \<Rightarrow> None
      | Some (s, selectedID) \<Rightarrow>
          Some (s, if selectedID = '''' then WriteErrAlreadyClosed
                   else if map_of ts selectedID = None then WritePanics
                   else WrittenTo selectedID))"

section \<open>Goroutines and the lock\<close>

text \<open>
  A call of \<open>Write\<close>, which holds \<open>mu\<close> for reading from \<open>WSelecting\<close> on, and twice in \<open>WCopying\<close>, where its selector
  copies the map.
\<close>

datatype 'm wcall =
  WWaiting 'm
| WSelecting 'm
| WCopying 'm
| WSelected 'm TransportID
| WReturned "TransportID option"
| WPanics

text \<open>
  The goroutine of a transport. A goroutine that wants \<open>mu\<close> for writing first announces this; from then on no other
  goroutine gets the lock, for reading or writing.
\<close>

datatype 'm loop =
  LoopReading
| LoopSending 'm
| LoopEnding
| LoopPending
| LoopDeleting
| LoopEnded

record 'm mworld =
  transportMap :: "TransportID list"
  overallStatus :: MultiOverallStatus
  ctx_done :: bool
  readResCh :: "(TransportID \<times> 'm) list"
  loops :: "TransportID \<Rightarrow> 'm loop"
  writes :: "'m wcall list"
  took :: "TransportID \<Rightarrow> 'm list"  \<comment> \<open>what was read from each transport\<close>
  delivered :: "(TransportID \<times> 'm) list"

definition mworld_init :: "TransportID list \<Rightarrow> 'm mworld" where
  "mworld_init ids =
     \<lparr>transportMap = ids, overallStatus = MultiOverallStatusAllConnected, ctx_done = False, readResCh = [],
      loops = (\<lambda>t. if t \<in> set ids then LoopReading else LoopEnded), writes = [], took = (\<lambda>t. []), delivered = []\<rparr>"

definition readResCh_cap :: nat where "readResCh_cap = 1024"

definition write_locked :: "'m mworld \<Rightarrow> bool" where
  "write_locked w = (\<exists>t\<in>set (transportMap w). loops w t = LoopPending \<or> loops w t = LoopDeleting)"

fun holds_read :: "'m wcall \<Rightarrow> bool" where
  "holds_read (WSelecting m) = True" | "holds_read (WCopying m) = True" | "holds_read (WSelected m i) = True"
| "holds_read _ = False"

definition read_locked :: "'m mworld \<Rightarrow> bool" where
  "read_locked w = list_ex holds_read (writes w)"

definition set_loop :: "TransportID \<Rightarrow> 'm loop \<Rightarrow> 'm mworld \<Rightarrow> 'm mworld" where
  "set_loop t l w = w\<lparr>loops := (loops w)(t := l)\<rparr>"

definition updateOverallStatus :: "TransportMap \<Rightarrow> 'm mworld \<Rightarrow> 'm mworld" where
  "updateOverallStatus ts w =
     w\<lparr>overallStatus := overall ts, ctx_done := (ctx_done w \<or> overall ts = MultiOverallStatusDisconnected)\<rparr>"

text \<open>\<open>readLoopTransport\<close>:\<close>

inductive loop_step :: "TransportID \<Rightarrow> 'm mworld \<Rightarrow> 'm mworld \<Rightarrow> bool" where
  LoopRead: "loops w t = LoopReading \<Longrightarrow> loop_step t w ((set_loop t (LoopSending m) w)\<lparr>took := (took w)(t := took w t @ [m])\<rparr>)"
| LoopSend: "loops w t = LoopSending m \<Longrightarrow> length (readResCh w) < readResCh_cap \<Longrightarrow>
    loop_step t w ((set_loop t LoopReading w)\<lparr>readResCh := readResCh w @ [(t, m)]\<rparr>)"
| LoopDrop: "loops w t = LoopSending m \<Longrightarrow> ctx_done w \<Longrightarrow> loop_step t w (set_loop t LoopReading w)"
| LoopFails: "loops w t = LoopReading \<Longrightarrow> loop_step t w (set_loop t LoopEnding w)"
| LoopAnnounce: "loops w t = LoopEnding \<Longrightarrow> \<not> write_locked w \<Longrightarrow> loop_step t w (set_loop t LoopPending w)"
| LoopLock: "loops w t = LoopPending \<Longrightarrow> \<not> read_locked w \<Longrightarrow> loop_step t w (set_loop t LoopDeleting w)"
| LoopDelete: "loops w t = LoopDeleting \<Longrightarrow>
    loop_step t w ((set_loop t LoopEnded w)\<lparr>transportMap := List.filter (\<lambda>i. i \<noteq> t) (transportMap w)\<rparr>)"

text \<open>\<open>Write\<close>; the selector keeps its contract. The lock is released when the call returns.\<close>

inductive write_step :: "nat \<Rightarrow> 'm mworld \<Rightarrow> 'm mworld \<Rightarrow> bool" where
  WriteLock: "writes w ! k = WWaiting m \<Longrightarrow> \<not> write_locked w \<Longrightarrow> write_step k w (w\<lparr>writes := (writes w)[k := WSelecting m]\<rparr>)"
| WriteCopy: "writes w ! k = WSelecting m \<Longrightarrow> \<not> write_locked w \<Longrightarrow> write_step k w (w\<lparr>writes := (writes w)[k := WCopying m]\<rparr>)"
| WriteSelect: "writes w ! k = WCopying m \<Longrightarrow> i = '''' \<or> i \<in> set (transportMap w) \<Longrightarrow>
    write_step k w (w\<lparr>writes := (writes w)[k := WSelected m i]\<rparr>)"
| WriteReturn: "writes w ! k = WSelected m i \<Longrightarrow>
    write_step k w (w\<lparr>writes := (writes w)[k := if i = '''' then WReturned None
                                              else if i \<in> set (transportMap w) then WReturned (Some i) else WPanics]\<rparr>)"

inductive mstep :: "'m mworld \<Rightarrow> 'm mworld \<Rightarrow> bool" where
  Loop: "t \<in> set (transportMap w) \<Longrightarrow> loop_step t w w' \<Longrightarrow> mstep w w'"
| Write: "k < length (writes w) \<Longrightarrow> write_step k w w' \<Longrightarrow> mstep w w'"
| WriteCall: "mstep w (w\<lparr>writes := writes w @ [WWaiting m]\<rparr>)"
| Deliver: "readResCh w = r # rs \<Longrightarrow> mstep w (w\<lparr>readResCh := rs, delivered := delivered w @ [r]\<rparr>)"
| Monitor: "\<not> write_locked w \<Longrightarrow> List.map fst ts = transportMap w \<Longrightarrow> mstep w (updateOverallStatus ts w)"
| CloseMulti: "mstep w (w\<lparr>ctx_done := True\<rparr>)"

end
