(* ===== verification/Multi_Properties.thy ===== *)
theory Multi_Properties
  imports Multi Selector_Properties Step_Systems "HOL-Library.Sublist"
begin

text \<open>What the multi transport guarantees, sequentially with each selector and in every interleaving of its goroutines.\<close>

section \<open>Overall status\<close>

lemma tally_eq: "tally sts ts = length ts \<longleftrightarrow> snd ` set ts \<subseteq> sts"
proof (induction ts)
  case (Cons p ts)
  have "length (List.filter (\<lambda>p. snd p \<in> sts) ts) \<noteq> Suc (length ts)"
    by (metis length_filter_le not_less_eq_eq order_refl)
  with Cons show ?case
    by (cases "snd p \<in> sts") (simp_all add: tally_def)
qed (simp add: tally_def)

lemma tally_pos: "0 < tally sts ts \<longleftrightarrow> snd ` set ts \<inter> sts \<noteq> {}"
  by (auto simp: tally_def filter_empty_conv image_iff)

text \<open>The overall status depends only on which statuses occur among the transports.\<close>
theorem overall_status:
  "overall ts =
     (if snd ` set ts = {StatusConnected} then MultiOverallStatusAllConnected
      else if StatusConnected \<in> snd ` set ts then MultiOverallStatusPartiallyConnected
      else if snd ` set ts \<subseteq> {StatusDisconnected} then MultiOverallStatusDisconnected
      else MultiOverallStatusAllReconnecting)"
proof -
  have all: "tally {StatusConnected} ts = length ts \<longleftrightarrow> snd ` set ts = {StatusConnected}" if "ts \<noteq> []"
    using that by (simp add: tally_eq subset_singleton_iff)
  have no: "snd ` set ts \<inter> {StatusReconnecting, StatusConnecting} = {} \<longleftrightarrow> snd ` set ts \<subseteq> {StatusDisconnected}"
    if "StatusConnected \<notin> snd ` set ts"
    using that by (auto, metis Status.exhaust image_eqI snd_conv)
  show ?thesis
    using all no by (cases "ts = []") (auto simp: overall_def Let_def tally_pos)
qed

section \<open>Writing with each selector\<close>

text \<open>
  What a client expects of \<open>Write\<close>: it does not panic, a message goes to a transport that is not disconnected, and to a
  connected one if there is one.
\<close>

definition well_written :: "TransportMap \<Rightarrow> write_result \<Rightarrow> bool" where
  "well_written ts r \<longleftrightarrow>
     (case r of
        WritePanics \<Rightarrow> False
      | WriteErrAlreadyClosed \<Rightarrow> True
      | WrittenTo i \<Rightarrow> (\<exists>st. map_of ts i = Some st \<and> st \<noteq> StatusDisconnected \<and>
          (StatusConnected \<in> snd ` set ts \<longrightarrow> st = StatusConnected)))"

text \<open>And of a prompt one: that it returns, and fails only when every transport is disconnected.\<close>

definition writes_well :: "(TransportMap \<Rightarrow> int \<Rightarrow> 's \<Rightarrow> ('s \<times> TransportID) option) \<Rightarrow> bool" where
  "writes_well get \<longleftrightarrow>
     (\<forall>ts bs s. distinct (List.map fst ts) \<longrightarrow> (\<forall>s' r. multi_Write get ts bs s = Some (s', r) \<longrightarrow> well_written ts r))"

definition writes_promptly :: "(TransportMap \<Rightarrow> int \<Rightarrow> 's \<Rightarrow> ('s \<times> TransportID) option) \<Rightarrow> bool" where
  "writes_promptly get \<longleftrightarrow> writes_well get \<and>
     (\<forall>ts bs s. '''' \<notin> fst ` set ts \<longrightarrow>
       (\<exists>s' r. multi_Write get ts bs s = Some (s', r) \<and>
         (r = WriteErrAlreadyClosed \<longrightarrow> snd ` set ts \<subseteq> {StatusDisconnected})))"

context transport_selector
begin

lemma writes_well: "writes_well get"
  unfolding writes_well_def
proof (intro allI impI)
  fix ts :: TransportMap and bs :: bytes and s s' r
  assume ts: "distinct (List.map fst ts)" and "multi_Write get ts bs s = Some (s', r)"
  then obtain i where get: "get ts (int (length bs)) s = Some (s', i)"
    and r: "r = (if i = '''' then WriteErrAlreadyClosed else if map_of ts i = None then WritePanics else WrittenTo i)"
    by (auto simp: multi_Write_def split: option.splits prod.splits)
  show "well_written ts r"
  proof (cases "i = ''''")
    case False
    then obtain st where "map_of ts i = Some st" "st \<noteq> StatusDisconnected"
      using usable [OF get ts] by blast
    then show ?thesis
      using connected [OF get ts False] False by (simp add: r well_written_def)
  qed (simp add: r well_written_def)
qed

end

context prompt_selector
begin

lemma writes_promptly: "writes_promptly get"
  unfolding writes_promptly_def
proof (intro conjI allI impI writes_well)
  fix ts :: TransportMap and bs :: bytes and s
  assume "'''' \<notin> fst ` set ts"
  with returns [of ts "int (length bs)" s] refuses [of ts "int (length bs)" s]
  show "\<exists>s' r. multi_Write get ts bs s = Some (s', r) \<and> (r = WriteErrAlreadyClosed \<longrightarrow> snd ` set ts \<subseteq> {StatusDisconnected})"
    by (auto simp: multi_Write_def split: prod.splits)
qed

end


section \<open>The goroutines\<close>

interpretation multi: step_system "\<lambda>w. \<exists>ids. distinct ids \<and> w = mworld_init ids" "mstep :: 'm mworld \<Rightarrow> 'm mworld \<Rightarrow> bool" .

fun sending :: "'m loop \<Rightarrow> 'm list" where
  "sending (LoopSending m) = [m]" | "sending _ = []"

definition passed_on :: "TransportID \<Rightarrow> 'm mworld \<Rightarrow> 'm list" where
  "passed_on t w = List.map snd (List.filter (\<lambda>p. fst p = t) (delivered w @ readResCh w))"

lemma passed_on_simps:
  "passed_on t (set_loop u l w) = passed_on t w" "passed_on t (w\<lparr>took := f\<rparr>) = passed_on t w"
  "passed_on t (w\<lparr>transportMap := ids\<rparr>) = passed_on t w" "passed_on t (w\<lparr>writes := ws\<rparr>) = passed_on t w"
  "passed_on t (w\<lparr>ctx_done := c\<rparr>) = passed_on t w" "passed_on t (updateOverallStatus ts w) = passed_on t w"
  "passed_on t (w\<lparr>readResCh := readResCh w @ [(u, m)]\<rparr>) = passed_on t w @ (if u = t then [m] else [])"
  by (simp_all add: passed_on_def set_loop_def updateOverallStatus_def)

definition inv_read :: "TransportID \<Rightarrow> 'm mworld \<Rightarrow> bool" where
  "inv_read t w \<longleftrightarrow>
     (\<not> ctx_done w \<longrightarrow> took w t = passed_on t w @ sending (loops w t)) \<and>
     subseq (passed_on t w @ sending (loops w t)) (took w t)"

lemma subseq_drop_end: "subseq (xs @ ys) zs \<Longrightarrow> subseq xs zs"
  by (meson prefixI prefix_imp_subseq subseq_order.trans)

lemma inv_read_loop: "loop_step u w w' \<Longrightarrow> inv_read t w \<Longrightarrow> inv_read t w'"
proof (induction rule: loop_step.induct)
  case (LoopSend w u m)
  have "passed_on t ((set_loop u LoopReading w)\<lparr>readResCh := readResCh w @ [(u, m)]\<rparr>) = passed_on t w @ (if u = t then [m] else [])"
    by (simp add: passed_on_def set_loop_def)
  then show ?case
    using LoopSend by (auto simp: inv_read_def set_loop_def split: if_splits)
next
  case (LoopDrop w u m)
  then show ?case
    using subseq_drop_end [of "passed_on t w" "sending (loops w t)" "took w t"]
    by (auto simp: inv_read_def passed_on_simps) (auto simp: set_loop_def)
qed (auto simp: inv_read_def passed_on_simps, (auto simp: set_loop_def)+)

lemma inv_read_mstep: "mstep w w' \<Longrightarrow> inv_read t w \<Longrightarrow> inv_read t w'"
proof (induction rule: mstep.induct)
  case (Loop u w w')
  then show ?case by (simp add: inv_read_loop)
next
  case (Write k w w')
  have "passed_on t w' = passed_on t w \<and> took w' = took w \<and> loops w' = loops w \<and> ctx_done w' = ctx_done w"
    using Write(2) by (induction rule: write_step.induct) (simp_all add: passed_on_simps)
  then show ?case
    using Write(3) by (simp add: inv_read_def)
next
  case (Deliver w r rs)
  then have "passed_on t (w\<lparr>readResCh := rs, delivered := delivered w @ [r]\<rparr>) = passed_on t w"
    by (simp add: passed_on_def)
  then show ?case
    using Deliver by (simp add: inv_read_def)
qed (auto simp: inv_read_def passed_on_simps, simp_all add: updateOverallStatus_def)

definition inv_write :: "'m mworld \<Rightarrow> bool" where
  "inv_write w \<longleftrightarrow>
     (\<forall>t\<in>set (transportMap w). loops w t = LoopDeleting \<longrightarrow> \<not> read_locked w) \<and>
     (\<forall>m i. WSelected m i \<in> set (writes w) \<longrightarrow> i = '''' \<or> i \<in> set (transportMap w)) \<and>
     WPanics \<notin> set (writes w)"

lemma read_lockedI: "c \<in> set (writes w) \<Longrightarrow> holds_read c \<Longrightarrow> read_locked w"
  by (auto simp: read_locked_def list_ex_iff)

lemma read_locked_loop [simp]:
  "read_locked (set_loop t l w) = read_locked w" "read_locked (w\<lparr>took := f\<rparr>) = read_locked w"
  "read_locked (w\<lparr>readResCh := c\<rparr>) = read_locked w" "read_locked (w\<lparr>transportMap := ids\<rparr>) = read_locked w"
  by (simp_all add: read_locked_def set_loop_def)

lemma set_loop_simps [simp]:
  "loops (set_loop t l w) = (loops w)(t := l)" "writes (set_loop t l w) = writes w" "transportMap (set_loop t l w) = transportMap w"
  by (simp_all add: set_loop_def)

lemma inv_write_loop: "loop_step t w w' \<Longrightarrow> t \<in> set (transportMap w) \<Longrightarrow> inv_write w \<Longrightarrow> inv_write w'"
proof (induction rule: loop_step.induct)
  case (LoopDelete w t)
  then have "\<not> read_locked w"
    by (auto simp: inv_write_def)
  then have "WSelected m i \<notin> set (writes w)" for m i
    using read_lockedI by fastforce
  then show ?case
    using LoopDelete by (auto simp: inv_write_def)
qed (auto simp: inv_write_def)

lemma in_set_update: "c \<in> set (xs[k := x]) \<Longrightarrow> c = x \<or> c \<in> set xs"
  using set_update_subset_insert [of xs k x] by blast

lemma inv_write_call:
  assumes "write_step k w w'" "k < length (writes w)" "inv_write w"
  shows "inv_write w'"
proof -
  have held: "holds_read (writes w ! k) \<Longrightarrow> read_locked w"
    using read_lockedI [OF nth_mem [OF assms(2)]] .
  have free: "\<not> write_locked w \<Longrightarrow> \<forall>t\<in>set (transportMap w). loops w t \<noteq> LoopDeleting"
    by (auto simp: write_locked_def)
  have deleting: "read_locked w \<Longrightarrow> \<forall>t\<in>set (transportMap w). loops w t \<noteq> LoopDeleting"
    using assms(3) by (auto simp: inv_write_def)
  have selected: "WSelected m i \<in> set (writes w) \<Longrightarrow> i = '''' \<or> i \<in> set (transportMap w)" and "WPanics \<notin> set (writes w)" for m i
    using assms(3) by (auto simp: inv_write_def)
  then have panics: "c \<in> set (writes w) \<Longrightarrow> c \<noteq> WPanics" for c
    by blast
  from assms(1) show ?thesis
  proof cases
    case (WriteLock m)
    with free show ?thesis
      using selected panics by (auto simp: inv_write_def dest!: in_set_update)
  next
    case (WriteCopy m)
    with free show ?thesis
      using selected panics by (auto simp: inv_write_def dest!: in_set_update)
  next
    case (WriteSelect m i)
    with held deleting show ?thesis
      using selected panics by (auto simp: inv_write_def dest!: in_set_update)
  next
    case (WriteReturn m i)
    then have "i = '''' \<or> i \<in> set (transportMap w)"
      using selected assms(2) by (metis nth_mem)
    with WriteReturn held deleting show ?thesis
      using selected panics by (auto simp: inv_write_def dest!: in_set_update split: if_splits)
  qed
qed

lemma inv_write_mstep: "mstep w w' \<Longrightarrow> inv_write w \<Longrightarrow> inv_write w'"
proof (induction rule: mstep.induct)
  case (Loop t w w')
  then show ?case using inv_write_loop by blast
next
  case (Write k w w')
  then show ?case using inv_write_call by blast
qed (auto simp: inv_write_def updateOverallStatus_def read_locked_def)

lemma multi_invariants:
  assumes "multi.reachable w"
  shows "inv_read t w" "inv_write w"
proof -
  have "inv_read t w \<and> inv_write w"
    using assms
  proof (induction rule: multi.invariant)
    case (Start w)
    then show ?case
      by (auto simp: mworld_init_def inv_read_def inv_write_def passed_on_def)
  next
    case (Step w w')
    then show ?case using inv_read_mstep inv_write_mstep by blast
  qed
  then show "inv_read t w" "inv_write w" by blast+
qed

text \<open>A run: a message arrives on one transport, while another is sent on the other.\<close>

definition busy :: "nat mworld" where
  "busy = \<lparr>transportMap = [''a'', ''b''], overallStatus = MultiOverallStatusAllConnected, ctx_done = False,
     readResCh = [(''a'', 3)], loops = (\<lambda>t. if t \<in> {''a'', ''b''} then LoopReading else LoopEnded),
     writes = [WSelected 7 ''b''], took = (\<lambda>t. if t = ''a'' then [3] else []), delivered = []\<rparr>"

lemma multi_step_eq: "multi.reachable w \<Longrightarrow> mstep w w' \<Longrightarrow> w' = w'' \<Longrightarrow> multi.reachable w''"
  by (blast intro: multi.reachable.Step)

lemma reachable_busy: "multi.reachable busy"
proof -
  let ?w = "mworld_init [''a'', ''b''] :: nat mworld"
  let ?w1 = "?w\<lparr>writes := [WWaiting 7]\<rparr>"
  let ?r1 = "(set_loop ''a'' (LoopSending 3) ?w)\<lparr>took := (took ?w)(''a'' := took ?w ''a'' @ [3])\<rparr>"
  let ?r2 = "(set_loop ''a'' LoopReading ?r1)\<lparr>readResCh := readResCh ?r1 @ [(''a'', 3)]\<rparr>"
  have "multi.reachable ?w"
    by (rule multi.reachable.Start) (intro exI [of _ "[''a'', ''b'']"], simp)
  then have "multi.reachable ?r1"
    by (rule multi.reachable.Step)
      (rule mstep.Loop [where t = "''a''"], simp add: mworld_init_def, rule loop_step.LoopRead, simp add: mworld_init_def)
  then have "multi.reachable ?r2"
    by (rule multi.reachable.Step)
      (rule mstep.Loop [where t = "''a''"], simp add: mworld_init_def, rule loop_step.LoopSend; simp add: mworld_init_def readResCh_cap_def set_loop_def)
  then have "multi.reachable (?r2\<lparr>writes := [WWaiting 7]\<rparr>)"
    by (rule multi_step_eq) (rule mstep.WriteCall [where m = 7], simp add: mworld_init_def)
  then have "multi.reachable (?r2\<lparr>writes := [WSelecting 7]\<rparr>)"
    by (rule multi_step_eq)
      (rule mstep.Write [where k = 0], simp, rule write_step.WriteLock, simp_all add: mworld_init_def write_locked_def)
  then have "multi.reachable (?r2\<lparr>writes := [WCopying 7]\<rparr>)"
    by (rule multi_step_eq)
      (rule mstep.Write [where k = 0], simp, rule write_step.WriteCopy, simp_all add: mworld_init_def write_locked_def)
  then have "multi.reachable (?r2\<lparr>writes := [WSelected 7 ''b'']\<rparr>)"
    by (rule multi_step_eq)
      (rule mstep.Write [where k = 0], simp, rule write_step.WriteSelect [where i = "''b''"], simp_all add: mworld_init_def)
  also have "?r2\<lparr>writes := [WSelected 7 ''b'']\<rparr> = busy"
    by (simp add: busy_def mworld_init_def set_loop_def fun_eq_iff)
  finally show ?thesis .
qed

text \<open>
  C34: what the multi transport delivers and holds is, for each transport, a subsequence in order of what was read from it,
  and until its context is done all of that, but the message its goroutine has in hand.
\<close>
theorem multi_keeps_order:
  assumes "multi.reachable w"
  shows "subseq (passed_on t w) (took w t) \<and> (ctx_done w \<or> took w t = passed_on t w @ sending (loops w t))"
  using multi_invariants(1) [OF assms, of t] subseq_drop_end by (auto simp: inv_read_def)

theorem multi_keeps_order_witness: "subseq (passed_on ''a'' busy) [3] \<and> [3] = passed_on ''a'' busy"
  using multi_keeps_order [OF reachable_busy, of "''a''"] by (simp add: busy_def)

text \<open>
  The transport that \<open>Write\<close> has chosen stays in the map until it is written to, because the goroutines that remove
  transports wait for the lock: no call panics.
\<close>
theorem chosen_transport_stays:
  assumes "multi.reachable w" "WSelected m i \<in> set (writes w)"
  shows "(i = '''' \<or> i \<in> set (transportMap w)) \<and> WPanics \<notin> set (writes w)"
  using multi_invariants(2) [OF assms(1)] assms(2) by (auto simp: inv_write_def)

theorem chosen_transport_stays_witness: "''b'' \<in> set (transportMap busy) \<and> WPanics \<notin> set (writes busy)"
  using chosen_transport_stays [OF reachable_busy, of 7 "''b''"] by (simp add: busy_def)

section \<open>A deadlock\<close>

text \<open>
  A call that holds \<open>mu\<close> for reading and wants it a second time, and a goroutine that has announced that it wants \<open>mu\<close> for
  writing, wait for each other.
\<close>

definition deadlock :: "nat \<Rightarrow> TransportID \<Rightarrow> 'm mworld \<Rightarrow> bool" where
  "deadlock k t w \<longleftrightarrow>
     k < length (writes w) \<and> (\<exists>m. writes w ! k = WSelecting m) \<and> t \<in> set (transportMap w) \<and> loops w t = LoopPending"

lemma deadlock_locked: "deadlock k t w \<Longrightarrow> write_locked w \<and> read_locked w"
  using nth_mem by (force simp: deadlock_def write_locked_def intro: read_lockedI)

lemma deadlock_stays:
  assumes "mstep w w'" "deadlock k t w"
  shows "deadlock k t w'"
proof -
  note locked = deadlock_locked [OF assms(2)]
  from assms(1) show ?thesis
  proof cases
    case (Loop u)
    from Loop(2) show ?thesis
      by cases (use assms(2) locked in \<open>auto simp: deadlock_def\<close>)
  next
    case (Write j)
    from Write(2) show ?thesis
      by cases (use assms(2) locked Write(1) in \<open>auto simp: deadlock_def nth_list_update\<close>)
  qed (use assms(2) in \<open>auto simp: deadlock_def updateOverallStatus_def nth_append\<close>)
qed

definition blocked_for_good :: "nat \<Rightarrow> 'm mworld \<Rightarrow> bool" where
  "blocked_for_good k w \<longleftrightarrow> (\<forall>w'. mstep\<^sup>*\<^sup>* w w' \<longrightarrow> (\<exists>m. writes w' ! k = WSelecting m) \<and> write_locked w')"

lemma deadlock_blocks: "deadlock k t w \<Longrightarrow> blocked_for_good k w"
  unfolding blocked_for_good_def
proof (intro allI impI)
  fix w' assume "deadlock k t w" "mstep\<^sup>*\<^sup>* w w'"
  then have "deadlock k t w'"
    using multi.steps_preserve [of w w' "deadlock k t"] deadlock_stays by blast
  then show "(\<exists>m. writes w' ! k = WSelecting m) \<and> write_locked w'"
    using deadlock_locked by (auto simp: deadlock_def)
qed

text \<open>
  C36: \<open>Write\<close> can deadlock: it holds \<open>mu\<close> for reading when its selector asks for the map and wants \<open>mu\<close> a second time. If
  the goroutine of a transport that has failed asks for \<open>mu\<close> in between, neither ever gets it, and no later call does:
  with two connected transports, one of which fails, it can happen at the first message.
\<close>
theorem Write_deadlocks:
  "\<exists>w :: nat mworld. multi.reachable w \<and> writes w = [WSelecting 7] \<and> transportMap w = [''a'', ''b''] \<and> \<not> ctx_done w \<and>
     blocked_for_good 0 w"
proof -
  let ?w = "mworld_init [''a'', ''b''] :: nat mworld"
  let ?w1 = "?w\<lparr>writes := writes ?w @ [WWaiting 7]\<rparr>"
  let ?w2 = "?w1\<lparr>writes := (writes ?w1)[0 := WSelecting 7]\<rparr>"
  let ?w3 = "set_loop ''a'' LoopEnding ?w2"
  let ?w4 = "set_loop ''a'' LoopPending ?w3"
  have "multi.reachable ?w"
    by (rule multi.reachable.Start) (intro exI [of _ "[''a'', ''b'']"], simp)
  then have "multi.reachable ?w1"
    by (rule multi.reachable.Step) (rule mstep.WriteCall)
  then have "multi.reachable ?w2"
    by (rule multi.reachable.Step)
      (rule mstep.Write [where k = 0], simp, rule write_step.WriteLock; simp add: mworld_init_def write_locked_def)
  then have "multi.reachable ?w3"
    by (rule multi.reachable.Step)
      (rule mstep.Loop [where t = "''a''"], simp add: mworld_init_def, rule loop_step.LoopFails; simp add: mworld_init_def)
  then have "multi.reachable ?w4"
    by (rule multi.reachable.Step)
      (rule mstep.Loop [where t = "''a''"], simp add: mworld_init_def, rule loop_step.LoopAnnounce;
        simp add: mworld_init_def write_locked_def)
  moreover have "deadlock 0 ''a'' ?w4"
    by (simp add: deadlock_def mworld_init_def)
  moreover have "writes ?w4 = [WSelecting 7] \<and> transportMap ?w4 = [''a'', ''b''] \<and> \<not> ctx_done ?w4"
    by (simp add: mworld_init_def set_loop_def)
  ultimately show ?thesis
    using deadlock_blocks by blast
qed

end
