(* ===== verification/Spec2Isabelle.thy ===== *)
theory Spec2Isabelle
  imports Convert_Properties Negotiation Segment Control Generators Upstream_Properties Downstream_Properties Wire_Properties Conn_Properties Registry E2E Retry Encoding_Properties Datagrams Dialling Reconnect_Properties Byte_Balance ECF_Properties Multi_Properties
begin

text \<open>
  A model of iscp-go, the client library of the iSCP protocol, and the theorems that make it correct.

  \<^bold>\<open>The program.\<close> An application opens a connection (\<open>src/iscp/conn.go\<close>) and on it upstreams, into which it writes data
  points (\<open>src/iscp/upstream.go\<close>), downstreams, from which it reads those of other nodes (\<open>src/iscp/downstream.go\<close>), and
  calls to other nodes (\<open>src/iscp/e2e.go\<close>). The connection runs one session at a time, a \<open>wire.ClientConn\<close>
  (\<open>src/wire/client_conn.go\<close>), which numbers requests, routes responses and stream messages back, and hands protocol
  messages to an encoding (\<open>src/encoding\<close>, \<open>src/encoding/convert\<close>) over a transport. Transports are websocket, QUIC and
  WebTransport (\<open>src/transport/websocket\<close>, \<open>quic\<close>, \<open>webtransport\<close>), with parameters negotiated when they are dialled; one
  that redials by itself (\<open>src/transport/reconnect\<close>) and one that spreads messages over several
  (\<open>src/transport/multi\<close>) are built on top of them. When a session fails, the connection dials a new one, resumes the
  streams and sends again what was not acknowledged.

  \<^bold>\<open>Conventions.\<close> They are in the theory \<open>Prelude\<close>: pointers are options and a dereference of \<open>nil\<close> is an error value,
  fallible functions return a sum whose left side is the error, machine integers are words, Go maps in messages are
  the lists of their entries in the order in which one \<open>range\<close> visits them, and where the code ranges over a map of its
  own, the order is an argument. A goroutine's critical sections are functions on a record, and a relation interleaves
  them in every order with the environment's moves; so a theorem over its reachable states holds for every schedule.
  A library that is not in the repository is a parameter, with what its documentation promises as a
  hypothesis: \<open>uuid_lib_ok\<close> for \<open>github.com/google/uuid\<close>, \<open>flate_ok\<close> for the compressors \<open>compress/flate\<close> and
  \<open>github.com/klauspost/compress/flate\<close> (what was deflated with a dictionary inflates with the same one),
  \<open>transferable\<close> for a message that the protobuf or JSON library marshals and gives back.

  \<^bold>\<open>Theories and sources.\<close>

  Messages and their encoding.
  \<open>Message\<close> has the types of the package \<open>message\<close>, \<open>Proto\<close> those of the generated protobuf package as far as the
  converter uses them. \<open>Convert_Base\<close>, \<open>To_Proto\<close> and \<open>From_Proto\<close> are \<open>src/encoding/convert\<close>, function by function and
  case by case. \<open>Codec_Elems\<close> and \<open>Codec\<close> show the round trips through the locales \<open>codec\<close> and \<open>stable_codec\<close>, one
  interpretation for each pair of an encoder and a decoder; \<open>Codec_Safety\<close> shows which errors each function can return,
  through the locale \<open>fallible\<close>; \<open>Convert_Properties\<close> has the theorems on whole messages. \<open>Encoding\<close>: the two encodings
  of \<open>src/encoding/protobuf\<close> and \<open>json\<close> and the encoding transport of \<open>src/encoding/main.go\<close> with its limit and
  counters; \<open>Encoding_Properties\<close> composes the codec, the encoding and an ordered link.

  Transports.
  \<open>Negotiation\<close>: the parameters of a transport, their validation, the compression they lead to, and the forms in which
  they travel (\<open>src/transport/negotiation.go\<close>, \<open>dialer.go\<close>, \<open>compress\<close>, and the files \<open>negotiation.go\<close> of the transports).
  \<open>Segment\<close>: \<open>src/internal/segment\<close>, the cutting of messages into datagrams and their reassembly.
  \<open>Byte_Link\<close>: the compressor as a parameter, reading from a byte stream, and the contract of a link that keeps the order of
  its messages, the locale \<open>ordered_link\<close>. \<open>Quic\<close>: \<open>src/transport/quic/transport.go\<close>, its framing, compression, queue of
  datagrams and read buffer, as functions on a record and, for the two ends of a connection, the relation \<open>qstep\<close>;
  \<open>Websocket\<close>: \<open>src/transport/websocket/transport.go\<close> with its context takeover windows, and \<open>wsstep\<close>.
  \<open>Quic_Properties\<close> and \<open>Websocket_Properties\<close> have their invariants and interpret \<open>ordered_link\<close>.
  \<open>Webtransport\<close>: \<open>src/transport/webtransport\<close>, whose link is shown to take the steps of QUIC's. \<open>Datagrams\<close>: the
  goroutine that receives the datagrams of either, with the way of a message over them.
  \<open>Control\<close>: \<open>src/transport/reconnect/pingpong.go\<close>. \<open>Reconnect\<close>: the goroutines of \<open>src/transport/reconnect/transport.go\<close>
  that make the first connection, read, write, reconnect and close, as the relation \<open>rstep\<close> on the record \<open>rworld\<close>, and
  its round-trip times; \<open>Reconnect_Properties\<close> has the invariants.
  \<open>Selectors\<close>: how \<open>src/transport/multi\<close> chooses the transport of a message. \<open>Selector_Properties\<close> states the contract
  its \<open>Write\<close> relies on, the locale \<open>transport_selector\<close>, and its extension \<open>prompt_selector\<close> for selectors that never
  wait, with an interpretation for every selector; \<open>Byte_Balance\<close> and \<open>ECF_Properties\<close> have what is particular to two of
  them. \<open>Multi\<close> and \<open>Multi_Properties\<close>: \<open>src/transport/multi/transport.go\<close>, sequentially and with the lock its goroutines
  share.

  Sessions.
  \<open>Generators\<close>: request identifiers and aliases. \<open>Wire\<close>: handshake, pending requests, tables of streams, reading loops
  and subscriptions of \<open>src/wire/client_conn.go\<close>; channels are numbers whose buffers are part of the state \<open>wireworld\<close>.
  \<open>Wire_Properties\<close> has its theorems.

  The connection and its streams.
  \<open>Dialling\<close>: the configuration of a connection with its options and defaults (\<open>src/iscp/conn_options.go\<close>, \<open>const.go\<close>), the
  dialling of one or several transports, \<open>reconnect.Dial\<close> included, and \<open>connectWire\<close>, with a count of what is left open.
  \<open>Conn\<close>: status, background goroutine, senders and calls of \<open>Close\<close> of \<open>src/iscp/conn.go\<close> and \<open>state.go\<close>, with sessions
  numbered in the order of dialling; \<open>Conn_Properties\<close> relates it to a contract of three rules through the locale
  \<open>step_refinement\<close>. \<open>Registry\<close>: which streams are open and what is stored of them (\<open>conn.go\<close>, \<open>storage.go\<close>), with the
  locale \<open>stream_repository\<close> and its interpretation on the in-memory storage. \<open>Stream_Data\<close>: \<open>data.go\<close>,
  \<open>flush_policy.go\<close>, \<open>stream_state.go\<close>. \<open>Upstream\<close> and \<open>Downstream\<close>: the critical sections of the two kinds of stream as
  functions on the records \<open>upstream\<close> and \<open>downstream\<close>, and the relations \<open>ustep\<close> and \<open>dstep\<close>; the histories in
  \<open>upworld\<close> and \<open>downworld\<close> record what the application, the peer and the code did.
  \<open>E2E\<close>: \<open>e2e.go\<close> and the loops that serve it. \<open>Retry\<close>: \<open>src/internal/retry\<close>.

  Shared.
  \<open>Prelude\<close> and \<open>Step_Systems\<close>, whose locales \<open>step_system\<close> (reachable states, invariants) and \<open>step_refinement\<close> are
  interpreted on the connection, the session, the QUIC and websocket links, the reconnecting and the multi transport.

  \<^bold>\<open>What the theorems show.\<close>
  For an upstream: no written point is lost, duplicated or reordered on its way into chunks; chunks are numbered 1, 2, 3
  and never wrap; a reliable one keeps exactly the unacknowledged chunks and sends exactly those again; a peer with the
  aliases it assigned reads each chunk as it was written; the close request carries the exact totals.
  For a downstream: aliases are announced once and never change their meaning; delivered chunks are reported once, in
  order; its reads are equivalent to a sequential function. For a session: responses reach the call with their number, subscribers
  receive their own stream in order. For the connection: it implements a status with at most one
  open session where closed is final; no session is leaked; the background goroutine ends after a close. For the
  transports: messages keep their order through reconnections and through the multi transport, no dialled transport is
  leaked, datagrams in any order give back the message, each selector keeps the contract of \<open>Write\<close>, negotiated parameters
  are read back; over QUIC and websocket, compressed or not, reads return the written messages in order and the two
  compression windows are equal whenever nothing is in flight. For the codec: the round trips in both directions and the
  exact errors. A connection attempt leaves open exactly the transports of its session, with one exception, a defect.
  For the composition: a protocol message written into an encoding transport over QUIC or websocket is the
  message read at the other end; over datagrams it is the message that the receiving goroutine delivers, compressed or not.
  Some theorems state a defect, in the form of the run that shows it: a response of another type panics the client, the
  multi transport's \<open>Write\<close> can deadlock, a missing dialer leaks the transports dialled before it, a reconnecting
  transport can report that it reconnects for good, a full congestion window counts as a closed transport.

  \<^bold>\<open>Bounds and fuel.\<close> No definition uses fuel. Loops over data are structural or have a measure (the bytes that are left);
  \<open>Retry.retry_loop\<close> may run for ever and is a \<open>partial_function (option)\<close>, and exactly when it returns is a theorem; the
  rounds of the waiting selector are a recursion over the list of what each round finds, and \<open>None\<close> is the selector that
  still waits at its end. Capacities of channels and limits of counters are those of the code: 1024 requests in the
  reconnecting transport, 2^32 - 1 chunks, 2^64 data points, 65535 segments of 1188 bytes.

  \<^bold>\<open>Not modelled.\<close> The network libraries below the transports, which are a byte stream or a list of frames; the generated
  code of protobuf and of JSON, which is a parameter; what the dialers of the networks do with those libraries, and the
  in-memory pipe; the options of streams (\<open>src/iscp/upstream_options.go\<close> and its siblings), which only fill in the fields the
  models take as given; the scheduler driven by the operating system's network interfaces; metrics read from
  the kernel; logging, event handlers and hooks, which call the application. Left out of the parts that are modelled: the
  closing of the acknowledgement channels when a session's loops end; the wait of the reconnecting transport's reading loop for
  the answer to its pong; the rounding of floating point products in the retry intervals and the smoothed round-trip
  time; snapshots of the selectors' statistics; what the JSON decoder leaves in the negotiated parameters after an error;
  timeouts of the websocket. The random identifiers of calls are taken to be unused when they are
  entered.
\<close>

end
